theory Spec2Isabelle
  imports Main "HOL-Library.Word" "HOL-Library.AList"
begin

unbundle bit_operations_syntax

section \<open>JavaScript values\<close>

text \<open>
  The program is \<^verbatim>\<open>html5/runtime/init.js\<close>, the instance dispatch runtime. A JavaScript
  string is a sequence of 16-bit code units; a number is an IEEE double, kept as its 64-bit
  pattern. The conversions between decimal text and doubles are floating-point operations
  of the host; they are parameters of the model (\<open>parseNumber\<close>, \<open>numberToString\<close>
  below) and no theorem depends on what they compute.
\<close>

type_synonym jschar = "16 word"
type_synonym jsstring = "jschar list"
type_synonym jsnumber = "64 word"

definition js :: "string \<Rightarrow> jsstring" where
  "js s = map of_char s"

text \<open>A string literal between double quotes, as it stands in JSON text.\<close>

definition quoted :: "string \<Rightarrow> jsstring" where
  "quoted s = [0x22] @ js s @ [0x22]"

datatype jsval =
    JUndefined
  | JNull
  | JBool bool
  | JNum jsnumber
  | JStr jsstring
  | JArr "jsval list"
  | JObj "(jsstring \<times> jsval) list"
  | JErr jsstring  \<comment> \<open>\<^verbatim>\<open>new Error(message)\<close>\<close>
  | JFun jsstring  \<comment> \<open>a built-in function, by its name\<close>

type_synonym object = "(jsstring \<times> jsval) list"

text \<open>
  An object is the list of its own enumerable properties in creation order (JavaScript
  enumerates names that are array indices before the others; the order of the list has
  no effect on any property read). The property names that the program writes in its
  source (\<^verbatim>\<open>framework\<close>, \<^verbatim>\<open>version\<close>, \<^verbatim>\<open>type\<close>, \<^verbatim>\<open>methods\<close>) are defined by no built-in
  prototype, so reading one of them from an object that does not own it gives
  \<^verbatim>\<open>undefined\<close>. Writing a property replaces the value in place or appends the property.
\<close>

definition getProp :: "object \<Rightarrow> string \<Rightarrow> jsval" where
  "getProp ob name = (case map_of ob (js name) of Some v \<Rightarrow> v | None \<Rightarrow> JUndefined)"

definition setProp :: "object \<Rightarrow> string \<Rightarrow> jsval \<Rightarrow> object" where
  "setProp ob name v = AList.update (js name) v ob"

text \<open>
  Property read on any value: of the four names above, only objects own one. Strings,
  arrays, \<^verbatim>\<open>Error\<close> objects and built-in functions have none of them.
\<close>

definition getValueProp :: "jsval \<Rightarrow> string \<Rightarrow> jsval" where
  "getValueProp v name = (case v of JObj ob \<Rightarrow> getProp ob name | _ \<Rightarrow> JUndefined)"

text \<open>
  The two registries of the program, \<^verbatim>\<open>instanceMap\<close> and \<^verbatim>\<open>frameworks\<close>, are plain objects
  read with \<^verbatim>\<open>object[key]\<close> for a key that comes from outside. Such a read finds the
  object's own property or else the property that \<^verbatim>\<open>Object.prototype\<close> has under that
  name. \<open>Object_prototype name\<close> is that inherited value, for the properties that
  ECMAScript gives \<^verbatim>\<open>Object.prototype\<close>: \<^verbatim>\<open>constructor\<close> is the function \<^verbatim>\<open>Object\<close>,
  \<^verbatim>\<open>__proto__\<close> is an accessor that gives the prototype itself, an object without
  enumerable properties, and the others are functions. No script is taken to have added
  properties to \<^verbatim>\<open>Object.prototype\<close>.
\<close>

definition Object_prototype :: "jsstring \<Rightarrow> jsval option" where
  "Object_prototype name =
     (if name = js ''constructor'' then Some (JFun (js ''Object''))
      else if name = js ''__proto__'' then Some (JObj [])
      else if name \<in> set (map js [''hasOwnProperty'', ''isPrototypeOf'', ''propertyIsEnumerable'',
                                    ''toLocaleString'', ''toString'', ''valueOf'',
                                    ''__defineGetter__'', ''__defineSetter__'',
                                    ''__lookupGetter__'', ''__lookupSetter__''])
      then Some (JFun name)
      else None)"

definition isZero :: "jsnumber \<Rightarrow> bool" where
  "isZero d = (d AND 0x7FFFFFFFFFFFFFFF = 0)"

definition isFinite :: "jsnumber \<Rightarrow> bool" where
  "isFinite d = (d AND 0x7FF0000000000000 \<noteq> 0x7FF0000000000000)"

definition isNaN :: "jsnumber \<Rightarrow> bool" where
  "isNaN d = (\<not> isFinite d \<and> d AND 0x000FFFFFFFFFFFFF \<noteq> 0)"

text \<open>\<^verbatim>\<open>ToBoolean\<close>: what \<^verbatim>\<open>if (x)\<close>, \<^verbatim>\<open>!x\<close>, \<^verbatim>\<open>x && y\<close> and \<^verbatim>\<open>x || y\<close> test.\<close>

fun truthy :: "jsval \<Rightarrow> bool" where
  "truthy JUndefined = False"
| "truthy JNull = False"
| "truthy (JBool b) = b"
| "truthy (JNum d) = (\<not> isZero d \<and> \<not> isNaN d)"
| "truthy (JStr s) = (s \<noteq> [])"
| "truthy (JArr _) = True"
| "truthy (JObj _) = True"
| "truthy (JErr _) = True"
| "truthy (JFun _) = True"

text \<open>
  \<^verbatim>\<open>ToString\<close>, which turns the value between the brackets of \<^verbatim>\<open>frameworks[x]\<close> into a
  property key. An array joins its elements with commas, \<^verbatim>\<open>undefined\<close> and \<^verbatim>\<open>null\<close>
  elements giving the empty string. The text of a built-in function is left to the
  implementation; it is the one V8 prints.
\<close>

fun joinWith :: "jsstring \<Rightarrow> jsstring list \<Rightarrow> jsstring" where
  "joinWith sep [] = []"
| "joinWith sep [x] = x"
| "joinWith sep (x # y # ys) = x @ sep @ joinWith sep (y # ys)"

fun toString :: "(jsnumber \<Rightarrow> jsstring) \<Rightarrow> jsval \<Rightarrow> jsstring" where
  "toString n2s JUndefined = js ''undefined''"
| "toString n2s JNull = js ''null''"
| "toString n2s (JBool b) = (if b then js ''true'' else js ''false'')"
| "toString n2s (JNum d) = n2s d"
| "toString n2s (JStr s) = s"
| "toString n2s (JArr vs) =
     joinWith (js '','')
       (map (\<lambda>v. if v = JUndefined \<or> v = JNull then [] else toString n2s v) vs)"
| "toString n2s (JObj _) = js ''[object Object]''"
| "toString n2s (JErr m) = (if m = [] then js ''Error'' else js ''Error: '' @ m)"
| "toString n2s (JFun name) = js ''function '' @ name @ js ''() { [native code] }''"

section \<open>The version header pattern\<close>

text \<open>
  \<^verbatim>\<open>const versionRegExp = /^\s*\/\/ *(\{[^}]*\}) *\r?\n/\<close>

  \<^verbatim>\<open>\s\<close> is the white space and line terminator class of ECMAScript.
\<close>

definition isWhiteSpace :: "jschar \<Rightarrow> bool" where
  "isWhiteSpace c =
     (c = 0x09 \<or> c = 0x0A \<or> c = 0x0B \<or> c = 0x0C \<or> c = 0x0D \<or> c = 0x20 \<or> c = 0xA0
      \<or> c = 0x1680 \<or> (0x2000 \<le> c \<and> c \<le> 0x200A) \<or> c = 0x2028 \<or> c = 0x2029
      \<or> c = 0x202F \<or> c = 0x205F \<or> c = 0x3000 \<or> c = 0xFEFF)"

text \<open>
  \<open>versionRegExp_exec code\<close> is \<^verbatim>\<open>versionRegExp.exec(code)\<close> reduced to what the program
  reads of it: \<open>None\<close> when there is no match, else the text of group 1. Every starred
  class of the pattern is followed by a character outside that class, so the greedy match
  is the only one and the matcher never has to backtrack.
\<close>

definition versionRegExp_exec :: "jsstring \<Rightarrow> jsstring option" where
  "versionRegExp_exec code =
     (case dropWhile isWhiteSpace code of
        c1 # c2 # r1 \<Rightarrow>
          if c1 = 0x2F \<and> c2 = 0x2F then
            (case dropWhile (\<lambda>c. c = 0x20) r1 of
               c3 # r2 \<Rightarrow>
                 if c3 = 0x7B then
                   (case dropWhile (\<lambda>c. c \<noteq> 0x7D) r2 of
                      c4 # r3 \<Rightarrow>
                        (case dropWhile (\<lambda>c. c = 0x20) r3 of
                           c5 # r4 \<Rightarrow>
                             if c5 = 0x0A \<or> (c5 = 0x0D \<and> (case r4 of c6 # _ \<Rightarrow> c6 = 0x0A | [] \<Rightarrow> False))
                             then Some ([0x7B] @ takeWhile (\<lambda>c. c \<noteq> 0x7D) r2 @ [0x7D])
                             else None
                         | [] \<Rightarrow> None)
                    | [] \<Rightarrow> None)
                 else None
             | [] \<Rightarrow> None)
          else None
      | _ \<Rightarrow> None)"

section \<open>\<^verbatim>\<open>JSON.parse\<close>\<close>

datatype token =
    TLBrace | TRBrace | TLBracket | TRBracket | TColon | TComma
  | TString jsstring | TNumber jsstring | TTrue | TFalse | TNull

definition isDigit :: "jschar \<Rightarrow> bool" where
  "isDigit c = (0x30 \<le> c \<and> c \<le> 0x39)"

definition hexValue :: "jschar \<Rightarrow> jschar option" where
  "hexValue c =
     (if 0x30 \<le> c \<and> c \<le> 0x39 then Some (c - 0x30)
      else if 0x41 \<le> c \<and> c \<le> 0x46 then Some (c - 0x37)
      else if 0x61 \<le> c \<and> c \<le> 0x66 then Some (c - 0x57)
      else None)"

text \<open>The character after a backslash, other than \<^verbatim>\<open>u\<close>.\<close>

definition unescape :: "jschar \<Rightarrow> jschar option" where
  "unescape c =
     (if c = 0x22 \<or> c = 0x5C \<or> c = 0x2F then Some c
      else if c = 0x62 then Some 0x08
      else if c = 0x66 then Some 0x0C
      else if c = 0x6E then Some 0x0A
      else if c = 0x72 then Some 0x0D
      else if c = 0x74 then Some 0x09
      else None)"

definition consChar :: "jschar \<Rightarrow> (jsstring \<times> jsstring) option \<Rightarrow> (jsstring \<times> jsstring) option" where
  "consChar c r = (case r of None \<Rightarrow> None | Some (s, rest) \<Rightarrow> Some (c # s, rest))"

text \<open>
  The characters of a string literal after its opening quote: the decoded string and the
  text after the closing quote.
\<close>

fun lexString :: "jsstring \<Rightarrow> (jsstring \<times> jsstring) option" where
  "lexString [] = None"
| "lexString (c # cs) =
     (if c = 0x22 then Some ([], cs)
      else if c = 0x5C then
        (case cs of
           [] \<Rightarrow> None
         | e # cs1 \<Rightarrow>
             if e = 0x75 then
               (case cs1 of
                  h1 # h2 # h3 # h4 # cs2 \<Rightarrow>
                    (case (hexValue h1, hexValue h2, hexValue h3, hexValue h4) of
                       (Some a, Some b, Some c', Some d) \<Rightarrow>
                         consChar (push_bit 12 a + push_bit 8 b + push_bit 4 c' + d) (lexString cs2)
                     | _ \<Rightarrow> None)
                | _ \<Rightarrow> None)
             else
               (case unescape e of
                  None \<Rightarrow> None
                | Some d \<Rightarrow> consChar d (lexString cs1)))
      else if c < 0x20 then None
      else consChar c (lexString cs))"

text \<open>
  A number literal: \<^verbatim>\<open>-? (0 | [1-9][0-9]*) (\.[0-9]+)? ([eE][+-]?[0-9]+)?\<close>. The result is
  the literal's text and the text after it.
\<close>

definition lexInt :: "jsstring \<Rightarrow> (jsstring \<times> jsstring) option" where
  "lexInt cs =
     (case cs of
        [] \<Rightarrow> None
      | c # r \<Rightarrow>
          if c = 0x30 then Some ([c], r)
          else if isDigit c then Some (takeWhile isDigit cs, dropWhile isDigit cs)
          else None)"

definition lexFrac :: "jsstring \<Rightarrow> (jsstring \<times> jsstring) option" where
  "lexFrac cs =
     (case cs of
        [] \<Rightarrow> Some ([], [])
      | c # r \<Rightarrow>
          if c = 0x2E then
            (if takeWhile isDigit r = [] then None
             else Some (c # takeWhile isDigit r, dropWhile isDigit r))
          else Some ([], cs))"

definition lexExp :: "jsstring \<Rightarrow> (jsstring \<times> jsstring) option" where
  "lexExp cs =
     (case cs of
        [] \<Rightarrow> Some ([], [])
      | c # r \<Rightarrow>
          if c = 0x65 \<or> c = 0x45 then
            (let sign = (case r of s # _ \<Rightarrow> if s = 0x2B \<or> s = 0x2D then [s] else [] | [] \<Rightarrow> []);
                 r1 = drop (length sign) r
             in if takeWhile isDigit r1 = [] then None
                else Some (c # sign @ takeWhile isDigit r1, dropWhile isDigit r1))
          else Some ([], cs))"

definition lexNumber :: "jsstring \<Rightarrow> (jsstring \<times> jsstring) option" where
  "lexNumber cs =
     (let sign = (case cs of c # _ \<Rightarrow> if c = 0x2D then [c] else [] | [] \<Rightarrow> [])
      in case lexInt (drop (length sign) cs) of
           None \<Rightarrow> None
         | Some (i, r1) \<Rightarrow>
             (case lexFrac r1 of
                None \<Rightarrow> None
              | Some (f, r2) \<Rightarrow>
                  (case lexExp r2 of
                     None \<Rightarrow> None
                   | Some (e, r3) \<Rightarrow> Some (sign @ i @ f @ e, r3))))"

lemma consChar_rest:
  "consChar c r = Some (s, rest) \<Longrightarrow> \<exists>s'. r = Some (s', rest)"
  by (auto simp: consChar_def split: option.splits)

lemma lexString_rest: "lexString cs = Some (s, rest) \<Longrightarrow> length rest < length cs"
proof (induction cs arbitrary: s rest rule: length_induct)
  case (1 cs)
  from "1.prems" obtain c cs0 where cs: "cs = c # cs0"
    by (cases cs) auto
  have IH: "lexString ys = Some (s', rest) \<Longrightarrow> length ys \<le> length cs0 \<Longrightarrow> length rest < length cs"
    for ys s'
  proof -
    assume a: "lexString ys = Some (s', rest)" and b: "length ys \<le> length cs0"
    from b cs have "length ys < length cs" by simp
    with "1.IH" a have "length rest < length ys" by blast
    with b cs show ?thesis by simp
  qed
  from "1.prems" cs show ?case
    by (auto split: if_splits list.splits option.splits dest!: consChar_rest dest: IH)
qed

lemma lexInt_rest: "lexInt cs = Some (i, rest) \<Longrightarrow> length rest < length cs"
  by (cases cs) (auto simp: lexInt_def length_dropWhile_le less_Suc_eq_le split: if_splits)

lemma lexFrac_rest: "lexFrac cs = Some (f, rest) \<Longrightarrow> length rest \<le> length cs"
  by (cases cs)
     (auto simp: lexFrac_def length_dropWhile_le le_SucI split: if_splits)

lemma lexExp_rest: "lexExp cs = Some (e, rest) \<Longrightarrow> length rest \<le> length cs"
proof (cases cs)
  case Nil
  assume "lexExp cs = Some (e, rest)"
  with Nil show ?thesis by (simp add: lexExp_def)
next
  case (Cons c r)
  assume a: "lexExp cs = Some (e, rest)"
  have "length (dropWhile isDigit (drop n r)) \<le> Suc (length r)" for n
    using length_dropWhile_le [of isDigit "drop n r"] by simp
  with a Cons show ?thesis
    by (auto simp: lexExp_def Let_def split: if_splits)
qed

lemma lexNumber_rest:
  assumes "lexNumber cs = Some (n, rest)"
  shows "length rest < length cs"
proof -
  from assms obtain i r1 f r2 e where
    i: "lexInt (drop (length (case cs of c # _ \<Rightarrow> if c = 0x2D then [c] else [] | [] \<Rightarrow> [])) cs) = Some (i, r1)"
    and f: "lexFrac r1 = Some (f, r2)" and e: "lexExp r2 = Some (e, rest)"
    by (auto simp: lexNumber_def Let_def split: option.splits)
  from lexInt_rest [OF i] have "length r1 < length cs" by simp
  with lexFrac_rest [OF f] lexExp_rest [OF e] show ?thesis by simp
qed

text \<open>
  The tokens of a JSON text, \<open>None\<close> when some character starts no token. White space
  between tokens is tab, line feed, carriage return and space.
\<close>

function lexJSON :: "jsstring \<Rightarrow> token list option" where
  "lexJSON [] = Some []"
| "lexJSON (c # cs) =
     (if c = 0x09 \<or> c = 0x0A \<or> c = 0x0D \<or> c = 0x20 then lexJSON cs
      else if c = 0x7B then map_option (Cons TLBrace) (lexJSON cs)
      else if c = 0x7D then map_option (Cons TRBrace) (lexJSON cs)
      else if c = 0x5B then map_option (Cons TLBracket) (lexJSON cs)
      else if c = 0x5D then map_option (Cons TRBracket) (lexJSON cs)
      else if c = 0x3A then map_option (Cons TColon) (lexJSON cs)
      else if c = 0x2C then map_option (Cons TComma) (lexJSON cs)
      else if c = 0x22 then
        (case lexString cs of
           None \<Rightarrow> None
         | Some (s, rest) \<Rightarrow> map_option (Cons (TString s)) (lexJSON rest))
      else if c = 0x2D \<or> isDigit c then
        (case lexNumber (c # cs) of
           None \<Rightarrow> None
         | Some (n, rest) \<Rightarrow> map_option (Cons (TNumber n)) (lexJSON rest))
      else if take 4 (c # cs) = js ''true'' then map_option (Cons TTrue) (lexJSON (drop 3 cs))
      else if take 5 (c # cs) = js ''false'' then map_option (Cons TFalse) (lexJSON (drop 4 cs))
      else if take 4 (c # cs) = js ''null'' then map_option (Cons TNull) (lexJSON (drop 3 cs))
      else None)"
  by pat_completeness auto
termination
  by (relation "measure length")
     (auto dest: lexString_rest lexNumber_rest)

text \<open>
  The grammar over the tokens, as a pushdown automaton: the stack holds the arrays and
  objects that are still open, the mode says which tokens may come next. A property name
  that occurs twice keeps its first position and takes the last value.
\<close>

datatype frame =
    ArrF "jsval list"            \<comment> \<open>an open array and its elements so far\<close>
  | ObjF object                  \<comment> \<open>an open object and its properties so far\<close>
  | ObjKeyF object jsstring      \<comment> \<open>an open object that has read a name and waits for the value\<close>

datatype pmode =
    PValue        \<comment> \<open>a value must follow\<close>
  | PValueOrEnd   \<comment> \<open>just after \<^verbatim>\<open>[\<close>: a value or \<^verbatim>\<open>]\<close>\<close>
  | PKeyOrEnd     \<comment> \<open>just after \<^verbatim>\<open>{\<close>: a name or \<^verbatim>\<open>}\<close>\<close>
  | PKey          \<comment> \<open>after a comma in an object: a name\<close>
  | PColon        \<comment> \<open>after a name: the colon\<close>
  | PNext         \<comment> \<open>after a value in an array or object: a comma or the closing bracket\<close>
  | PDone jsval   \<comment> \<open>the whole value has been read\<close>

text \<open>A complete value \<open>v\<close> goes to the innermost open array or object.\<close>

fun reduce :: "jsval \<Rightarrow> frame list \<Rightarrow> (pmode \<times> frame list) option" where
  "reduce v [] = Some (PDone v, [])"
| "reduce v (ArrF vs # st) = Some (PNext, ArrF (vs @ [v]) # st)"
| "reduce v (ObjKeyF ob k # st) = Some (PNext, ObjF (AList.update k v ob) # st)"
| "reduce v (ObjF ob # st) = None"

definition pstep ::
  "(jsstring \<Rightarrow> jsnumber) \<Rightarrow> pmode \<Rightarrow> frame list \<Rightarrow> token \<Rightarrow> (pmode \<times> frame list) option"
where
  "pstep s2n m st t =
     (case m of
        PDone _ \<Rightarrow> None
      | PColon \<Rightarrow> (case t of TColon \<Rightarrow> Some (PValue, st) | _ \<Rightarrow> None)
      | PKey \<Rightarrow>
          (case (t, st) of
             (TString k, ObjF ob # st') \<Rightarrow> Some (PColon, ObjKeyF ob k # st')
           | _ \<Rightarrow> None)
      | PKeyOrEnd \<Rightarrow>
          (case (t, st) of
             (TString k, ObjF ob # st') \<Rightarrow> Some (PColon, ObjKeyF ob k # st')
           | (TRBrace, ObjF ob # st') \<Rightarrow> reduce (JObj ob) st'
           | _ \<Rightarrow> None)
      | PNext \<Rightarrow>
          (case (t, st) of
             (TComma, ArrF vs # st') \<Rightarrow> Some (PValue, st)
           | (TRBracket, ArrF vs # st') \<Rightarrow> reduce (JArr vs) st'
           | (TComma, ObjF ob # st') \<Rightarrow> Some (PKey, st)
           | (TRBrace, ObjF ob # st') \<Rightarrow> reduce (JObj ob) st'
           | _ \<Rightarrow> None)
      | _ \<Rightarrow>
          (case t of
             TString s \<Rightarrow> reduce (JStr s) st
           | TNumber n \<Rightarrow> reduce (JNum (s2n n)) st
           | TTrue \<Rightarrow> reduce (JBool True) st
           | TFalse \<Rightarrow> reduce (JBool False) st
           | TNull \<Rightarrow> reduce JNull st
           | TLBracket \<Rightarrow> Some (PValueOrEnd, ArrF [] # st)
           | TLBrace \<Rightarrow> Some (PKeyOrEnd, ObjF [] # st)
           | TRBracket \<Rightarrow>
               (case (m, st) of
                  (PValueOrEnd, ArrF vs # st') \<Rightarrow> reduce (JArr vs) st'
                | _ \<Rightarrow> None)
           | _ \<Rightarrow> None))"

fun parseTokens ::
  "(jsstring \<Rightarrow> jsnumber) \<Rightarrow> pmode \<Rightarrow> frame list \<Rightarrow> token list \<Rightarrow> jsval option"
where
  "parseTokens s2n m st [] = (case m of PDone v \<Rightarrow> Some v | _ \<Rightarrow> None)"
| "parseTokens s2n m st (t # ts) =
     (case pstep s2n m st t of
        None \<Rightarrow> None
      | Some (m', st') \<Rightarrow> parseTokens s2n m' st' ts)"

text \<open>
  \<open>JSON_parse s2n text\<close> is \<^verbatim>\<open>JSON.parse(text)\<close>: \<open>None\<close> where it throws a
  \<^verbatim>\<open>SyntaxError\<close>. \<open>s2n\<close> converts a number literal to a double.
\<close>

definition JSON_parse :: "(jsstring \<Rightarrow> jsnumber) \<Rightarrow> jsstring \<Rightarrow> jsval option" where
  "JSON_parse s2n text =
     (case lexJSON text of
        None \<Rightarrow> None
      | Some ts \<Rightarrow> parseTokens s2n PValue [] ts)"

section \<open>The store\<close>

text \<open>
  A value says what an object contains, not which object it is. The objects that
  \<^verbatim>\<open>createInstance\<close> receives and makes live in a store: a list of cells, the address of
  an object being its index, and a new object taking the next free address. Mutating an
  object is replacing the cell at its address. The store holds data: objects and arrays
  of strings, numbers, booleans, \<^verbatim>\<open>null\<close>, \<^verbatim>\<open>undefined\<close> and other such objects and arrays.
\<close>

type_synonym addr = nat

datatype hval =
    HUndefined | HNull | HBool bool | HNum jsnumber | HStr jsstring
  | HRef addr  \<comment> \<open>an object or an array, by address\<close>

datatype hcell =
    HObject "(jsstring \<times> hval) list"
  | HArray "hval list" "(jsstring \<times> hval) list"

type_synonym heap = "hcell list"

text \<open>
  \<open>readValue h stack v\<close> is the content of the value \<open>v\<close> in the store \<open>h\<close>, as
  \<^verbatim>\<open>JSON.stringify\<close> walks it: the own properties of an object, the elements of an array
  (the named properties of an array are not part of its content).
  \<open>stack\<close> holds the objects being visited; meeting one of them again is the cyclic
  structure on which \<^verbatim>\<open>JSON.stringify\<close> throws a \<^verbatim>\<open>TypeError\<close>, here \<open>None\<close>.
\<close>

function readValue :: "heap \<Rightarrow> addr list \<Rightarrow> hval \<Rightarrow> jsval option" where
  "readValue h stack HUndefined = Some JUndefined"
| "readValue h stack HNull = Some JNull"
| "readValue h stack (HBool b) = Some (JBool b)"
| "readValue h stack (HNum d) = Some (JNum d)"
| "readValue h stack (HStr s) = Some (JStr s)"
| "readValue h stack (HRef a) =
     (if a \<in> set stack \<or> length h \<le> a then None
      else
        (case h ! a of
           HObject props \<Rightarrow>
             map_option JObj
               (those (map (\<lambda>p. map_option (Pair (fst p)) (readValue h (a # stack) (snd p))) props))
         | HArray elems _ \<Rightarrow>
             map_option JArr (those (map (readValue h (a # stack)) elems))))"
  by pat_completeness auto
termination
proof (relation "measure (\<lambda>(h, stack, v). length h - card {a \<in> set stack. a < length h})")
  show "wf (measure (\<lambda>(h, stack, v). length h - card {a \<in> set stack. a < length h}))"
    by simp
next
  fix h :: heap and stack :: "addr list" and a :: addr
  assume "\<not> (a \<in> set stack \<or> length h \<le> a)"
  then have a: "a \<notin> set stack" "a < length h" by auto
  have "{b \<in> set (a # stack). b < length h} = insert a {b \<in> set stack. b < length h}"
    using a by auto
  moreover have "a \<notin> {b \<in> set stack. b < length h}"
    using a by simp
  ultimately have c: "card {b \<in> set (a # stack). b < length h} = Suc (card {b \<in> set stack. b < length h})"
    by simp
  have "{b \<in> set (a # stack). b < length h} \<subseteq> {..<length h}"
    by auto
  then have "card {b \<in> set (a # stack). b < length h} \<le> length h"
    using card_mono [of "{..<length h}"] by fastforce
  with c have d: "length h - card {b \<in> set (a # stack). b < length h}
                    < length h - card {b \<in> set stack. b < length h}"
    by simp
  {
    fix x2 and x :: "jsstring \<times> hval"
    show "((h, a # stack, snd x), h, stack, HRef a)
            \<in> measure (\<lambda>(h, stack, v). length h - card {a \<in> set stack. a < length h})"
      using d by simp
  }
  {
    fix x :: hval
    show "((h, a # stack, x), h, stack, HRef a)
            \<in> measure (\<lambda>(h, stack, v). length h - card {a \<in> set stack. a < length h})"
      using d by simp
  }
qed

text \<open>
  \<open>allocate h v\<close> builds the value \<open>v\<close> from new objects, as \<^verbatim>\<open>JSON.parse\<close> does for
  the text of \<open>v\<close>: the store with the new cells and the value that refers to them.
  \<^verbatim>\<open>JSON.parse\<close> returns data; of an \<^verbatim>\<open>Error\<close> and of a function, which it never returns,
  the store would hold an object without enumerable properties.
\<close>

fun allocate :: "heap \<Rightarrow> jsval \<Rightarrow> heap \<times> hval"
  and allocateList :: "heap \<Rightarrow> jsval list \<Rightarrow> heap \<times> hval list"
  and allocateProps :: "heap \<Rightarrow> (jsstring \<times> jsval) list \<Rightarrow> heap \<times> (jsstring \<times> hval) list"
where
  "allocate h JUndefined = (h, HUndefined)"
| "allocate h JNull = (h, HNull)"
| "allocate h (JBool b) = (h, HBool b)"
| "allocate h (JNum d) = (h, HNum d)"
| "allocate h (JStr s) = (h, HStr s)"
| "allocate h (JArr vs) =
     (case allocateList h vs of (h1, elems) \<Rightarrow> (h1 @ [HArray elems []], HRef (length h1)))"
| "allocate h (JObj ob) =
     (case allocateProps h ob of (h1, props) \<Rightarrow> (h1 @ [HObject props], HRef (length h1)))"
| "allocate h (JErr m) = (h @ [HObject []], HRef (length h))"
| "allocate h (JFun name) = (h @ [HObject []], HRef (length h))"
| "allocateList h [] = (h, [])"
| "allocateList h (v # vs) =
     (case allocate h v of (h1, x) \<Rightarrow>
        (case allocateList h1 vs of (h2, xs) \<Rightarrow> (h2, x # xs)))"
| "allocateProps h [] = (h, [])"
| "allocateProps h (p # ps) =
     (case allocate h (snd p) of (h1, x) \<Rightarrow>
        (case allocateProps h1 ps of (h2, xs) \<Rightarrow> (h2, (fst p, x) # xs)))"

text \<open>The addresses that a value and a cell refer to.\<close>

fun refsOfVal :: "hval \<Rightarrow> addr set" where
  "refsOfVal (HRef a) = {a}"
| "refsOfVal _ = {}"

definition refsOfProps :: "(jsstring \<times> hval) list \<Rightarrow> addr set" where
  "refsOfProps props = (\<Union>p\<in>set props. refsOfVal (snd p))"

fun refsOf :: "hcell \<Rightarrow> addr set" where
  "refsOf (HObject props) = refsOfProps props"
| "refsOf (HArray elems props) = (\<Union>x\<in>set elems. refsOfVal x) \<union> refsOfProps props"

text \<open>
  The cells at the addresses from \<open>lo\<close> up to \<open>hi\<close> refer only to cells in that same
  range: nothing inside the region points out of it.
\<close>

definition regionClosed :: "nat \<Rightarrow> nat \<Rightarrow> heap \<Rightarrow> bool" where
  "regionClosed lo hi h =
     (hi \<le> length h \<and> (\<forall>b. lo \<le> b \<and> b < hi \<longrightarrow> refsOf (h ! b) \<subseteq> {lo..<hi}))"

text \<open>\<^verbatim>\<open>object.name = v\<close> for the object at address \<open>a\<close>.\<close>

definition setField :: "heap \<Rightarrow> addr \<Rightarrow> string \<Rightarrow> hval \<Rightarrow> heap" where
  "setField h a name v =
     h[a := (case h ! a of
               HObject props \<Rightarrow> HObject (AList.update (js name) v props)
             | HArray elems props \<Rightarrow> HArray elems (AList.update (js name) v props))]"

text \<open>\<^verbatim>\<open>v.name\<close> for a value \<open>v\<close> of the store and one of the names of the program.\<close>

definition getField :: "heap \<Rightarrow> hval \<Rightarrow> string \<Rightarrow> hval" where
  "getField h v name =
     (case v of
        HRef a \<Rightarrow>
          (if a < length h then
             (case map_of (case h ! a of HObject props \<Rightarrow> props | HArray elems props \<Rightarrow> props)
                     (js name) of
                Some x \<Rightarrow> x
              | None \<Rightarrow> HUndefined)
           else HUndefined)
      | _ \<Rightarrow> HUndefined)"

text \<open>
  What \<^verbatim>\<open>JSON.stringify(config || {})\<close> reads. The caller's \<^verbatim>\<open>config\<close> is an object
  (\<^verbatim>\<open>@param {object} config\<close>), given by its address; \<open>None\<close> is a missing or falsy
  \<^verbatim>\<open>config\<close>.
\<close>

definition callerContent :: "heap \<Rightarrow> addr option \<Rightarrow> jsval option" where
  "callerContent h config =
     (case config of None \<Rightarrow> Some (JObj []) | Some a \<Rightarrow> readValue h [] (HRef a))"

text \<open>
  The content of the object at an address, as a collaborator that is handed the object
  finds it: the properties of an object, the elements of an array.
\<close>

definition contentAt :: "heap \<Rightarrow> addr \<Rightarrow> jsval" where
  "contentAt h a = (case readValue h [] (HRef a) of Some v \<Rightarrow> v | None \<Rightarrow> JUndefined)"

section \<open>Collaborators and state\<close>

text \<open>
  Backends, services and the element-type registry are code outside this file. Each of
  their functions is modelled by what a call gives back: the returned value or the thrown
  exception. The runtime's own state records every such call in \<open>calls\<close>, in order, so
  that theorems can say which collaborators a public method invoked. A collaborator is
  taken to leave the registries and the store as they are. \<^verbatim>\<open>console.debug\<close> is not
  modelled.
\<close>

datatype thrown =
    TypeError       \<comment> \<open>raised by the engine: calling or reading through \<^verbatim>\<open>undefined\<close>\<close>
  | Thrown jsval    \<comment> \<open>thrown by a collaborator\<close>

type_synonym result = "thrown + jsval"

type_synonym extfun = "jsval list \<Rightarrow> result"

text \<open>A backend: for each method name, the method when the backend has it.\<close>

type_synonym framework = "string \<Rightarrow> extfun option"

text \<open>A service: the hooks of \<^verbatim>\<open>service.options\<close>.\<close>

record service =
  create :: "extfun option"
  refresh :: "extfun option"
  destroy :: "extfun option"

record env =
  services :: "service list"                  \<comment> \<open>\<^verbatim>\<open>services\<close> of \<^verbatim>\<open>./service\<close>, in registration order\<close>
  runtimeConfig :: jsval                      \<comment> \<open>the default export of \<^verbatim>\<open>./config\<close>\<close>
  WXEnvironment :: hval                       \<comment> \<open>\<^verbatim>\<open>global.WXEnvironment\<close>, a value of the store\<close>
  now :: jsnumber                             \<comment> \<open>\<^verbatim>\<open>Date.now()\<close>\<close>
  registerElement :: extfun                   \<comment> \<open>\<^verbatim>\<open>registerElement\<close> of \<^verbatim>\<open>./vdom/element-types\<close>\<close>
  parseNumber :: "jsstring \<Rightarrow> jsnumber"
  numberToString :: "jsnumber \<Rightarrow> jsstring"
  builtin :: "jsstring \<Rightarrow> framework"       \<comment> \<open>the methods of the values of \<^verbatim>\<open>Object.prototype\<close>\<close>

datatype event =
    FrameworkCall jsstring string "jsval list"  \<comment> \<open>backend name, method, arguments\<close>
  | ServiceCall nat string "jsval list"         \<comment> \<open>index in \<open>services\<close>, hook, arguments\<close>
  | ElementCall "jsval list"                    \<comment> \<open>arguments of \<^verbatim>\<open>registerElement\<close>\<close>

text \<open>
  \<open>frameworks\<close> holds the own properties of the module variable \<^verbatim>\<open>frameworks\<close>, the
  backends by name in the order \<^verbatim>\<open>for (name in frameworks)\<close> visits them;
  \<open>instanceMap\<close> holds the own properties of the module constant \<^verbatim>\<open>instanceMap\<close>, the
  records by id. Both are plain objects (\<^verbatim>\<open>const instanceMap = {}\<close>,
  \<^verbatim>\<open>frameworks = config.frameworks || {}\<close>), so a read with a name that the object does
  not own finds what \<^verbatim>\<open>Object.prototype\<close> has under that name. \<open>heap\<close> is the store.
\<close>

record state =
  frameworks :: "(jsstring \<times> framework) list"
  instanceMap :: "jsstring \<rightharpoonup> object"
  calls :: "event list"
  heap :: heap

definition logCall :: "event \<Rightarrow> state \<Rightarrow> state" where
  "logCall ev s = s\<lparr>calls := calls s @ [ev]\<rparr>"

text \<open>\<^verbatim>\<open>instanceMap[id]\<close>: the record stored under the id, else the inherited value.\<close>

definition lookupInstance :: "state \<Rightarrow> jsstring \<Rightarrow> jsval option" where
  "lookupInstance s id' =
     (case instanceMap s id' of
        Some info \<Rightarrow> Some (JObj info)
      | None \<Rightarrow> Object_prototype id')"

text \<open>
  \<^verbatim>\<open>frameworks[v]\<close> for a value \<open>v\<close>: the backend registered under the key that \<open>v\<close>
  converts to, else the inherited value, a built-in function or object. What such a
  value has under a method name is left to the host (\<open>builtin\<close>); the standard ones
  have no property with the name of a method that this program calls on a backend.
\<close>

definition frameworkKey :: "env \<Rightarrow> jsval \<Rightarrow> jsstring" where
  "frameworkKey env v = toString (numberToString env) v"

definition lookupFramework :: "env \<Rightarrow> state \<Rightarrow> jsval \<Rightarrow> framework option" where
  "lookupFramework env s v =
     (case map_of (frameworks s) (frameworkKey env v) of
        Some fw \<Rightarrow> Some fw
      | None \<Rightarrow>
          (case Object_prototype (frameworkKey env v) of
             Some _ \<Rightarrow> Some (builtin env (frameworkKey env v))
           | None \<Rightarrow> None))"

text \<open>\<^verbatim>\<open>frameworks[v][methodName](...args)\<close>\<close>

definition callFramework :: "env \<Rightarrow> jsval \<Rightarrow> string \<Rightarrow> jsval list \<Rightarrow> state \<Rightarrow> result \<times> state" where
  "callFramework env v methodName args s =
     (case lookupFramework env s v of
        None \<Rightarrow> (Inl TypeError, s)
      | Some fw \<Rightarrow>
          (case fw methodName of
             None \<Rightarrow> (Inl TypeError, s)
           | Some f \<Rightarrow> (f args, logCall (FrameworkCall (frameworkKey env v) methodName args) s)))"

text \<open>\<^verbatim>\<open>new Error(`invalid instance id "${id}"`)\<close>\<close>

definition invalidInstanceId :: "jsstring \<Rightarrow> jsval" where
  "invalidInstanceId id' = JErr (js ''invalid instance id '' @ [0x22] @ id' @ [0x22])"

section \<open>\<^verbatim>\<open>checkVersion\<close>\<close>

text \<open>
  \<^verbatim>\<open>function checkVersion (code) {
    let info
    const result = versionRegExp.exec(code)
    if (result) {
      try { info = JSON.parse(result[1]) } catch (e) {}
    }
    return info
  }\<close>

  \<open>None\<close> is the result \<^verbatim>\<open>undefined\<close>. Group 1 starts with a brace, so what
  \<^verbatim>\<open>JSON.parse\<close> returns for it is an object (lemma \<open>checkVersion_object\<close>).
\<close>

definition checkVersion :: "env \<Rightarrow> jsstring \<Rightarrow> object option" where
  "checkVersion env code =
     (case versionRegExp_exec code of
        None \<Rightarrow> None
      | Some group1 \<Rightarrow>
          (case JSON_parse (parseNumber env) group1 of
             Some (JObj ob) \<Rightarrow> Some ob
           | _ \<Rightarrow> None))"

section \<open>\<^verbatim>\<open>createInstance\<close>\<close>

text \<open>
  \<^verbatim>\<open>JSON.stringify\<close> has no text for \<^verbatim>\<open>undefined\<close> and for a function: it leaves out a
  property with such a value and writes \<^verbatim>\<open>null\<close> for such an array element.
\<close>

definition isFunction :: "jsval \<Rightarrow> bool" where
  "isFunction v = (case v of JFun _ \<Rightarrow> True | _ \<Rightarrow> False)"

definition omitted :: "jsval \<Rightarrow> bool" where
  "omitted v = (v = JUndefined \<or> isFunction v)"

text \<open>
  \<open>jsonValue v\<close> is the content of \<^verbatim>\<open>JSON.parse(JSON.stringify(v))\<close> for a value \<open>v\<close>
  that is not left out: a number that is not finite becomes \<^verbatim>\<open>null\<close>, negative zero
  becomes zero, an \<^verbatim>\<open>Error\<close> has no enumerable property. The program applies it to
  \<^verbatim>\<open>x || {}\<close> for values \<open>x\<close> of the store: to data that is not \<^verbatim>\<open>undefined\<close>.
\<close>

fun jsonValue :: "jsval \<Rightarrow> jsval" where
  "jsonValue JUndefined = JUndefined"
| "jsonValue JNull = JNull"
| "jsonValue (JBool b) = JBool b"
| "jsonValue (JNum d) = (if isFinite d then JNum (if isZero d then 0 else d) else JNull)"
| "jsonValue (JStr s) = JStr s"
| "jsonValue (JArr vs) = JArr (map (\<lambda>v. if omitted v then JNull else jsonValue v) vs)"
| "jsonValue (JObj ob) =
     JObj (map (\<lambda>(k, v). (k, jsonValue v)) (filter (\<lambda>(k, v). \<not> omitted v) ob))"
| "jsonValue (JErr m) = JObj []"
| "jsonValue (JFun name) = JUndefined"

definition jsonObject :: "object \<Rightarrow> object" where
  "jsonObject ob = map (\<lambda>(k, v). (k, jsonValue v)) (filter (\<lambda>(k, v). \<not> omitted v) ob)"

text \<open>
  What \<^verbatim>\<open>JSON.stringify(global.WXEnvironment || {})\<close> reads: the content of
  \<^verbatim>\<open>WXEnvironment\<close> when it is truthy, which an object always is.
\<close>

definition truthyValue :: "hval \<Rightarrow> bool" where
  "truthyValue v =
     (case v of
        HUndefined \<Rightarrow> False
      | HNull \<Rightarrow> False
      | HBool b \<Rightarrow> b
      | HNum d \<Rightarrow> truthy (JNum d)
      | HStr s \<Rightarrow> truthy (JStr s)
      | HRef a \<Rightarrow> True)"

definition environmentContent :: "env \<Rightarrow> heap \<Rightarrow> jsval option" where
  "environmentContent env h =
     (if truthyValue (WXEnvironment env) then readValue h [] (WXEnvironment env) else Some (JObj []))"

text \<open>
  \<^verbatim>\<open>config = JSON.parse(JSON.stringify(config || {}))
  config.bundleVersion = info.version
  config.env = JSON.parse(JSON.stringify(global.WXEnvironment || {}))\<close>

  on the store. \<open>h\<close> is the store, \<open>config\<close> the address of the caller's object and
  \<open>version\<close> the value of \<^verbatim>\<open>info.version\<close>, which is stored as it is: when it is an array,
  the array of the record. \<^verbatim>\<open>JSON.stringify\<close> throws a \<^verbatim>\<open>TypeError\<close> on a cyclic
  structure, and so does the assignment to a property of a value that is not an object.
  The result is the exception or the address of the new configuration, and the store.
\<close>

definition snapshotConfig ::
  "env \<Rightarrow> heap \<Rightarrow> addr option \<Rightarrow> hval \<Rightarrow> (thrown + addr) \<times> heap"
where
  "snapshotConfig env h config version =
     (case callerContent h config of
        None \<Rightarrow> (Inl TypeError, h)
      | Some content \<Rightarrow>
          (case allocate h (jsonValue content) of
             (h1, HRef c) \<Rightarrow>
               (let h2 = setField h1 c ''bundleVersion'' version
                in case environmentContent env h2 of
                     None \<Rightarrow> (Inl TypeError, h2)
                   | Some wx \<Rightarrow>
                       (case allocate h2 (jsonValue wx) of
                          (h3, e) \<Rightarrow> (Inr c, setField h3 c ''env'' e)))
           | (h1, _) \<Rightarrow> (Inl TypeError, h1)))"

text \<open>
  The content of the configuration that these three lines build, when none of them
  throws, from a caller's object with content \<open>config\<close>, the record \<open>info\<close> and a
  \<^verbatim>\<open>WXEnvironment || {}\<close> with content \<open>wx\<close>.
\<close>

definition initConfig :: "jsval \<Rightarrow> object option \<Rightarrow> object \<Rightarrow> object" where
  "initConfig wx config info =
     (let config1 = jsonObject (case config of None \<Rightarrow> [] | Some ob \<Rightarrow> ob);
          config2 = setProp config1 ''bundleVersion'' (getProp info ''version'')
      in setProp config2 ''env'' (jsonValue wx))"

text \<open>
  \<^verbatim>\<open>Object.assign(target, source)\<close>: the own enumerable properties of the source, in order;
  an array and a string have their indices, other primitives and \<^verbatim>\<open>Error\<close> have none.
\<close>

function decimal :: "nat \<Rightarrow> jsstring" where
  "decimal n = (if n < 10 then [0x30 + of_nat n] else decimal (n div 10) @ [0x30 + of_nat (n mod 10)])"
  by pat_completeness auto
termination
  by (relation "measure id") auto

definition ownProperties :: "jsval \<Rightarrow> object" where
  "ownProperties v =
     (case v of
        JObj ob \<Rightarrow> ob
      | JArr vs \<Rightarrow> zip (map decimal [0..<length vs]) vs
      | JStr s \<Rightarrow> zip (map decimal [0..<length s]) (map (\<lambda>c. JStr [c]) s)
      | _ \<Rightarrow> [])"

definition Object_assign :: "object \<Rightarrow> jsval \<Rightarrow> object" where
  "Object_assign target source = foldl (\<lambda>ob (k, v). AList.update k v ob) target (ownProperties source)"

text \<open>
  \<^verbatim>\<open>services.forEach(service => {
    const create = service.options.create
    if (create) {
      const result = create(id, { info, runtime: runtimeConfig }, config)
      Object.assign(serviceObjects, result)
    }
  })\<close>

  \<open>i\<close> is the index of the first service of the list; an exception ends the loop.
\<close>

fun createServices ::
  "jsval list \<Rightarrow> nat \<Rightarrow> service list \<Rightarrow> object \<Rightarrow> state \<Rightarrow> (thrown + object) \<times> state"
where
  "createServices args i [] serviceObjects s = (Inr serviceObjects, s)"
| "createServices args i (svc # svcs) serviceObjects s =
     (case create svc of
        None \<Rightarrow> createServices args (Suc i) svcs serviceObjects s
      | Some f \<Rightarrow>
          (case f args of
             Inl e \<Rightarrow> (Inl e, logCall (ServiceCall i ''create'' args) s)
           | Inr result \<Rightarrow>
               createServices args (Suc i) svcs (Object_assign serviceObjects result)
                 (logCall (ServiceCall i ''create'' args) s)))"

text \<open>\<^verbatim>\<open>{ info, runtime: runtimeConfig }\<close>\<close>

definition instanceContext :: "env \<Rightarrow> jsval \<Rightarrow> jsval" where
  "instanceContext env info = JObj [(js ''info'', info), (js ''runtime'', runtimeConfig env)]"

text \<open>
  \<^verbatim>\<open>function createInstance (id, code, config, data) {
    let info = instanceMap[id]
    if (!info) {
      info = checkVersion(code) || {}
      if (!frameworks[info.framework]) {
        info.framework = 'Weex'
      }
      info.created = Date.now()
      instanceMap[id] = info
      ... config, services ...
      return frameworks[info.framework].createInstance(id, code, config, data, serviceObjects)
    }
    return new Error(`invalid instance id "${id}"`)
  }\<close>

  \<open>newInfo\<close> is the content of the record after the first three statements of the
  branch. The record itself is made of new objects, by \<^verbatim>\<open>JSON.parse\<close> in \<^verbatim>\<open>checkVersion\<close>
  or by the literal \<^verbatim>\<open>{}\<close>; the two assignments write a string and a number into it. The
  registry keeps the content of the record and the store its cells. The configuration is
  handed to the collaborators as the object at its address in the store, of which they
  see the content; \<open>data\<close> is handed through as it is.
\<close>

definition newInfo :: "env \<Rightarrow> state \<Rightarrow> jsstring \<Rightarrow> object" where
  "newInfo env s code =
     (let info = (case checkVersion env code of Some ob \<Rightarrow> ob | None \<Rightarrow> []);
          info1 = (case lookupFramework env s (getProp info ''framework'') of
                     None \<Rightarrow> setProp info ''framework'' (JStr (js ''Weex''))
                   | Some _ \<Rightarrow> info)
      in setProp info1 ''created'' (JNum (now env)))"

definition createInstance ::
  "env \<Rightarrow> jsstring \<Rightarrow> jsstring \<Rightarrow> addr option \<Rightarrow> jsval \<Rightarrow> state \<Rightarrow> result \<times> state"
where
  "createInstance env id' code config data s =
     (case lookupInstance s id' of
        Some _ \<Rightarrow> (Inr (invalidInstanceId id'), s)
      | None \<Rightarrow>
          (let info = newInfo env s code;
               (h1, infoRef) = allocate (heap s) (JObj info);
               s1 = s\<lparr>instanceMap := (instanceMap s)(id' \<mapsto> info)\<rparr>
           in case snapshotConfig env h1 config (getField h1 infoRef ''version'') of
                (Inl e, h2) \<Rightarrow> (Inl e, s1\<lparr>heap := h2\<rparr>)
              | (Inr c, h2) \<Rightarrow>
                  (case createServices [JStr id', instanceContext env (JObj info), contentAt h2 c] 0
                          (services env) [] (s1\<lparr>heap := h2\<rparr>) of
                     (Inl e, s2) \<Rightarrow> (Inl e, s2)
                   | (Inr serviceObjects, s2) \<Rightarrow>
                       callFramework env (getProp info ''framework'') ''createInstance''
                         [JStr id', JStr code, contentAt h2 c, data, JObj serviceObjects] s2)))"

section \<open>\<^verbatim>\<open>genInit\<close> and \<^verbatim>\<open>checkComponentMethods\<close>\<close>

text \<open>
  \<^verbatim>\<open>function checkComponentMethods (components) {
    if (Array.isArray(components)) {
      components.forEach((name) => {
        if (name && name.type && name.methods) {
          registerElement(name.type, name.methods)
        }
      })
    }
  }\<close>
\<close>

definition hasTypeAndMethods :: "jsval \<Rightarrow> bool" where
  "hasTypeAndMethods name =
     (truthy name \<and> truthy (getValueProp name ''type'') \<and> truthy (getValueProp name ''methods''))"

definition registerElementArgs :: "jsval \<Rightarrow> jsval list" where
  "registerElementArgs name = [getValueProp name ''type'', getValueProp name ''methods'']"

fun registerEach :: "env \<Rightarrow> jsval list \<Rightarrow> state \<Rightarrow> thrown option \<times> state" where
  "registerEach env [] s = (None, s)"
| "registerEach env (name # names) s =
     (if hasTypeAndMethods name then
        (case registerElement env (registerElementArgs name) of
           Inl e \<Rightarrow> (Some e, logCall (ElementCall (registerElementArgs name)) s)
         | Inr _ \<Rightarrow> registerEach env names (logCall (ElementCall (registerElementArgs name)) s))
      else registerEach env names s)"

definition checkComponentMethods :: "env \<Rightarrow> jsval \<Rightarrow> state \<Rightarrow> thrown option \<times> state" where
  "checkComponentMethods env components s =
     (case components of
        JArr names \<Rightarrow> registerEach env names s
      | _ \<Rightarrow> (None, s))"

text \<open>
  \<^verbatim>\<open>for (const name in frameworks) {
    const framework = frameworks[name]
    if (framework && framework[methodName]) {
      framework[methodName](...args)
    }
  }\<close>
\<close>

fun eachFramework :: "string \<Rightarrow> jsval list \<Rightarrow> jsstring list \<Rightarrow> state \<Rightarrow> thrown option \<times> state" where
  "eachFramework methodName args [] s = (None, s)"
| "eachFramework methodName args (name # names) s =
     (case map_of (frameworks s) name of
        None \<Rightarrow> eachFramework methodName args names s
      | Some fw \<Rightarrow>
          (case fw methodName of
             None \<Rightarrow> eachFramework methodName args names s
           | Some f \<Rightarrow>
               (case f args of
                  Inl e \<Rightarrow> (Some e, logCall (FrameworkCall name methodName args) s)
                | Inr _ \<Rightarrow>
                    eachFramework methodName args names
                      (logCall (FrameworkCall name methodName args) s))))"

text \<open>\<^verbatim>\<open>args[0]\<close>\<close>

definition firstArg :: "jsval list \<Rightarrow> jsval" where
  "firstArg args = (case args of [] \<Rightarrow> JUndefined | a # _ \<Rightarrow> a)"

text \<open>
  \<open>genInit methodName\<close> is the function that \<^verbatim>\<open>genInit(methodName)\<close> stores in
  \<^verbatim>\<open>methods[methodName]\<close>. It returns \<^verbatim>\<open>undefined\<close>.
\<close>

definition genInit :: "string \<Rightarrow> env \<Rightarrow> jsval list \<Rightarrow> state \<Rightarrow> result \<times> state" where
  "genInit methodName env args s =
     (case (if methodName = ''registerComponents''
            then checkComponentMethods env (firstArg args) s
            else (None, s)) of
        (Some e, s1) \<Rightarrow> (Inl e, s1)
      | (None, s1) \<Rightarrow>
          (case eachFramework methodName args (map fst (frameworks s1)) s1 of
             (Some e, s2) \<Rightarrow> (Inl e, s2)
           | (None, s2) \<Rightarrow> (Inr JUndefined, s2)))"

section \<open>\<^verbatim>\<open>genInstance\<close> and \<^verbatim>\<open>adaptInstance\<close>\<close>

text \<open>
  \<^verbatim>\<open>services.forEach(service => {
    const refresh = service.options.refresh
    if (refresh) {
      refresh(id, { info, runtime: runtimeConfig })
    }
  })\<close>

  and the same loop for \<^verbatim>\<open>destroy\<close>; \<open>hook\<close> selects the option, \<open>hookName\<close> names it
  in the record of calls.
\<close>

fun eachService ::
  "(service \<Rightarrow> extfun option) \<Rightarrow> string \<Rightarrow> jsval list \<Rightarrow> nat \<Rightarrow> service list \<Rightarrow> state
   \<Rightarrow> thrown option \<times> state"
where
  "eachService hook hookName args i [] s = (None, s)"
| "eachService hook hookName args i (svc # svcs) s =
     (case hook svc of
        None \<Rightarrow> eachService hook hookName args (Suc i) svcs s
      | Some f \<Rightarrow>
          (case f args of
             Inl e \<Rightarrow> (Some e, logCall (ServiceCall i hookName args) s)
           | Inr _ \<Rightarrow>
               eachService hook hookName args (Suc i) svcs
                 (logCall (ServiceCall i hookName args) s)))"

text \<open>
  \<open>genInstance methodName\<close> is the function that \<^verbatim>\<open>genInstance(methodName)\<close> stores in
  \<^verbatim>\<open>methods[methodName]\<close>; the instance id is its first argument, \<open>rest\<close> are the others.

  \<^verbatim>\<open>const id = args[0]
  const info = instanceMap[id]
  if (info && frameworks[info.framework]) {
    const result = frameworks[info.framework][methodName](...args)
    if (methodName === 'refreshInstance') { ... refresh hooks ... }
    else if (methodName === 'destroyInstance') { ... destroy hooks ...
      delete instanceMap[id]
    }
    return result
  }
  return new Error(`invalid instance id "${id}"`)\<close>
\<close>

definition genInstance :: "string \<Rightarrow> env \<Rightarrow> jsstring \<Rightarrow> jsval list \<Rightarrow> state \<Rightarrow> result \<times> state" where
  "genInstance methodName env id' rest s =
     (case lookupInstance s id' of
        None \<Rightarrow> (Inr (invalidInstanceId id'), s)
      | Some info \<Rightarrow>
          (case lookupFramework env s (getValueProp info ''framework'') of
             None \<Rightarrow> (Inr (invalidInstanceId id'), s)
           | Some _ \<Rightarrow>
               (case callFramework env (getValueProp info ''framework'') methodName (JStr id' # rest) s of
                  (Inl e, s1) \<Rightarrow> (Inl e, s1)
                | (Inr result, s1) \<Rightarrow>
                    if methodName = ''refreshInstance'' then
                      (case eachService refresh ''refresh'' [JStr id', instanceContext env info] 0
                              (services env) s1 of
                         (Some e, s2) \<Rightarrow> (Inl e, s2)
                       | (None, s2) \<Rightarrow> (Inr result, s2))
                    else if methodName = ''destroyInstance'' then
                      (case eachService destroy ''destroy'' [JStr id', instanceContext env info] 0
                              (services env) s1 of
                         (Some e, s2) \<Rightarrow> (Inl e, s2)
                       | (None, s2) \<Rightarrow>
                           (Inr result, s2\<lparr>instanceMap := (instanceMap s2)(id' := None)\<rparr>))
                    else (Inr result, s1))))"

text \<open>
  \<open>adaptInstance methodName\<close> is the function that
  \<^verbatim>\<open>adaptInstance(methodName, nativeMethodName)\<close> stores in \<^verbatim>\<open>methods[nativeMethodName]\<close>.
\<close>

definition adaptInstance :: "string \<Rightarrow> env \<Rightarrow> jsstring \<Rightarrow> jsval list \<Rightarrow> state \<Rightarrow> result \<times> state" where
  "adaptInstance methodName env id' rest s =
     (case lookupInstance s id' of
        None \<Rightarrow> (Inr (invalidInstanceId id'), s)
      | Some info \<Rightarrow>
          (case lookupFramework env s (getValueProp info ''framework'') of
             None \<Rightarrow> (Inr (invalidInstanceId id'), s)
           | Some _ \<Rightarrow>
               callFramework env (getValueProp info ''framework'') methodName (JStr id' # rest) s))"

text \<open>
  The indices, in registration order, of the services that have the hook: the services
  that \<open>eachService\<close> calls.
\<close>

definition hookIndices :: "(service \<Rightarrow> extfun option) \<Rightarrow> service list \<Rightarrow> nat list" where
  "hookIndices hook svcs = filter (\<lambda>i. case hook (svcs ! i) of None \<Rightarrow> False | Some _ \<Rightarrow> True) [0..<length svcs]"

section \<open>\<^verbatim>\<open>init\<close>\<close>

text \<open>
  \<^verbatim>\<open>frameworks = config.frameworks || {}
  for (const name in frameworks) {
    const framework = frameworks[name]
    framework.init(config)
  }\<close>
\<close>

fun initEach :: "jsval list \<Rightarrow> jsstring list \<Rightarrow> state \<Rightarrow> thrown option \<times> state" where
  "initEach args [] s = (None, s)"
| "initEach args (name # names) s =
     (case map_of (frameworks s) name of
        None \<Rightarrow> (Some TypeError, s)
      | Some fw \<Rightarrow>
          (case fw ''init'' of
             None \<Rightarrow> (Some TypeError, s)
           | Some f \<Rightarrow>
               (case f args of
                  Inl e \<Rightarrow> (Some e, logCall (FrameworkCall name ''init'' args) s)
                | Inr _ \<Rightarrow> initEach args names (logCall (FrameworkCall name ''init'' args) s))))"

text \<open>
  The public method table that \<^verbatim>\<open>init\<close> returns:

  \<^verbatim>\<open>const methods = { createInstance }
  ['registerComponents', 'registerModules', 'registerMethods'].forEach(genInit)
  ['destroyInstance', 'refreshInstance', 'receiveTasks', 'getRoot'].forEach(genInstance)
  adaptInstance('receiveTasks', 'callJS')\<close>
\<close>

datatype entry =
    CreateMethod "env \<Rightarrow> jsstring \<Rightarrow> jsstring \<Rightarrow> addr option \<Rightarrow> jsval \<Rightarrow> state \<Rightarrow> result \<times> state"
  | GlobalMethod "env \<Rightarrow> jsval list \<Rightarrow> state \<Rightarrow> result \<times> state"
  | InstanceMethod "env \<Rightarrow> jsstring \<Rightarrow> jsval list \<Rightarrow> state \<Rightarrow> result \<times> state"

definition methods :: "(string \<times> entry) list" where
  "methods =
     [(''createInstance'', CreateMethod createInstance)]
     @ map (\<lambda>methodName. (methodName, GlobalMethod (genInit methodName)))
         [''registerComponents'', ''registerModules'', ''registerMethods'']
     @ map (\<lambda>methodName. (methodName, InstanceMethod (genInstance methodName)))
         [''destroyInstance'', ''refreshInstance'', ''receiveTasks'', ''getRoot'']
     @ [(''callJS'', InstanceMethod (adaptInstance ''receiveTasks''))]"

text \<open>
  \<open>init\<close> takes \<^verbatim>\<open>config.frameworks\<close> (\<open>None\<close> when it is missing) and \<^verbatim>\<open>config\<close> as the
  backends receive it. When no \<^verbatim>\<open>init\<close> of a backend throws, it returns \<open>methods\<close>.
\<close>

definition init ::
  "(jsstring \<times> framework) list option \<Rightarrow> jsval \<Rightarrow> state
   \<Rightarrow> (thrown + (string \<times> entry) list) \<times> state"
where
  "init config_frameworks config s =
     (let s1 = s\<lparr>frameworks := (case config_frameworks of None \<Rightarrow> [] | Some fws \<Rightarrow> fws)\<rparr>
      in case initEach [config] (map fst (frameworks s1)) s1 of
           (Some e, s2) \<Rightarrow> (Inl e, s2)
         | (None, s2) \<Rightarrow> (Inr methods, s2))"

section \<open>Vocabulary of the properties\<close>


text \<open>The backend registered under \<open>name\<close> has the method.\<close>

definition implements :: "state \<Rightarrow> string \<Rightarrow> jsstring \<Rightarrow> bool" where
  "implements s methodName name =
     (case map_of (frameworks s) name of
        None \<Rightarrow> False
      | Some fw \<Rightarrow> (case fw methodName of None \<Rightarrow> False | Some _ \<Rightarrow> True))"

text \<open>
  What the pattern \<^verbatim>\<open>/^\s*\/\/ *(\{[^}]*\}) *\r?\n/\<close> says, read off the pattern
  piece by piece: \<open>code\<close> has a prefix in the language of the pattern, and \<open>group1\<close> is
  the part of that prefix matched by the parentheses.
\<close>

definition versionRegExp_matches :: "jsstring \<Rightarrow> jsstring \<Rightarrow> bool" where
  "versionRegExp_matches code group1 =
     (\<exists>ws sp1 body sp2 nl rest.
        code = ws @ [0x2F, 0x2F] @ sp1 @ [0x7B] @ body @ [0x7D] @ sp2 @ nl @ rest
        \<and> (\<forall>c\<in>set ws. isWhiteSpace c)
        \<and> (\<forall>c\<in>set sp1. c = 0x20)
        \<and> (\<forall>c\<in>set body. c \<noteq> 0x7D)
        \<and> (\<forall>c\<in>set sp2. c = 0x20)
        \<and> (nl = [0x0A] \<or> nl = [0x0D, 0x0A])
        \<and> group1 = [0x7B] @ body @ [0x7D])"

text \<open>
  The invariant of the parser on a text that opens with a brace: the outermost open frame
  is an object, or the value read is one.
\<close>

definition objectAtBottom :: "pmode \<Rightarrow> frame list \<Rightarrow> bool" where
  "objectAtBottom m st =
     (case m of
        PDone v \<Rightarrow> (\<exists>ob. v = JObj ob)
      | _ \<Rightarrow> st \<noteq> [] \<and> (case last st of ArrF _ \<Rightarrow> False | _ \<Rightarrow> True))"

text \<open>The first line of a text: what stands before the first line feed.\<close>

definition firstLine :: "jsstring \<Rightarrow> jsstring" where
  "firstLine code = takeWhile (\<lambda>c. c \<noteq> 0x0A) code"

text \<open>
  The configuration that a call of \<^verbatim>\<open>createInstance\<close> hands over: the third argument of a
  service create hook and of the backend's \<^verbatim>\<open>createInstance\<close>.
\<close>

fun configOf :: "event \<Rightarrow> jsval option" where
  "configOf (ServiceCall i h (a # b # c # _)) = Some c"
| "configOf (FrameworkCall n m (a # b # c # _)) = Some c"
| "configOf _ = None"

text \<open>
  A value without \<^verbatim>\<open>Error\<close> objects and functions, as \<^verbatim>\<open>JSON.parse\<close> returns them:
  the store holds such a value as it is.
\<close>

fun noErr :: "jsval \<Rightarrow> bool" where
  "noErr (JErr _) = False"
| "noErr (JFun _) = False"
| "noErr (JArr vs) = (\<forall>v\<in>set vs. noErr v)"
| "noErr (JObj ob) = (\<forall>p\<in>set ob. noErr (snd p))"
| "noErr _ = True"

text \<open>The parser holds and returns such values.\<close>

definition framesNoErr :: "pmode \<Rightarrow> frame list \<Rightarrow> bool" where
  "framesNoErr m st =
     ((\<forall>f\<in>set st. case f of
                      ArrF vs \<Rightarrow> \<forall>v\<in>set vs. noErr v
                    | ObjF ob \<Rightarrow> \<forall>p\<in>set ob. noErr (snd p)
                    | ObjKeyF ob k \<Rightarrow> \<forall>p\<in>set ob. noErr (snd p))
      \<and> (case m of PDone v \<Rightarrow> noErr v | _ \<Rightarrow> True))"

section \<open>Example hosts\<close>

text \<open>Concrete collaborators and states on which the theorems below are exercised.\<close>

definition returning :: "jsval \<Rightarrow> extfun" where
  "returning v = (\<lambda>args. Inr v)"

definition throwing :: "jsval \<Rightarrow> extfun" where
  "throwing v = (\<lambda>args. Inl (Thrown v))"

text \<open>A backend that has every method; each returns its own name.\<close>

definition fullBackend :: framework where
  "fullBackend = (\<lambda>methodName. Some (returning (JStr (js methodName))))"

text \<open>A backend that has \<^verbatim>\<open>init\<close> and \<^verbatim>\<open>createInstance\<close> only.\<close>

definition bareBackend :: framework where
  "bareBackend =
     (\<lambda>methodName. if methodName = ''init'' \<or> methodName = ''createInstance''
                   then Some (returning JUndefined) else None)"

text \<open>A backend whose lifecycle methods throw.\<close>

definition failingBackend :: framework where
  "failingBackend =
     (\<lambda>methodName. if methodName = ''init'' \<or> methodName = ''createInstance''
                   then Some (returning JUndefined)
                   else Some (throwing (JErr (js ''backend failure''))))"

text \<open>A backend whose lifecycle methods return an \<^verbatim>\<open>Error\<close> value.\<close>

definition reportingBackend :: framework where
  "reportingBackend =
     (\<lambda>methodName. if methodName = ''init'' \<or> methodName = ''createInstance''
                   then Some (returning JUndefined)
                   else Some (returning (JErr (js ''backend failure''))))"

definition exampleServices :: "service list" where
  "exampleServices =
     [\<lparr>create = Some (returning (JObj [(js ''a'', JBool True)])),
       refresh = Some (returning JUndefined), destroy = None\<rparr>,
      \<lparr>create = None, refresh = None, destroy = Some (returning JUndefined)\<rparr>,
      \<lparr>create = Some (returning JUndefined), refresh = Some (returning JNull),
       destroy = Some (returning JNull)\<rparr>]"

definition exampleEnv :: env where
  "exampleEnv =
     \<lparr>services = exampleServices, runtimeConfig = JObj [], WXEnvironment = HUndefined,
      now = 0, registerElement = returning JUndefined,
      parseNumber = (\<lambda>_. 0), numberToString = (\<lambda>_. js ''0''),
      builtin = (\<lambda>name methodName. None)\<rparr>"

definition emptyState :: state where
  "emptyState = \<lparr>frameworks = [], instanceMap = Map.empty, calls = [], heap = []\<rparr>"

text \<open>The state after \<^verbatim>\<open>init\<close> with the given backends.\<close>

definition startState :: "(jsstring \<times> framework) list \<Rightarrow> state" where
  "startState fws = snd (init (Some fws) JNull emptyState)"

text \<open>The bundle header of the specification and a bundle without header.\<close>

definition raxHeader :: jsstring where
  "raxHeader =
     js ''// {'' @ quoted ''framework'' @ js '':'' @ quoted ''Rax'' @ js '','' @ quoted ''version''
     @ js '':'' @ quoted ''1.0'' @ js ''}'' @ [0x0A]"

definition plainBundle :: jsstring where
  "plainBundle = js ''var a = 1'' @ [0x0A]"

definition twoBackends :: "(jsstring \<times> framework) list" where
  "twoBackends = [(js ''Weex'', fullBackend), (js ''Rax'', fullBackend)]"

text \<open>Instance \<^verbatim>\<open>"1"\<close> created from the Rax bundle on two backends.\<close>

definition raxInstanceState :: state where
  "raxInstanceState =
     snd (createInstance exampleEnv (js ''1'') (raxHeader @ plainBundle) None JNull
            (startState twoBackends))"

text \<open>
  Instance \<^verbatim>\<open>"1"\<close> created while no backend is registered: the call ends in a
  \<^verbatim>\<open>TypeError\<close> after the record has been stored.
\<close>

definition orphanState :: state where
  "orphanState =
     snd (createInstance exampleEnv (js ''1'') plainBundle None JNull (startState []))"

text \<open>Instance \<^verbatim>\<open>"1"\<close> created from the bundle without header on a single backend.\<close>

definition instanceOn :: "framework \<Rightarrow> state" where
  "instanceOn fw =
     snd (createInstance exampleEnv (js ''1'') plainBundle None JNull (startState [(js ''Weex'', fw)]))"





text \<open>A JSON object with a closing brace inside a string, and a header that is not JSON.\<close>

definition braceObject :: jsstring where
  "braceObject = js ''{'' @ quoted ''a'' @ js '':'' @ quoted ''}'' @ js ''}''"

definition malformedHeader :: jsstring where
  "malformedHeader = js ''// {'' @ quoted ''framework'' @ js '':Rax}'' @ [0x0A]"

definition undefinedNamed :: "(jsstring \<times> framework) list" where
  "undefinedNamed = [(js ''undefined'', fullBackend), (js ''Weex'', fullBackend)]"

definition weexOnly :: "(jsstring \<times> framework) list" where
  "weexOnly = [(js ''Weex'', fullBackend)]"

text \<open>A bundle header that declares a backend with the name of an inherited property.\<close>

definition constructorHeader :: jsstring where
  "constructorHeader =
     js ''// {'' @ quoted ''framework'' @ js '':'' @ quoted ''constructor'' @ js '','' @ quoted ''version''
     @ js '':'' @ quoted ''1.0'' @ js ''}'' @ [0x0A]"

text \<open>
  Instance \<^verbatim>\<open>"1"\<close> created from that bundle where only \<^verbatim>\<open>Weex\<close> is registered: the call
  ends in a \<^verbatim>\<open>TypeError\<close> after the record has been stored.
\<close>

definition strayState :: state where
  "strayState =
     snd (createInstance exampleEnv (js ''1'') (constructorHeader @ plainBundle) None JNull
            (startState weexOnly))"

text \<open>A store with the caller's configuration at address 1, which holds an array.\<close>

definition exampleHeap :: heap where
  "exampleHeap =
     [HArray [HNum 1, HStr (js ''x'')] [],
      HObject [(js ''list'', HRef 0), (js ''debug'', HBool True), (js ''skip'', HUndefined)]]"

text \<open>The state after \<^verbatim>\<open>init\<close> with two backends, on that store.\<close>

definition callerState :: state where
  "callerState = (startState twoBackends)\<lparr>heap := exampleHeap\<rparr>"

text \<open>
  The same store after \<^verbatim>\<open>createInstance\<close> on the Rax bundle with that configuration:
  the record at address 2, the new configuration at address 4.
\<close>

definition exampleSnapshot :: heap where
  "exampleSnapshot =
     exampleHeap
     @ [HObject [(js ''framework'', HStr (js ''Rax'')), (js ''version'', HStr (js ''1.0'')),
                 (js ''created'', HNum 0)],
        HArray [HNum 1, HStr (js ''x'')] [],
        HObject [(js ''list'', HRef 3), (js ''debug'', HBool True),
                 (js ''bundleVersion'', HStr (js ''1.0'')), (js ''env'', HRef 5)],
        HObject []]"

section \<open>Properties of the registry\<close>

lemma logCall_fields [simp]:
  "frameworks (logCall ev s) = frameworks s"
  "instanceMap (logCall ev s) = instanceMap s"
  "heap (logCall ev s) = heap s"
  "calls (logCall ev s) = calls s @ [ev]"
  by (simp_all add: logCall_def)

lemma lookupInstance_fields [simp]:
  "lookupInstance (logCall ev s) = lookupInstance s"
  "lookupInstance (s\<lparr>calls := c\<rparr>) = lookupInstance s"
  "lookupInstance (s\<lparr>heap := h\<rparr>) = lookupInstance s"
  by (simp_all add: lookupInstance_def fun_eq_iff)

lemma lookupFramework_fields [simp]:
  "lookupFramework env (logCall ev s) = lookupFramework env s"
  "lookupFramework env (s\<lparr>calls := c\<rparr>) = lookupFramework env s"
  "lookupFramework env (s\<lparr>heap := h\<rparr>) = lookupFramework env s"
  "lookupFramework env (s\<lparr>instanceMap := m\<rparr>) = lookupFramework env s"
  by (simp_all add: lookupFramework_def fun_eq_iff)

lemma lookupInstance_own [simp]:
  "instanceMap s id' = Some info \<Longrightarrow> lookupInstance s id' = Some (JObj info)"
  by (simp add: lookupInstance_def)

lemma getValueProp_object [simp]: "getValueProp (JObj ob) name = getProp ob name"
  by (simp add: getValueProp_def)

lemma callFramework_frame:
  "frameworks (snd (callFramework env v m args s)) = frameworks s"
  "instanceMap (snd (callFramework env v m args s)) = instanceMap s"
  "heap (snd (callFramework env v m args s)) = heap s"
  by (simp_all add: callFramework_def split: option.splits)

lemma createServices_frame:
  "frameworks (snd (createServices args i svcs so s)) = frameworks s
   \<and> instanceMap (snd (createServices args i svcs so s)) = instanceMap s
   \<and> heap (snd (createServices args i svcs so s)) = heap s"
  by (induction args i svcs so s rule: createServices.induct)
     (auto split: option.splits sum.splits)

lemma eachService_frame:
  "frameworks (snd (eachService hook n args i svcs s)) = frameworks s
   \<and> instanceMap (snd (eachService hook n args i svcs s)) = instanceMap s
   \<and> heap (snd (eachService hook n args i svcs s)) = heap s"
  by (induction hook n args i svcs s rule: eachService.induct)
     (auto split: option.splits sum.splits)

lemma initEach_frameworks:
  "frameworks (snd (initEach args names s)) = frameworks s"
  by (induction args names s rule: initEach.induct)
     (auto split: option.splits sum.splits)

lemma init_frameworks:
  "frameworks (snd (init cf config s)) = (case cf of None \<Rightarrow> [] | Some fws \<Rightarrow> fws)"
proof -
  let ?s1 = "s\<lparr>frameworks := (case cf of None \<Rightarrow> [] | Some fws \<Rightarrow> fws)\<rparr>"
  obtain r s2 where e: "initEach [config] (map fst (frameworks ?s1)) ?s1 = (r, s2)"
    by (cases "initEach [config] (map fst (frameworks ?s1)) ?s1")
  from initEach_frameworks [of "[config]" "map fst (frameworks ?s1)" ?s1] e
  have "frameworks s2 = frameworks ?s1" by simp
  with e show ?thesis
    by (cases r) (simp_all add: init_def Let_def)
qed

text \<open>
  What \<open>createInstance\<close> does for an id that \<^verbatim>\<open>instanceMap[id]\<close> does not find, in terms
  of the record, the store after the record has been made, and the outcome of the three
  lines that build the configuration.
\<close>

lemma createInstance_unfold:
  assumes "lookupInstance s id' = None"
    and "allocate (heap s) (JObj (newInfo env s code)) = (h1, infoRef)"
    and "snapshotConfig env h1 config (getField h1 infoRef ''version'') = (r, h2)"
  shows "createInstance env id' code config data s =
           (case r of
              Inl e \<Rightarrow> (Inl e, s\<lparr>instanceMap := (instanceMap s)(id' \<mapsto> newInfo env s code), heap := h2\<rparr>)
            | Inr c \<Rightarrow>
                (case createServices
                        [JStr id', instanceContext env (JObj (newInfo env s code)), contentAt h2 c] 0
                        (services env) []
                        (s\<lparr>instanceMap := (instanceMap s)(id' \<mapsto> newInfo env s code), heap := h2\<rparr>) of
                   (Inl e, s2) \<Rightarrow> (Inl e, s2)
                 | (Inr serviceObjects, s2) \<Rightarrow>
                     callFramework env (getProp (newInfo env s code) ''framework'') ''createInstance''
                       [JStr id', JStr code, contentAt h2 c, data, JObj serviceObjects] s2))"
  using assms by (simp add: createInstance_def Let_def split: sum.splits)

lemma createInstance_frameworks:
  "frameworks (snd (createInstance env id' code config data s)) = frameworks s"
proof (cases "lookupInstance s id'")
  case None
  obtain h1 infoRef where a: "allocate (heap s) (JObj (newInfo env s code)) = (h1, infoRef)"
    by (cases "allocate (heap s) (JObj (newInfo env s code))")
  obtain r h2 where b: "snapshotConfig env h1 config (getField h1 infoRef ''version'') = (r, h2)"
    by (cases "snapshotConfig env h1 config (getField h1 infoRef ''version'')")
  show ?thesis
  proof (cases r)
    case (Inl e)
    then show ?thesis by (simp add: createInstance_unfold [OF None a b])
  next
    case (Inr c)
    let ?s1 = "s\<lparr>instanceMap := (instanceMap s)(id' \<mapsto> newInfo env s code), heap := h2\<rparr>"
    let ?args = "[JStr id', instanceContext env (JObj (newInfo env s code)), contentAt h2 c]"
    have "frameworks (snd (createServices ?args 0 (services env) [] ?s1)) = frameworks s"
      using createServices_frame [of ?args 0 "services env" "[]" ?s1] by simp
    with Inr show ?thesis
      by (auto simp: createInstance_unfold [OF None a b] callFramework_frame
            split: prod.splits sum.splits)
  qed
next
  case (Some a)
  then show ?thesis by (simp add: createInstance_def)
qed

lemma startState_frameworks: "frameworks (startState fws) = fws"
  by (simp add: startState_def init_frameworks)

lemma methods_instance:
  assumes "map_of methods name = Some (InstanceMethod f)"
  shows "f = genInstance name \<or> f = adaptInstance ''receiveTasks''"
  using map_of_SomeD [OF assms] by (auto simp: methods_def)

text \<open>
  C2. When \<^verbatim>\<open>createInstance\<close> is called with an id that already has a record in the
  registry, it returns (does not throw) the error value \<^verbatim>\<open>invalid instance id "id"\<close> and
  leaves the whole state as it was: the existing record and every other record are
  unchanged, and no backend method and no service hook is called.
\<close>

theorem createInstance_duplicate:
  assumes "instanceMap s id' = Some info"
  shows "createInstance env id' code config data s = (Inr (invalidInstanceId id'), s)"
  using assms by (simp add: createInstance_def)

theorem createInstance_duplicate_witness:
  "instanceMap raxInstanceState (js ''1'')
     = Some [(js ''framework'', JStr (js ''Rax'')), (js ''version'', JStr (js ''1.0'')),
             (js ''created'', JNum 0)]
   \<and> createInstance exampleEnv (js ''1'') (raxHeader @ plainBundle) None JNull raxInstanceState
       = (Inr (invalidInstanceId (js ''1'')), raxInstanceState)"
proof -
  have h: "instanceMap raxInstanceState (js ''1'')
     = Some [(js ''framework'', JStr (js ''Rax'')), (js ''version'', JStr (js ''1.0'')),
             (js ''created'', JNum 0)]"
    by code_simp
  from h createInstance_duplicate [OF h] show ?thesis by blast
qed

lemma hookIndices_Nil [simp]: "hookIndices hook [] = []"
  by (simp add: hookIndices_def)

lemma hookIndices_Cons:
  "hookIndices hook (svc # svcs) =
     (case hook svc of None \<Rightarrow> [] | Some _ \<Rightarrow> [0]) @ map Suc (hookIndices hook svcs)"
proof -
  have "[0..<length (svc # svcs)] = 0 # map Suc [0..<length svcs]"
    by (simp add: upt_conv_Cons map_Suc_upt del: upt_Suc)
  then show ?thesis
    by (simp add: hookIndices_def filter_map comp_def split: option.splits del: upt_Suc)
qed

lemma eachService_returns:
  assumes "\<forall>svc\<in>set svcs. \<forall>h. hook svc = Some h \<longrightarrow> (\<exists>r. h args = Inr r)"
  shows "eachService hook n args i svcs s =
           (None, s\<lparr>calls := calls s @ map (\<lambda>k. ServiceCall (i + k) n args) (hookIndices hook svcs)\<rparr>)"
  using assms
proof (induction svcs arbitrary: i s)
  case Nil
  then show ?case by simp
next
  case (Cons svc svcs)
  show ?case
  proof (cases "hook svc")
    case None
    with Cons show ?thesis
      by (simp add: hookIndices_Cons comp_def)
  next
    case (Some h)
    with Cons.prems obtain r where "h args = Inr r" by auto
    with Some Cons show ?thesis
      by (simp add: hookIndices_Cons comp_def logCall_def)
  qed
qed

text \<open>
  The instance-routed entries on an id that \<^verbatim>\<open>instanceMap[id]\<close> does not find, and on a
  record whose backend \<^verbatim>\<open>frameworks[info.framework]\<close> does not find.
\<close>

lemma routed_unknown_id:
  assumes "lookupInstance s id' = None" and "map_of methods name = Some (InstanceMethod f)"
  shows "f env id' rest s = (Inr (invalidInstanceId id'), s)"
  using assms by (auto dest!: methods_instance simp: genInstance_def adaptInstance_def)

lemma routed_unknown_backend:
  assumes "instanceMap s id' = Some info"
    and "lookupFramework env s (getProp info ''framework'') = None"
    and "map_of methods name = Some (InstanceMethod f)"
  shows "f env id' rest s = (Inr (invalidInstanceId id'), s)"
  using assms by (auto dest!: methods_instance simp: genInstance_def adaptInstance_def)

lemma genInstance_backend_absent:
  assumes "instanceMap s id' = Some info"
    and "lookupFramework env s (getProp info ''framework'') = Some fw"
    and "fw m = None"
  shows "genInstance m env id' rest s = (Inl TypeError, s)"
  using assms by (simp add: genInstance_def callFramework_def)

lemma genInstance_backend_throws:
  assumes "instanceMap s id' = Some info"
    and "lookupFramework env s (getProp info ''framework'') = Some fw"
    and "fw m = Some f" and "f (JStr id' # rest) = Inl e"
  shows "genInstance m env id' rest s =
           (Inl e, logCall (FrameworkCall (frameworkKey env (getProp info ''framework'')) m (JStr id' # rest)) s)"
  using assms by (simp add: genInstance_def callFramework_def)

lemma genInstance_refresh_returns:
  assumes "instanceMap s id' = Some info"
    and "lookupFramework env s (getProp info ''framework'') = Some fw"
    and "fw ''refreshInstance'' = Some f" and "f (JStr id' # rest) = Inr v"
    and "\<forall>svc\<in>set (services env). \<forall>h. refresh svc = Some h \<longrightarrow>
           (\<exists>r. h [JStr id', instanceContext env (JObj info)] = Inr r)"
  shows "genInstance ''refreshInstance'' env id' rest s =
           (Inr v, s\<lparr>calls := calls s
              @ FrameworkCall (frameworkKey env (getProp info ''framework'')) ''refreshInstance'' (JStr id' # rest)
              # map (\<lambda>i. ServiceCall i ''refresh'' [JStr id', instanceContext env (JObj info)])
                  (hookIndices refresh (services env))\<rparr>)"
  using assms(1-4)
  by (simp add: genInstance_def callFramework_def eachService_returns [OF assms(5)] logCall_def)

lemma genInstance_destroy_returns:
  assumes "instanceMap s id' = Some info"
    and "lookupFramework env s (getProp info ''framework'') = Some fw"
    and "fw ''destroyInstance'' = Some f" and "f (JStr id' # rest) = Inr v"
    and "\<forall>svc\<in>set (services env). \<forall>h. destroy svc = Some h \<longrightarrow>
           (\<exists>r. h [JStr id', instanceContext env (JObj info)] = Inr r)"
  shows "genInstance ''destroyInstance'' env id' rest s =
           (Inr v, s\<lparr>calls := calls s
              @ FrameworkCall (frameworkKey env (getProp info ''framework'')) ''destroyInstance'' (JStr id' # rest)
              # map (\<lambda>i. ServiceCall i ''destroy'' [JStr id', instanceContext env (JObj info)])
                  (hookIndices destroy (services env)),
              instanceMap := (instanceMap s)(id' := None)\<rparr>)"
  using assms(1-4)
  by (simp add: genInstance_def callFramework_def eachService_returns [OF assms(5)] logCall_def)

text \<open>
  The ids of the registry. \<^verbatim>\<open>createInstance\<close> stores a record only under the id of the
  call, and only when \<^verbatim>\<open>instanceMap[id]\<close> finds nothing: not under the name of a property
  of \<^verbatim>\<open>Object.prototype\<close>. The routed entries store no record.
\<close>

lemma createInstance_stores:
  assumes "instanceMap (snd (createInstance env id' code config data s)) i = Some info"
    and "instanceMap s i = None"
  shows "i = id' \<and> Object_prototype i = None"
proof (cases "lookupInstance s id'")
  case (Some a)
  with assms show ?thesis by (simp add: createInstance_def)
next
  case None
  then have own: "Object_prototype id' = None"
    by (simp add: lookupInstance_def split: option.splits)
  obtain h1 infoRef where a: "allocate (heap s) (JObj (newInfo env s code)) = (h1, infoRef)"
    by (cases "allocate (heap s) (JObj (newInfo env s code))")
  obtain r h2 where b: "snapshotConfig env h1 config (getField h1 infoRef ''version'') = (r, h2)"
    by (cases "snapshotConfig env h1 config (getField h1 infoRef ''version'')")
  let ?s1 = "s\<lparr>instanceMap := (instanceMap s)(id' \<mapsto> newInfo env s code), heap := h2\<rparr>"
  have "instanceMap (snd (createInstance env id' code config data s)) = instanceMap ?s1"
  proof (cases r)
    case (Inl e)
    then show ?thesis by (simp add: createInstance_unfold [OF None a b])
  next
    case (Inr c)
    let ?args = "[JStr id', instanceContext env (JObj (newInfo env s code)), contentAt h2 c]"
    have "instanceMap (snd (createServices ?args 0 (services env) [] ?s1)) = instanceMap ?s1"
      using createServices_frame [of ?args 0 "services env" "[]" ?s1] by blast
    with Inr show ?thesis
      by (auto simp: createInstance_unfold [OF None a b] callFramework_frame
            split: prod.splits sum.splits)
  qed
  with assms own show ?thesis by (auto split: if_splits)
qed

lemma routed_stores_nothing:
  assumes "map_of methods name = Some (InstanceMethod f)"
    and "instanceMap (snd (f env id' rest s)) i = Some info"
  shows "instanceMap s i = Some info"
proof -
  have g: "instanceMap (snd (genInstance m env id' rest s)) i = Some info
             \<Longrightarrow> instanceMap s i = Some info" for m
    using eachService_frame [of refresh "''refresh''" _ 0 "services env"]
      eachService_frame [of destroy "''destroy''" _ 0 "services env"]
      callFramework_frame(2) [of env _ m "JStr id' # rest" s]
    by (auto simp: genInstance_def split: option.splits prod.splits sum.splits if_splits)
       (metis snd_conv)+
  have a: "instanceMap (snd (adaptInstance m env id' rest s)) i = Some info
             \<Longrightarrow> instanceMap s i = Some info" for m
    by (auto simp: adaptInstance_def callFramework_frame split: option.splits)
  from methods_instance [OF assms(1)] assms(2) g a show ?thesis by blast
qed

text \<open>
  C3 on the code, at an id that was never created and is the name of a property of
  \<^verbatim>\<open>Object.prototype\<close>. The registry has no record for \<^verbatim>\<open>"constructor"\<close>, yet
  \<^verbatim>\<open>instanceMap["constructor"]\<close> finds the function \<^verbatim>\<open>Object\<close>, whose \<^verbatim>\<open>framework\<close> is
  \<^verbatim>\<open>undefined\<close>. Where a backend is registered under the name \<^verbatim>\<open>undefined\<close>,
  \<^verbatim>\<open>getRoot("constructor")\<close> and \<^verbatim>\<open>callJS("constructor")\<close> are delegated to that backend and
  return what it returns, and \<^verbatim>\<open>refreshInstance("constructor")\<close> calls the refresh hooks
  as well, with the function as \<^verbatim>\<open>info\<close>. For the id \<^verbatim>\<open>"1"\<close>, never created either, the
  same calls return the error value and call nothing.
\<close>

theorem inherited_id_is_routed:
  "instanceMap (startState undefinedNamed) (js ''constructor'') = None
   \<and> map fst (frameworks (startState undefinedNamed)) = [js ''undefined'', js ''Weex'']
   \<and> map_of methods ''getRoot'' = Some (InstanceMethod (genInstance ''getRoot''))
   \<and> fst (genInstance ''getRoot'' exampleEnv (js ''constructor'') [] (startState undefinedNamed))
       = Inr (JStr (js ''getRoot''))
   \<and> drop (length (calls (startState undefinedNamed)))
        (calls (snd (genInstance ''getRoot'' exampleEnv (js ''constructor'') [] (startState undefinedNamed))))
       = [FrameworkCall (js ''undefined'') ''getRoot'' [JStr (js ''constructor'')]]
   \<and> map_of methods ''callJS'' = Some (InstanceMethod (adaptInstance ''receiveTasks''))
   \<and> fst (adaptInstance ''receiveTasks'' exampleEnv (js ''constructor'') [] (startState undefinedNamed))
       = Inr (JStr (js ''receiveTasks''))
   \<and> drop (length (calls (startState undefinedNamed)))
        (calls (snd (adaptInstance ''receiveTasks'' exampleEnv (js ''constructor'') []
                       (startState undefinedNamed))))
       = [FrameworkCall (js ''undefined'') ''receiveTasks'' [JStr (js ''constructor'')]]
   \<and> drop (length (calls (startState undefinedNamed)))
        (calls (snd (genInstance ''refreshInstance'' exampleEnv (js ''constructor'') []
                       (startState undefinedNamed))))
       = [FrameworkCall (js ''undefined'') ''refreshInstance'' [JStr (js ''constructor'')],
          ServiceCall 0 ''refresh''
            [JStr (js ''constructor''), JObj [(js ''info'', JFun (js ''Object'')), (js ''runtime'', JObj [])]],
          ServiceCall 2 ''refresh''
            [JStr (js ''constructor''), JObj [(js ''info'', JFun (js ''Object'')), (js ''runtime'', JObj [])]]]
   \<and> instanceMap (startState undefinedNamed) (js ''1'') = None
   \<and> fst (genInstance ''getRoot'' exampleEnv (js ''1'') [] (startState undefinedNamed))
       = Inr (invalidInstanceId (js ''1''))
   \<and> calls (snd (genInstance ''getRoot'' exampleEnv (js ''1'') [] (startState undefinedNamed)))
       = calls (startState undefinedNamed)"
proof -
  have m: "map_of methods ''getRoot'' = Some (InstanceMethod (genInstance ''getRoot''))"
    "map_of methods ''callJS'' = Some (InstanceMethod (adaptInstance ''receiveTasks''))"
    by (simp_all add: methods_def)
  have "instanceMap (startState undefinedNamed) (js ''constructor'') = None
   \<and> map fst (frameworks (startState undefinedNamed)) = [js ''undefined'', js ''Weex'']
   \<and> fst (genInstance ''getRoot'' exampleEnv (js ''constructor'') [] (startState undefinedNamed))
       = Inr (JStr (js ''getRoot''))
   \<and> drop (length (calls (startState undefinedNamed)))
        (calls (snd (genInstance ''getRoot'' exampleEnv (js ''constructor'') [] (startState undefinedNamed))))
       = [FrameworkCall (js ''undefined'') ''getRoot'' [JStr (js ''constructor'')]]
   \<and> fst (adaptInstance ''receiveTasks'' exampleEnv (js ''constructor'') [] (startState undefinedNamed))
       = Inr (JStr (js ''receiveTasks''))
   \<and> drop (length (calls (startState undefinedNamed)))
        (calls (snd (adaptInstance ''receiveTasks'' exampleEnv (js ''constructor'') []
                       (startState undefinedNamed))))
       = [FrameworkCall (js ''undefined'') ''receiveTasks'' [JStr (js ''constructor'')]]
   \<and> drop (length (calls (startState undefinedNamed)))
        (calls (snd (genInstance ''refreshInstance'' exampleEnv (js ''constructor'') []
                       (startState undefinedNamed))))
       = [FrameworkCall (js ''undefined'') ''refreshInstance'' [JStr (js ''constructor'')],
          ServiceCall 0 ''refresh''
            [JStr (js ''constructor''), JObj [(js ''info'', JFun (js ''Object'')), (js ''runtime'', JObj [])]],
          ServiceCall 2 ''refresh''
            [JStr (js ''constructor''), JObj [(js ''info'', JFun (js ''Object'')), (js ''runtime'', JObj [])]]]
   \<and> instanceMap (startState undefinedNamed) (js ''1'') = None
   \<and> fst (genInstance ''getRoot'' exampleEnv (js ''1'') [] (startState undefinedNamed))
       = Inr (invalidInstanceId (js ''1''))
   \<and> calls (snd (genInstance ''getRoot'' exampleEnv (js ''1'') [] (startState undefinedNamed)))
       = calls (startState undefinedNamed)"
    by code_simp
  with m show ?thesis by blast
qed

text \<open>
  C9 on the code, at a backend name that is the name of a property of
  \<^verbatim>\<open>Object.prototype\<close>. Instance \<^verbatim>\<open>"1"\<close> has a record that names the backend
  \<^verbatim>\<open>constructor\<close>, and no backend is registered under that name: only \<^verbatim>\<open>Weex\<close> is.
  \<^verbatim>\<open>frameworks["constructor"]\<close> finds the function \<^verbatim>\<open>Object\<close>, the test of the router
  passes, and the call of a method that the function does not have ends in a
  \<^verbatim>\<open>TypeError\<close>: \<^verbatim>\<open>getRoot("1")\<close>, \<^verbatim>\<open>destroyInstance("1")\<close> and \<^verbatim>\<open>callJS("1")\<close> throw instead
  of returning the error value, and the record stays. For the record of \<open>orphanState\<close>,
  whose backend \<^verbatim>\<open>Weex\<close> is not registered and not inherited, \<^verbatim>\<open>getRoot("1")\<close> returns the
  error value.
\<close>

theorem inherited_backend_is_called:
  "instanceMap strayState (js ''1'')
     = Some [(js ''framework'', JStr (js ''constructor'')), (js ''version'', JStr (js ''1.0'')),
             (js ''created'', JNum 0)]
   \<and> map fst (frameworks strayState) = [js ''Weex'']
   \<and> fst (genInstance ''getRoot'' exampleEnv (js ''1'') [] strayState) = Inl TypeError
   \<and> fst (genInstance ''destroyInstance'' exampleEnv (js ''1'') [] strayState) = Inl TypeError
   \<and> instanceMap (snd (genInstance ''destroyInstance'' exampleEnv (js ''1'') [] strayState)) (js ''1'')
       = Some [(js ''framework'', JStr (js ''constructor'')), (js ''version'', JStr (js ''1.0'')),
               (js ''created'', JNum 0)]
   \<and> fst (adaptInstance ''receiveTasks'' exampleEnv (js ''1'') [] strayState) = Inl TypeError
   \<and> instanceMap orphanState (js ''1'') = Some [(js ''framework'', JStr (js ''Weex'')), (js ''created'', JNum 0)]
   \<and> map fst (frameworks orphanState) = []
   \<and> fst (genInstance ''getRoot'' exampleEnv (js ''1'') [] orphanState) = Inr (invalidInstanceId (js ''1''))"
  by code_simp

section \<open>Lifecycle methods\<close>

text \<open>
  C1, as the code has it. Let the id have a record whose backend is registered. When the
  backend has \<^verbatim>\<open>destroyInstance\<close>, the call returns a value \<open>v\<close> (any value, an
  \<^verbatim>\<open>Error\<close> object included) and every destroy hook returns, \<^verbatim>\<open>destroyInstance\<close> returns
  \<open>v\<close>, removes exactly this record from the registry, and from then on every
  instance-routed entry and \<^verbatim>\<open>callJS\<close> answer this id with the error value
  \<^verbatim>\<open>invalid instance id "id"\<close>; the id is one under which \<^verbatim>\<open>createInstance\<close> stores a
  record, which the name of a property of \<^verbatim>\<open>Object.prototype\<close> is not (lemma
  \<open>createInstance_stores\<close>). When the backend has no \<^verbatim>\<open>destroyInstance\<close> the call ends
  in a \<^verbatim>\<open>TypeError\<close> with the state untouched, and when the backend's method throws the
  exception propagates: in both cases the record stays in the registry.
\<close>

theorem destroyInstance_removes_record:
  assumes live: "instanceMap s id' = Some info"
    and fw: "lookupFramework env s (getProp info ''framework'') = Some fw"
  shows "(\<forall>f v. fw ''destroyInstance'' = Some f \<longrightarrow> f (JStr id' # rest) = Inr v \<longrightarrow>
            (\<forall>svc\<in>set (services env). \<forall>h. destroy svc = Some h \<longrightarrow>
               (\<exists>r. h [JStr id', instanceContext env (JObj info)] = Inr r)) \<longrightarrow>
            fst (genInstance ''destroyInstance'' env id' rest s) = Inr v
            \<and> instanceMap (snd (genInstance ''destroyInstance'' env id' rest s)) = (instanceMap s)(id' := None)
            \<and> (Object_prototype id' = None \<longrightarrow>
                 (\<forall>name g env' rest'. map_of methods name = Some (InstanceMethod g) \<longrightarrow>
                    g env' id' rest' (snd (genInstance ''destroyInstance'' env id' rest s))
                      = (Inr (invalidInstanceId id'), snd (genInstance ''destroyInstance'' env id' rest s)))))
       \<and> (fw ''destroyInstance'' = None \<longrightarrow>
            genInstance ''destroyInstance'' env id' rest s = (Inl TypeError, s))
       \<and> (\<forall>f e. fw ''destroyInstance'' = Some f \<longrightarrow> f (JStr id' # rest) = Inl e \<longrightarrow>
            fst (genInstance ''destroyInstance'' env id' rest s) = Inl e
            \<and> instanceMap (snd (genInstance ''destroyInstance'' env id' rest s)) = instanceMap s)"
proof (intro conjI allI impI)
  fix f v
  assume a: "fw ''destroyInstance'' = Some f" "f (JStr id' # rest) = Inr v"
    "\<forall>svc\<in>set (services env). \<forall>h. destroy svc = Some h \<longrightarrow>
        (\<exists>r. h [JStr id', instanceContext env (JObj info)] = Inr r)"
  note eq = genInstance_destroy_returns [OF live fw a]
  show "fst (genInstance ''destroyInstance'' env id' rest s) = Inr v"
    by (simp add: eq)
  show "instanceMap (snd (genInstance ''destroyInstance'' env id' rest s)) = (instanceMap s)(id' := None)"
    by (simp add: eq)
  fix name g env' rest'
  assume own: "Object_prototype id' = None"
    and m: "map_of methods name = Some (InstanceMethod g)"
  from own have "lookupInstance (snd (genInstance ''destroyInstance'' env id' rest s)) id' = None"
    by (simp add: eq lookupInstance_def)
  from routed_unknown_id [OF this m]
  show "g env' id' rest' (snd (genInstance ''destroyInstance'' env id' rest s))
               = (Inr (invalidInstanceId id'), snd (genInstance ''destroyInstance'' env id' rest s))" .
next
  assume "fw ''destroyInstance'' = None"
  then show "genInstance ''destroyInstance'' env id' rest s = (Inl TypeError, s)"
    by (rule genInstance_backend_absent [OF live fw])
next
  fix f e
  assume a: "fw ''destroyInstance'' = Some f" "f (JStr id' # rest) = Inl e"
  note eq = genInstance_backend_throws [OF live fw a]
  show "fst (genInstance ''destroyInstance'' env id' rest s) = Inl e"
    by (simp add: eq)
  show "instanceMap (snd (genInstance ''destroyInstance'' env id' rest s)) = instanceMap s"
    by (simp add: eq)
qed

lemma instanceOn_frameworks: "frameworks (instanceOn fw) = [(js ''Weex'', fw)]"
  by (simp add: instanceOn_def createInstance_frameworks startState_frameworks)

lemma instanceOn_record:
  "instanceMap (instanceOn reportingBackend) (js ''1'') = Some [(js ''framework'', JStr (js ''Weex'')), (js ''created'', JNum 0)]"
  "instanceMap (instanceOn bareBackend) (js ''1'') = Some [(js ''framework'', JStr (js ''Weex'')), (js ''created'', JNum 0)]"
  "instanceMap (instanceOn failingBackend) (js ''1'') = Some [(js ''framework'', JStr (js ''Weex'')), (js ''created'', JNum 0)]"
  by code_simp+

lemma instanceOn_lookup:
  "lookupFramework exampleEnv (instanceOn fw)
     (getProp [(js ''framework'', JStr (js ''Weex'')), (js ''created'', JNum 0)] ''framework'') = Some fw"
  by (simp add: lookupFramework_def instanceOn_frameworks frameworkKey_def getProp_def)

lemma exampleServices_return:
  "\<forall>svc\<in>set (services exampleEnv). \<forall>h. refresh svc = Some h \<longrightarrow> (\<exists>r. h args = Inr r)"
  "\<forall>svc\<in>set (services exampleEnv). \<forall>h. destroy svc = Some h \<longrightarrow> (\<exists>r. h args = Inr r)"
  by (auto simp: exampleEnv_def exampleServices_def returning_def)

lemma example_backends:
  "reportingBackend ''destroyInstance'' = Some (returning (JErr (js ''backend failure'')))"
  "reportingBackend ''refreshInstance'' = Some (returning (JErr (js ''backend failure'')))"
  "failingBackend ''destroyInstance'' = Some (throwing (JErr (js ''backend failure'')))"
  "failingBackend ''refreshInstance'' = Some (throwing (JErr (js ''backend failure'')))"
  "bareBackend ''destroyInstance'' = None"
  "bareBackend ''refreshInstance'' = None"
  by (simp_all add: reportingBackend_def failingBackend_def bareBackend_def)

lemma plain_id: "Object_prototype (js ''1'') = None"
  by code_simp

text \<open>
  The three cases of C1 on one instance each: a backend whose \<^verbatim>\<open>destroyInstance\<close> returns
  an \<^verbatim>\<open>Error\<close> value, a backend without the method, a backend whose method throws.
\<close>

theorem destroyInstance_removes_record_witness:
  "instanceMap (instanceOn reportingBackend) (js ''1'')
     = Some [(js ''framework'', JStr (js ''Weex'')), (js ''created'', JNum 0)]
   \<and> Object_prototype (js ''1'') = None
   \<and> fst (genInstance ''destroyInstance'' exampleEnv (js ''1'') [] (instanceOn reportingBackend))
       = Inr (JErr (js ''backend failure''))
   \<and> instanceMap (snd (genInstance ''destroyInstance'' exampleEnv (js ''1'') [] (instanceOn reportingBackend)))
       = (instanceMap (instanceOn reportingBackend))(js ''1'' := None)
   \<and> genInstance ''getRoot'' exampleEnv (js ''1'') []
         (snd (genInstance ''destroyInstance'' exampleEnv (js ''1'') [] (instanceOn reportingBackend)))
       = (Inr (invalidInstanceId (js ''1'')),
          snd (genInstance ''destroyInstance'' exampleEnv (js ''1'') [] (instanceOn reportingBackend)))
   \<and> genInstance ''destroyInstance'' exampleEnv (js ''1'') [] (instanceOn bareBackend)
       = (Inl TypeError, instanceOn bareBackend)
   \<and> fst (genInstance ''destroyInstance'' exampleEnv (js ''1'') [] (instanceOn failingBackend))
       = Inl (Thrown (JErr (js ''backend failure'')))
   \<and> instanceMap (snd (genInstance ''destroyInstance'' exampleEnv (js ''1'') [] (instanceOn failingBackend)))
       = instanceMap (instanceOn failingBackend)"
proof -
  have m: "map_of methods ''getRoot'' = Some (InstanceMethod (genInstance ''getRoot''))"
    by (simp add: methods_def)
  have r: "returning (JErr (js ''backend failure'')) [JStr (js ''1'')] = Inr (JErr (js ''backend failure''))"
    by (simp add: returning_def)
  have t: "throwing (JErr (js ''backend failure'')) [JStr (js ''1'')] = Inl (Thrown (JErr (js ''backend failure'')))"
    by (simp add: throwing_def)
  note a = destroyInstance_removes_record [OF instanceOn_record(1) instanceOn_lookup, of "[]"]
  note b = destroyInstance_removes_record [OF instanceOn_record(2) instanceOn_lookup, of "[]"]
  note c = destroyInstance_removes_record [OF instanceOn_record(3) instanceOn_lookup, of "[]"]
  from a example_backends(1) r exampleServices_return(2) m plain_id
  have "fst (genInstance ''destroyInstance'' exampleEnv (js ''1'') [] (instanceOn reportingBackend))
       = Inr (JErr (js ''backend failure''))
   \<and> instanceMap (snd (genInstance ''destroyInstance'' exampleEnv (js ''1'') [] (instanceOn reportingBackend)))
       = (instanceMap (instanceOn reportingBackend))(js ''1'' := None)
   \<and> genInstance ''getRoot'' exampleEnv (js ''1'') []
         (snd (genInstance ''destroyInstance'' exampleEnv (js ''1'') [] (instanceOn reportingBackend)))
       = (Inr (invalidInstanceId (js ''1'')),
          snd (genInstance ''destroyInstance'' exampleEnv (js ''1'') [] (instanceOn reportingBackend)))"
    by blast
  moreover from b example_backends(5)
  have "genInstance ''destroyInstance'' exampleEnv (js ''1'') [] (instanceOn bareBackend)
       = (Inl TypeError, instanceOn bareBackend)"
    by blast
  moreover from c example_backends(3) t
  have "fst (genInstance ''destroyInstance'' exampleEnv (js ''1'') [] (instanceOn failingBackend))
       = Inl (Thrown (JErr (js ''backend failure'')))
   \<and> instanceMap (snd (genInstance ''destroyInstance'' exampleEnv (js ''1'') [] (instanceOn failingBackend)))
       = instanceMap (instanceOn failingBackend)"
    by blast
  ultimately show ?thesis using instanceOn_record(1) plain_id by blast
qed

text \<open>
  C1 as stated fails: on a backend without \<^verbatim>\<open>destroyInstance\<close>, and on one whose
  \<^verbatim>\<open>destroyInstance\<close> throws, the record of instance \<^verbatim>\<open>"1"\<close> is still in the registry
  after \<^verbatim>\<open>destroyInstance("1")\<close>, and a later \<^verbatim>\<open>getRoot("1")\<close> is delegated again instead of
  returning the error value. The record also stays when its backend is not registered:
  \<^verbatim>\<open>destroyInstance("1")\<close> then returns the error value itself.
\<close>

theorem destroyInstance_keeps_record_counterexample:
  "instanceMap (instanceOn bareBackend) (js ''1'')
     = Some [(js ''framework'', JStr (js ''Weex'')), (js ''created'', JNum 0)]
   \<and> fst (genInstance ''destroyInstance'' exampleEnv (js ''1'') [] (instanceOn bareBackend)) = Inl TypeError
   \<and> instanceMap (snd (genInstance ''destroyInstance'' exampleEnv (js ''1'') [] (instanceOn bareBackend))) (js ''1'')
     = Some [(js ''framework'', JStr (js ''Weex'')), (js ''created'', JNum 0)]
   \<and> fst (genInstance ''getRoot'' exampleEnv (js ''1'') []
          (snd (genInstance ''destroyInstance'' exampleEnv (js ''1'') [] (instanceOn bareBackend))))
     = Inl TypeError
   \<and> fst (genInstance ''destroyInstance'' exampleEnv (js ''1'') [] (instanceOn failingBackend))
     = Inl (Thrown (JErr (js ''backend failure'')))
   \<and> instanceMap (snd (genInstance ''destroyInstance'' exampleEnv (js ''1'') [] (instanceOn failingBackend))) (js ''1'')
     = Some [(js ''framework'', JStr (js ''Weex'')), (js ''created'', JNum 0)]
   \<and> instanceMap orphanState (js ''1'')
     = Some [(js ''framework'', JStr (js ''Weex'')), (js ''created'', JNum 0)]
   \<and> fst (genInstance ''destroyInstance'' exampleEnv (js ''1'') [] orphanState)
     = Inr (JErr (js ''invalid instance id '' @ quoted ''1''))
   \<and> instanceMap (snd (genInstance ''destroyInstance'' exampleEnv (js ''1'') [] orphanState)) (js ''1'')
     = Some [(js ''framework'', JStr (js ''Weex'')), (js ''created'', JNum 0)]"
  by code_simp

text \<open>
  C4, as the code has it. Let the id have a record whose backend is registered. When the
  backend's \<^verbatim>\<open>refreshInstance\<close> (\<^verbatim>\<open>destroyInstance\<close>) returns a value \<open>v\<close>, whatever the
  value, and every refresh (destroy) hook returns, the calls made are: the backend method
  first, then the refresh (destroy) hook of each service that has one, once each, in
  registration order, with the arguments \<^verbatim>\<open>(id, { info, runtime })\<close>; services without the
  hook are skipped and \<open>v\<close> is returned. When the backend method throws, it is the only
  call made: no hook runs. When the backend lacks the method, nothing is called and the
  call ends in a \<^verbatim>\<open>TypeError\<close>.
\<close>

theorem lifecycle_hooks_in_order:
  assumes live: "instanceMap s id' = Some info"
    and fw: "lookupFramework env s (getProp info ''framework'') = Some fw"
  shows "(\<forall>f v. fw ''refreshInstance'' = Some f \<longrightarrow> f (JStr id' # rest) = Inr v \<longrightarrow>
            (\<forall>svc\<in>set (services env). \<forall>h. refresh svc = Some h \<longrightarrow>
               (\<exists>r. h [JStr id', instanceContext env (JObj info)] = Inr r)) \<longrightarrow>
            fst (genInstance ''refreshInstance'' env id' rest s) = Inr v
            \<and> calls (snd (genInstance ''refreshInstance'' env id' rest s)) =
                calls s
                @ FrameworkCall (frameworkKey env (getProp info ''framework'')) ''refreshInstance'' (JStr id' # rest)
                # map (\<lambda>i. ServiceCall i ''refresh'' [JStr id', instanceContext env (JObj info)])
                    (hookIndices refresh (services env)))
       \<and> (\<forall>f v. fw ''destroyInstance'' = Some f \<longrightarrow> f (JStr id' # rest) = Inr v \<longrightarrow>
            (\<forall>svc\<in>set (services env). \<forall>h. destroy svc = Some h \<longrightarrow>
               (\<exists>r. h [JStr id', instanceContext env (JObj info)] = Inr r)) \<longrightarrow>
            fst (genInstance ''destroyInstance'' env id' rest s) = Inr v
            \<and> calls (snd (genInstance ''destroyInstance'' env id' rest s)) =
                calls s
                @ FrameworkCall (frameworkKey env (getProp info ''framework'')) ''destroyInstance'' (JStr id' # rest)
                # map (\<lambda>i. ServiceCall i ''destroy'' [JStr id', instanceContext env (JObj info)])
                    (hookIndices destroy (services env)))
       \<and> (\<forall>m f e. fw m = Some f \<longrightarrow> f (JStr id' # rest) = Inl e \<longrightarrow>
            fst (genInstance m env id' rest s) = Inl e
            \<and> calls (snd (genInstance m env id' rest s)) =
                calls s @ [FrameworkCall (frameworkKey env (getProp info ''framework'')) m (JStr id' # rest)])
       \<and> (\<forall>m. fw m = None \<longrightarrow> genInstance m env id' rest s = (Inl TypeError, s))"
  by (auto simp: genInstance_refresh_returns [OF live fw] genInstance_destroy_returns [OF live fw]
        genInstance_backend_throws [OF live fw] genInstance_backend_absent [OF live fw])

text \<open>The cases of C4 on the example services, of which 0 and 2 have a refresh hook.\<close>

theorem lifecycle_hooks_in_order_witness:
  "instanceMap (instanceOn reportingBackend) (js ''1'')
     = Some [(js ''framework'', JStr (js ''Weex'')), (js ''created'', JNum 0)]
   \<and> hookIndices refresh (services exampleEnv) = [0, 2]
   \<and> hookIndices destroy (services exampleEnv) = [1, 2]
   \<and> fst (genInstance ''refreshInstance'' exampleEnv (js ''1'') [] (instanceOn reportingBackend))
       = Inr (JErr (js ''backend failure''))
   \<and> calls (snd (genInstance ''refreshInstance'' exampleEnv (js ''1'') [] (instanceOn reportingBackend)))
       = calls (instanceOn reportingBackend)
         @ FrameworkCall (js ''Weex'') ''refreshInstance'' [JStr (js ''1'')]
         # map (\<lambda>i. ServiceCall i ''refresh''
                  [JStr (js ''1''),
                   instanceContext exampleEnv
                     (JObj [(js ''framework'', JStr (js ''Weex'')), (js ''created'', JNum 0)])])
             (hookIndices refresh (services exampleEnv))
   \<and> fst (genInstance ''destroyInstance'' exampleEnv (js ''1'') [] (instanceOn reportingBackend))
       = Inr (JErr (js ''backend failure''))
   \<and> calls (snd (genInstance ''destroyInstance'' exampleEnv (js ''1'') [] (instanceOn reportingBackend)))
       = calls (instanceOn reportingBackend)
         @ FrameworkCall (js ''Weex'') ''destroyInstance'' [JStr (js ''1'')]
         # map (\<lambda>i. ServiceCall i ''destroy''
                  [JStr (js ''1''),
                   instanceContext exampleEnv
                     (JObj [(js ''framework'', JStr (js ''Weex'')), (js ''created'', JNum 0)])])
             (hookIndices destroy (services exampleEnv))
   \<and> calls (snd (genInstance ''refreshInstance'' exampleEnv (js ''1'') [] (instanceOn failingBackend)))
       = calls (instanceOn failingBackend) @ [FrameworkCall (js ''Weex'') ''refreshInstance'' [JStr (js ''1'')]]
   \<and> genInstance ''refreshInstance'' exampleEnv (js ''1'') [] (instanceOn bareBackend)
       = (Inl TypeError, instanceOn bareBackend)"
proof -
  have k: "frameworkKey exampleEnv
             (getProp [(js ''framework'', JStr (js ''Weex'')), (js ''created'', JNum 0)] ''framework'') = js ''Weex''"
    by (simp add: frameworkKey_def getProp_def)
  have i: "hookIndices refresh (services exampleEnv) = [0, 2]"
          "hookIndices destroy (services exampleEnv) = [1, 2]"
    by code_simp+
  have r: "returning (JErr (js ''backend failure'')) [JStr (js ''1'')] = Inr (JErr (js ''backend failure''))"
    by (simp add: returning_def)
  have t: "throwing (JErr (js ''backend failure'')) [JStr (js ''1'')] = Inl (Thrown (JErr (js ''backend failure'')))"
    by (simp add: throwing_def)
  note a = lifecycle_hooks_in_order [OF instanceOn_record(1) instanceOn_lookup, of "[]", unfolded k]
  note b = lifecycle_hooks_in_order [OF instanceOn_record(2) instanceOn_lookup, of "[]", unfolded k]
  note c = lifecycle_hooks_in_order [OF instanceOn_record(3) instanceOn_lookup, of "[]", unfolded k]
  from a example_backends(2) r exampleServices_return(1)
  have 1: "fst (genInstance ''refreshInstance'' exampleEnv (js ''1'') [] (instanceOn reportingBackend))
       = Inr (JErr (js ''backend failure''))
   \<and> calls (snd (genInstance ''refreshInstance'' exampleEnv (js ''1'') [] (instanceOn reportingBackend)))
       = calls (instanceOn reportingBackend)
         @ FrameworkCall (js ''Weex'') ''refreshInstance'' [JStr (js ''1'')]
         # map (\<lambda>i. ServiceCall i ''refresh''
                  [JStr (js ''1''),
                   instanceContext exampleEnv
                     (JObj [(js ''framework'', JStr (js ''Weex'')), (js ''created'', JNum 0)])])
             (hookIndices refresh (services exampleEnv))"
    by blast
  from a example_backends(1) r exampleServices_return(2)
  have 2: "fst (genInstance ''destroyInstance'' exampleEnv (js ''1'') [] (instanceOn reportingBackend))
       = Inr (JErr (js ''backend failure''))
   \<and> calls (snd (genInstance ''destroyInstance'' exampleEnv (js ''1'') [] (instanceOn reportingBackend)))
       = calls (instanceOn reportingBackend)
         @ FrameworkCall (js ''Weex'') ''destroyInstance'' [JStr (js ''1'')]
         # map (\<lambda>i. ServiceCall i ''destroy''
                  [JStr (js ''1''),
                   instanceContext exampleEnv
                     (JObj [(js ''framework'', JStr (js ''Weex'')), (js ''created'', JNum 0)])])
             (hookIndices destroy (services exampleEnv))"
    by blast
  from c example_backends(4) t
  have 3: "calls (snd (genInstance ''refreshInstance'' exampleEnv (js ''1'') [] (instanceOn failingBackend)))
       = calls (instanceOn failingBackend) @ [FrameworkCall (js ''Weex'') ''refreshInstance'' [JStr (js ''1'')]]"
    by blast
  from b example_backends(6)
  have 4: "genInstance ''refreshInstance'' exampleEnv (js ''1'') [] (instanceOn bareBackend)
       = (Inl TypeError, instanceOn bareBackend)"
    by blast
  from instanceOn_record(1) i 1 2 3 4 show ?thesis by blast
qed

text \<open>
  C4 as stated fails: when the backend's \<^verbatim>\<open>refreshInstance\<close> throws, no refresh hook is
  called although two services have one; when the backend has no \<^verbatim>\<open>destroyInstance\<close>, or
  the record's backend is not registered, no destroy hook is called.
\<close>

theorem lifecycle_hooks_skipped_counterexample:
  "hookIndices refresh (services exampleEnv) = [0, 2]
   \<and> instanceMap (instanceOn failingBackend) (js ''1'')
     = Some [(js ''framework'', JStr (js ''Weex'')), (js ''created'', JNum 0)]
   \<and> fst (genInstance ''refreshInstance'' exampleEnv (js ''1'') [] (instanceOn failingBackend))
     = Inl (Thrown (JErr (js ''backend failure'')))
   \<and> calls (snd (genInstance ''refreshInstance'' exampleEnv (js ''1'') [] (instanceOn failingBackend)))
     = calls (instanceOn failingBackend) @ [FrameworkCall (js ''Weex'') ''refreshInstance'' [JStr (js ''1'')]]
   \<and> hookIndices destroy (services exampleEnv) = [1, 2]
   \<and> fst (genInstance ''destroyInstance'' exampleEnv (js ''1'') [] (instanceOn bareBackend)) = Inl TypeError
   \<and> calls (snd (genInstance ''destroyInstance'' exampleEnv (js ''1'') [] (instanceOn bareBackend)))
     = calls (instanceOn bareBackend)
   \<and> instanceMap orphanState (js ''1'')
     = Some [(js ''framework'', JStr (js ''Weex'')), (js ''created'', JNum 0)]
   \<and> calls (snd (genInstance ''destroyInstance'' exampleEnv (js ''1'') [] orphanState)) = calls orphanState"
  by code_simp

section \<open>Registration methods\<close>

lemma implements_calls [simp]: "implements (s\<lparr>calls := c\<rparr>) m = implements s m"
  by (simp add: implements_def fun_eq_iff)






section \<open>The version detector\<close>

lemma dropWhile_all:
  assumes "\<forall>c\<in>set xs. P c" and "\<not> P y"
  shows "dropWhile P (xs @ y # ys) = y # ys"
  using assms by (induction xs) auto

lemma takeWhile_all:
  assumes "\<forall>c\<in>set xs. P c" and "\<not> P y"
  shows "takeWhile P (xs @ y # ys) = xs"
  using assms by (induction xs) auto

lemma dropWhile_all_nl:
  assumes "\<forall>c\<in>set xs. c = (0x20 :: jschar)" and "nl = [0x0A] \<or> nl = [0x0D, 0x0A]"
  shows "dropWhile (\<lambda>c. c = 0x20) (xs @ nl @ ys) = nl @ ys"
  using assms by (induction xs) auto

lemma versionRegExp_exec_complete:
  assumes "versionRegExp_matches code group1"
  shows "versionRegExp_exec code = Some group1"
proof -
  from assms obtain ws sp1 body sp2 nl rest where
    code: "code = ws @ [0x2F, 0x2F] @ sp1 @ [0x7B] @ body @ [0x7D] @ sp2 @ nl @ rest"
    and ws: "\<forall>c\<in>set ws. isWhiteSpace c"
    and sp1: "\<forall>c\<in>set sp1. c = 0x20"
    and body: "\<forall>c\<in>set body. c \<noteq> 0x7D"
    and sp2: "\<forall>c\<in>set sp2. c = 0x20"
    and nl: "nl = [0x0A] \<or> nl = [0x0D, 0x0A]"
    and g: "group1 = [0x7B] @ body @ [0x7D]"
    unfolding versionRegExp_matches_def by blast
  have "\<not> isWhiteSpace 0x2F"
    by (simp add: isWhiteSpace_def)
  from dropWhile_all [OF ws this]
  have 1: "dropWhile isWhiteSpace code = 0x2F # 0x2F # sp1 @ [0x7B] @ body @ [0x7D] @ sp2 @ nl @ rest"
    unfolding code by simp
  have 2: "dropWhile (\<lambda>c. c = 0x20) (sp1 @ 0x7B # body @ 0x7D # sp2 @ nl @ rest)
             = 0x7B # body @ 0x7D # sp2 @ nl @ rest"
    using dropWhile_all [OF sp1, of "0x7B"] by simp
  have 3: "dropWhile (\<lambda>c. c \<noteq> 0x7D) (body @ 0x7D # sp2 @ nl @ rest) = 0x7D # sp2 @ nl @ rest"
    using dropWhile_all [OF body, of "0x7D"] by simp
  have 4: "takeWhile (\<lambda>c. c \<noteq> 0x7D) (body @ 0x7D # ys) = body" for ys
    using takeWhile_all [OF body, of "0x7D"] by simp
  have 5: "dropWhile (\<lambda>c. c = 0x20) (sp2 @ nl @ rest) = nl @ rest"
    by (rule dropWhile_all_nl [OF sp2 nl])
  have "versionRegExp_exec code =
          (case nl @ rest of
             [] \<Rightarrow> None
           | c5 # r4 \<Rightarrow>
               if c5 = 0x0A \<or> (c5 = 0x0D \<and> (case r4 of c6 # _ \<Rightarrow> c6 = 0x0A | [] \<Rightarrow> False))
               then Some (0x7B # body @ [0x7D]) else None)"
    by (simp add: versionRegExp_exec_def 1 2 3 4 5 cong: list.case_cong if_cong)
  with nl show ?thesis
    by (auto simp: g)
qed

lemma versionRegExp_exec_sound:
  assumes "versionRegExp_exec code = Some group1"
  shows "versionRegExp_matches code group1"
proof -
  define ws where "ws = takeWhile isWhiteSpace code"
  from assms obtain r1 where
    d1: "dropWhile isWhiteSpace code = 0x2F # 0x2F # r1"
    by (auto simp: versionRegExp_exec_def split: list.splits if_splits)
  define sp1 where "sp1 = takeWhile (\<lambda>c. c = 0x20) r1"
  from assms d1 obtain r2 where
    d2: "dropWhile (\<lambda>c. c = 0x20) r1 = 0x7B # r2"
    by (auto simp: versionRegExp_exec_def split: list.splits if_splits)
  define body where "body = takeWhile (\<lambda>c. c \<noteq> 0x7D) r2"
  from assms d1 d2 obtain c4 r3 where
    d3: "dropWhile (\<lambda>c. c \<noteq> 0x7D) r2 = c4 # r3"
    by (auto simp: versionRegExp_exec_def split: list.splits if_splits)
  have c4: "c4 = 0x7D"
    using hd_dropWhile [of "\<lambda>c. c \<noteq> 0x7D" r2] d3 by simp
  define sp2 where "sp2 = takeWhile (\<lambda>c. c = 0x20) r3"
  from assms d1 d2 d3 obtain c5 r4 where
    d4: "dropWhile (\<lambda>c. c = 0x20) r3 = c5 # r4"
    and nl: "c5 = 0x0A \<or> (c5 = 0x0D \<and> (\<exists>r5. r4 = 0x0A # r5))"
    and g: "group1 = [0x7B] @ body @ [0x7D]"
    by (auto simp: versionRegExp_exec_def body_def split: list.splits if_splits)
  define nl' where "nl' = (if c5 = 0x0A then [c5] else [c5, 0x0A])"
  define rest where "rest = (if c5 = 0x0A then r4 else tl r4)"
  have e: "c5 # r4 = nl' @ rest"
    using nl by (auto simp: nl'_def rest_def)
  have "code = ws @ dropWhile isWhiteSpace code"
    by (simp add: ws_def)
  moreover have "r1 = sp1 @ dropWhile (\<lambda>c. c = 0x20) r1"
    by (simp add: sp1_def)
  moreover have "r2 = body @ dropWhile (\<lambda>c. c \<noteq> 0x7D) r2"
    by (simp add: body_def)
  moreover have "r3 = sp2 @ dropWhile (\<lambda>c. c = 0x20) r3"
    by (simp add: sp2_def)
  ultimately have "code = ws @ [0x2F, 0x2F] @ sp1 @ [0x7B] @ body @ [0x7D] @ sp2 @ nl' @ rest"
    by (simp add: d1 d2 d3 d4 c4 e)
  moreover have "\<forall>c\<in>set ws. isWhiteSpace c" "\<forall>c\<in>set sp1. c = 0x20"
    "\<forall>c\<in>set body. c \<noteq> 0x7D" "\<forall>c\<in>set sp2. c = 0x20"
    by (auto simp: ws_def sp1_def body_def sp2_def dest: set_takeWhileD)
  moreover have "nl' = [0x0A] \<or> nl' = [0x0D, 0x0A]"
    using nl by (auto simp: nl'_def)
  ultimately show ?thesis
    unfolding versionRegExp_matches_def using g by blast
qed

lemma versionRegExp_exec_iff:
  "versionRegExp_exec code = Some group1 \<longleftrightarrow> versionRegExp_matches code group1"
  using versionRegExp_exec_sound versionRegExp_exec_complete by blast

lemma reduce_inner:
  assumes "reduce v st = Some (m', st')" and "st \<noteq> []"
    and "case last st of ArrF _ \<Rightarrow> False | _ \<Rightarrow> True"
  shows "objectAtBottom m' st'"
  using assms
  by (cases "(v, st)" rule: reduce.cases)
     (auto simp: objectAtBottom_def split: if_splits frame.splits)

lemma reduce_close:
  assumes "reduce v st' = Some (m', st'')"
    and "case last (f # st') of ArrF _ \<Rightarrow> False | _ \<Rightarrow> True"
    and "st' = [] \<longrightarrow> (\<exists>ob. v = JObj ob)"
  shows "objectAtBottom m' st''"
proof (cases "st' = []")
  case True
  with assms show ?thesis by (auto simp: objectAtBottom_def)
next
  case False
  with assms(2) have "case last st' of ArrF _ \<Rightarrow> False | _ \<Rightarrow> True" by simp
  from reduce_inner [OF assms(1) False this] show ?thesis .
qed

lemma pstep_objectAtBottom:
  assumes "objectAtBottom m st" and "pstep s2n m st t = Some (m', st')"
  shows "objectAtBottom m' st'"
proof (cases m)
  case (PDone v)
  with assms show ?thesis by (simp add: pstep_def)
next
  case PColon
  with assms show ?thesis
    by (auto simp: pstep_def objectAtBottom_def split: token.splits)
next
  case PKey
  with assms show ?thesis
    by (auto simp: pstep_def objectAtBottom_def split: token.splits list.splits frame.splits if_splits)
next
  case PKeyOrEnd
  with assms have st: "st \<noteq> []" "case last st of ArrF _ \<Rightarrow> False | _ \<Rightarrow> True"
    by (auto simp: objectAtBottom_def)
  show ?thesis
  proof (cases t)
    case (TString k)
    with PKeyOrEnd assms st show ?thesis
      by (auto simp: pstep_def objectAtBottom_def split: list.splits frame.splits if_splits)
  next
    case TRBrace
    with PKeyOrEnd assms obtain ob st0 where s: "st = ObjF ob # st0" "reduce (JObj ob) st0 = Some (m', st')"
      by (auto simp: pstep_def split: list.splits frame.splits)
    from reduce_close [OF s(2), of "ObjF ob"] st s(1) show ?thesis by simp
  qed (use PKeyOrEnd assms in \<open>auto simp: pstep_def split: list.splits frame.splits\<close>)
next
  case PNext
  with assms have st: "st \<noteq> []" "case last st of ArrF _ \<Rightarrow> False | _ \<Rightarrow> True"
    by (auto simp: objectAtBottom_def)
  show ?thesis
  proof (cases t)
    case TComma
    with PNext assms st show ?thesis
      by (auto simp: pstep_def objectAtBottom_def split: list.splits frame.splits if_splits)
  next
    case TRBrace
    with PNext assms obtain ob st0 where s: "st = ObjF ob # st0" "reduce (JObj ob) st0 = Some (m', st')"
      by (auto simp: pstep_def split: list.splits frame.splits)
    from reduce_close [OF s(2), of "ObjF ob"] st s(1) show ?thesis by simp
  next
    case TRBracket
    with PNext assms obtain vs st0 where s: "st = ArrF vs # st0" "reduce (JArr vs) st0 = Some (m', st')"
      by (auto simp: pstep_def split: list.splits frame.splits)
    from st s(1) have "st0 \<noteq> []" by auto
    with reduce_close [OF s(2), of "ArrF vs"] st s(1) show ?thesis by simp
  qed (use PNext assms in \<open>auto simp: pstep_def split: list.splits frame.splits\<close>)
next
  case PValue
  with assms have st: "st \<noteq> []" "case last st of ArrF _ \<Rightarrow> False | _ \<Rightarrow> True"
    by (auto simp: objectAtBottom_def)
  from PValue assms(2) st show ?thesis
    by (cases t) (auto simp: pstep_def objectAtBottom_def dest: reduce_inner [OF _ st])
next
  case PValueOrEnd
  with assms have st: "st \<noteq> []" "case last st of ArrF _ \<Rightarrow> False | _ \<Rightarrow> True"
    by (auto simp: objectAtBottom_def)
  show ?thesis
  proof (cases t)
    case TRBracket
    with PValueOrEnd assms obtain vs st0 where s: "st = ArrF vs # st0" "reduce (JArr vs) st0 = Some (m', st')"
      by (auto simp: pstep_def split: list.splits frame.splits)
    from st s(1) have "st0 \<noteq> []" by auto
    with reduce_close [OF s(2), of "ArrF vs"] st s(1) show ?thesis by simp
  qed (use PValueOrEnd assms(2) st in \<open>auto simp: pstep_def objectAtBottom_def dest: reduce_inner [OF _ st]\<close>)
qed

lemma parseTokens_objectAtBottom:
  assumes "objectAtBottom m st" and "parseTokens s2n m st ts = Some v"
  shows "\<exists>ob. v = JObj ob"
  using assms
proof (induction ts arbitrary: m st)
  case Nil
  then show ?case by (auto simp: objectAtBottom_def split: pmode.splits)
next
  case (Cons t ts)
  from Cons.prems(2) obtain m' st' where
    s: "pstep s2n m st t = Some (m', st')" and p: "parseTokens s2n m' st' ts = Some v"
    by (auto split: option.splits)
  from Cons.IH [OF pstep_objectAtBottom [OF Cons.prems(1) s] p] show ?case .
qed

lemma JSON_parse_brace:
  assumes "JSON_parse s2n (0x7B # cs) = Some v"
  shows "\<exists>ob. v = JObj ob"
proof -
  from assms obtain ts where l: "lexJSON cs = Some ts"
    and p: "parseTokens s2n PValue [] (TLBrace # ts) = Some v"
    by (auto simp: JSON_parse_def split: option.splits)
  from p have "parseTokens s2n PKeyOrEnd [ObjF []] ts = Some v"
    by (simp add: pstep_def)
  moreover have "objectAtBottom PKeyOrEnd [ObjF []]"
    by (simp add: objectAtBottom_def)
  ultimately show ?thesis by (rule parseTokens_objectAtBottom [rotated])
qed

text \<open>The catch-all branch of \<open>checkVersion\<close> is taken only when \<^verbatim>\<open>JSON.parse\<close> throws.\<close>

lemma checkVersion_object:
  assumes "versionRegExp_exec code = Some group1"
  shows "checkVersion env code =
           (case JSON_parse (parseNumber env) group1 of None \<Rightarrow> None | Some v \<Rightarrow> Some (ownProperties v))"
    and "JSON_parse (parseNumber env) group1 = Some v \<Longrightarrow> \<exists>ob. v = JObj ob"
proof -
  from versionRegExp_exec_sound [OF assms] obtain body where g: "group1 = 0x7B # body @ [0x7D]"
    by (auto simp: versionRegExp_matches_def)
  show "JSON_parse (parseNumber env) group1 = Some v \<Longrightarrow> \<exists>ob. v = JObj ob"
    unfolding g by (rule JSON_parse_brace)
  then show "checkVersion env code =
           (case JSON_parse (parseNumber env) group1 of None \<Rightarrow> None | Some v \<Rightarrow> Some (ownProperties v))"
    using assms JSON_parse_brace [of "parseNumber env" "body @ [0x7D]"]
    by (auto simp: checkVersion_def g ownProperties_def split: option.splits jsval.splits)
qed

text \<open>
  C5, as the code has it. \<^verbatim>\<open>checkVersion\<close> returns an object exactly when the text starts
  with a match of \<^verbatim>\<open>versionRegExp\<close> (any white space, line breaks included; \<^verbatim>\<open>//\<close>;
  spaces; an opening brace and everything up to the first closing brace; spaces; a line
  break) and \<^verbatim>\<open>JSON.parse\<close> accepts the text between the braces, braces included; it
  then returns the parsed object. In every other case, that of text that \<^verbatim>\<open>JSON.parse\<close>
  rejects included, it returns \<^verbatim>\<open>undefined\<close>. It throws in no case: \<open>checkVersion\<close> has
  a result for every text.
\<close>

theorem checkVersion_characterised:
  "(checkVersion env code = Some ob \<longleftrightarrow>
      (\<exists>group1. versionRegExp_matches code group1
         \<and> JSON_parse (parseNumber env) group1 = Some (JObj ob)))
   \<and> (checkVersion env code = None \<longleftrightarrow>
      (\<forall>group1. versionRegExp_matches code group1
         \<longrightarrow> JSON_parse (parseNumber env) group1 = None))"
proof (cases "versionRegExp_exec code")
  case None
  then have "\<not> versionRegExp_matches code g" for g
    by (simp add: versionRegExp_exec_iff [symmetric])
  with None show ?thesis by (simp add: checkVersion_def)
next
  case (Some g)
  then have m: "versionRegExp_matches code g' \<longleftrightarrow> g' = g" for g'
    by (auto simp: versionRegExp_exec_iff [symmetric])
  from checkVersion_object [OF Some, of env] show ?thesis
    by (auto simp: m ownProperties_def split: option.splits)
qed

lemma checkVersion_raxHeader:
  "versionRegExp_exec (raxHeader @ rest) =
     Some (js ''{'' @ quoted ''framework'' @ js '':'' @ quoted ''Rax'' @ js '','' @ quoted ''version''
           @ js '':'' @ quoted ''1.0'' @ js ''}'')"
  "checkVersion env (raxHeader @ rest) =
     Some [(js ''framework'', JStr (js ''Rax'')), (js ''version'', JStr (js ''1.0''))]"
  by (simp_all add: raxHeader_def checkVersion_def versionRegExp_exec_def isWhiteSpace_def js_def
        quoted_def JSON_parse_def pstep_def consChar_def isDigit_def)

text \<open>The header of the specification is detected; a header that is not JSON is not.\<close>

theorem checkVersion_characterised_witness:
  "versionRegExp_matches (raxHeader @ plainBundle)
     (js ''{'' @ quoted ''framework'' @ js '':'' @ quoted ''Rax'' @ js '','' @ quoted ''version''
      @ js '':'' @ quoted ''1.0'' @ js ''}'')
   \<and> checkVersion exampleEnv (raxHeader @ plainBundle)
       = Some [(js ''framework'', JStr (js ''Rax'')), (js ''version'', JStr (js ''1.0''))]
   \<and> versionRegExp_matches malformedHeader (js ''{'' @ quoted ''framework'' @ js '':Rax}'')
   \<and> JSON_parse (parseNumber exampleEnv) (js ''{'' @ quoted ''framework'' @ js '':Rax}'') = None
   \<and> checkVersion exampleEnv malformedHeader = None"
proof -
  let ?g = "js ''{'' @ quoted ''framework'' @ js '':'' @ quoted ''Rax'' @ js '','' @ quoted ''version''
      @ js '':'' @ quoted ''1.0'' @ js ''}''"
  let ?b = "js ''{'' @ quoted ''framework'' @ js '':Rax}''"
  have m1: "versionRegExp_matches (raxHeader @ plainBundle) ?g"
    by (rule versionRegExp_exec_sound) (rule checkVersion_raxHeader)
  have p1: "JSON_parse (parseNumber exampleEnv) ?g
              = Some (JObj [(js ''framework'', JStr (js ''Rax'')), (js ''version'', JStr (js ''1.0''))])"
    by code_simp
  have e2: "versionRegExp_exec malformedHeader = Some ?b"
    by code_simp
  have m2: "versionRegExp_matches malformedHeader ?b"
    by (rule versionRegExp_exec_sound) (rule e2)
  have u: "versionRegExp_matches malformedHeader g \<Longrightarrow> g = ?b" for g
    using e2 by (simp add: versionRegExp_exec_iff [symmetric])
  have p2: "JSON_parse (parseNumber exampleEnv) ?b = None"
    by code_simp
  from checkVersion_characterised [of exampleEnv "raxHeader @ plainBundle"] m1 p1
  have 1: "checkVersion exampleEnv (raxHeader @ plainBundle)
       = Some [(js ''framework'', JStr (js ''Rax'')), (js ''version'', JStr (js ''1.0''))]"
    by blast
  from checkVersion_characterised [of exampleEnv malformedHeader] u p2
  have 2: "checkVersion exampleEnv malformedHeader = None"
    by blast
  from m1 1 m2 p2 2 show ?thesis by blast
qed

text \<open>
  C5 as stated fails. Two texts with the same (empty) first line get different results, so
  more than the first line is inspected; and a first line that is a comment holding one
  JSON object, with a closing brace inside a string, gives no descriptor.
\<close>

theorem checkVersion_first_line_counterexample:
  "firstLine ([0x0A] @ raxHeader) = firstLine ([0x0A] @ plainBundle)
   \<and> checkVersion exampleEnv ([0x0A] @ raxHeader)
       = Some [(js ''framework'', JStr (js ''Rax'')), (js ''version'', JStr (js ''1.0''))]
   \<and> checkVersion exampleEnv ([0x0A] @ plainBundle) = None
   \<and> firstLine (js ''// '' @ braceObject @ [0x0A] @ plainBundle) = js ''// '' @ braceObject
   \<and> JSON_parse (parseNumber exampleEnv) braceObject = Some (JObj [(js ''a'', JStr (js ''}''))])
   \<and> checkVersion exampleEnv (js ''// '' @ braceObject @ [0x0A] @ plainBundle) = None"
  by code_simp

section \<open>Regions and content of the store\<close>

lemma readValue_region:
  assumes "regionClosed lo hi h" and "hi \<le> length h2"
    and "\<forall>b. lo \<le> b \<and> b < hi \<longrightarrow> h2 ! b = h ! b"
    and "refsOfVal v \<subseteq> {lo..<hi}"
  shows "readValue h2 stack v = readValue h stack v"
  using assms
proof (induction h stack v rule: readValue.induct)
  case (6 h stack a)
  from "6.prems" have a: "lo \<le> a" "a < hi" "a < length h" "a < length h2" "h2 ! a = h ! a"
    and refs: "refsOf (h ! a) \<subseteq> {lo..<hi}"
    by (auto simp: regionClosed_def)
  show ?case
  proof (cases "a \<in> set stack")
    case True
    then show ?thesis by simp
  next
    case False
    with a have n: "\<not> (a \<in> set stack \<or> length h \<le> a)" by simp
    show ?thesis
    proof (cases "h ! a")
      case (HObject props)
      have "map_option (Pair (fst p)) (readValue h2 (a # stack) (snd p))
              = map_option (Pair (fst p)) (readValue h (a # stack) (snd p))"
        if "p \<in> set props" for p
      proof -
        from that refs HObject have "refsOfVal (snd p) \<subseteq> {lo..<hi}"
          by (auto simp: refsOfProps_def)
        from "6.IH"(1) [OF n HObject that "6.prems"(1-3) this] show ?thesis by simp
      qed
      then have eq: "map (\<lambda>p. map_option (Pair (fst p)) (readValue h2 (a # stack) (snd p))) props
                   = map (\<lambda>p. map_option (Pair (fst p)) (readValue h (a # stack) (snd p))) props"
        by simp
      from False a HObject show ?thesis by (simp add: eq)
    next
      case (HArray elems props)
      have "readValue h2 (a # stack) x = readValue h (a # stack) x" if "x \<in> set elems" for x
      proof -
        from that refs HArray have "refsOfVal x \<subseteq> {lo..<hi}"
          by auto
        from "6.IH"(2) [OF n HArray that "6.prems"(1-3) this] show ?thesis .
      qed
      then have eq: "map (readValue h2 (a # stack)) elems = map (readValue h (a # stack)) elems"
        by simp
      from False a HArray show ?thesis by (simp add: eq)
    qed
  qed
qed simp_all

lemma regionClosed_append:
  assumes "regionClosed lo (length h) h" and "refsOf cell \<subseteq> {lo..<length h}" and "lo \<le> length h"
  shows "regionClosed lo (length (h @ [cell])) (h @ [cell])"
  unfolding regionClosed_def
proof (intro conjI allI impI)
  fix b
  assume b: "lo \<le> b \<and> b < length (h @ [cell])"
  show "refsOf ((h @ [cell]) ! b) \<subseteq> {lo..<length (h @ [cell])}"
  proof (cases "b < length h")
    case True
    with assms(1) b have "refsOf (h ! b) \<subseteq> {lo..<length h}"
      by (simp add: regionClosed_def)
    with True show ?thesis by (auto simp: nth_append)
  next
    case False
    with b have "b = length h" by simp
    with assms(2) show ?thesis by auto
  qed
qed simp

lemma allocate_region:
  "allocate h t = (h', x) \<Longrightarrow> lo \<le> length h \<Longrightarrow> regionClosed lo (length h) h \<Longrightarrow>
     (\<exists>new. h' = h @ new) \<and> regionClosed lo (length h') h' \<and> refsOfVal x \<subseteq> {lo..<length h'}"
  "allocateList h ts = (h', xs) \<Longrightarrow> lo \<le> length h \<Longrightarrow> regionClosed lo (length h) h \<Longrightarrow>
     (\<exists>new. h' = h @ new) \<and> regionClosed lo (length h') h'
     \<and> (\<Union>x\<in>set xs. refsOfVal x) \<subseteq> {lo..<length h'}"
  "allocateProps h ps = (h', ys) \<Longrightarrow> lo \<le> length h \<Longrightarrow> regionClosed lo (length h) h \<Longrightarrow>
     (\<exists>new. h' = h @ new) \<and> regionClosed lo (length h') h' \<and> refsOfProps ys \<subseteq> {lo..<length h'}"
proof (induction h t and h ts and h ps arbitrary: h' x and h' xs and h' ys
       rule: allocate_allocateList_allocateProps.induct)
  case (6 h vs)
  obtain h1 elems where l: "allocateList h vs = (h1, elems)"
    by (cases "allocateList h vs")
  from "6.IH" [OF l "6.prems"(2,3)] obtain new where
    h1: "h1 = h @ new" "regionClosed lo (length h1) h1" "(\<Union>x\<in>set elems. refsOfVal x) \<subseteq> {lo..<length h1}"
    by blast
  from h1 "6.prems"(2) have "lo \<le> length h1" by simp
  from regionClosed_append [OF h1(2) _ this, of "HArray elems []"] h1(3)
  have "regionClosed lo (length (h1 @ [HArray elems []])) (h1 @ [HArray elems []])"
    by (simp add: refsOfProps_def)
  with "6.prems"(1) l h1 \<open>lo \<le> length h1\<close> show ?case by auto
next
  case (7 h ob)
  obtain h1 props where l: "allocateProps h ob = (h1, props)"
    by (cases "allocateProps h ob")
  from "7.IH" [OF l "7.prems"(2,3)] obtain new where
    h1: "h1 = h @ new" "regionClosed lo (length h1) h1" "refsOfProps props \<subseteq> {lo..<length h1}"
    by blast
  from h1 "7.prems"(2) have "lo \<le> length h1" by simp
  from regionClosed_append [OF h1(2) _ this, of "HObject props"] h1(3)
  have "regionClosed lo (length (h1 @ [HObject props])) (h1 @ [HObject props])"
    by simp
  with "7.prems"(1) l h1 \<open>lo \<le> length h1\<close> show ?case by auto
next
  case (8 h m)
  from regionClosed_append [OF "8.prems"(3) _ "8.prems"(2), of "HObject []"]
  have "regionClosed lo (length (h @ [HObject []])) (h @ [HObject []])"
    by (simp add: refsOfProps_def)
  with 8 show ?case by auto
next
  case (9 h name)
  from regionClosed_append [OF "9.prems"(3) _ "9.prems"(2), of "HObject []"]
  have "regionClosed lo (length (h @ [HObject []])) (h @ [HObject []])"
    by (simp add: refsOfProps_def)
  with 9 show ?case by auto
next
  case (11 h v vs)
  obtain h1 y where a: "allocate h v = (h1, y)" by (cases "allocate h v")
  obtain h2 ys where b: "allocateList h1 vs = (h2, ys)" by (cases "allocateList h1 vs")
  from "11.IH"(1) [OF a "11.prems"(2,3)] obtain new1 where
    h1: "h1 = h @ new1" "regionClosed lo (length h1) h1" "refsOfVal y \<subseteq> {lo..<length h1}"
    by blast
  from h1 "11.prems"(2) have lo1: "lo \<le> length h1" by simp
  from "11.IH"(2) [OF a [symmetric] b lo1 h1(2)] obtain new2 where
    h2: "h2 = h1 @ new2" "regionClosed lo (length h2) h2" "(\<Union>x\<in>set ys. refsOfVal x) \<subseteq> {lo..<length h2}"
    by blast
  from h1(3) h2(1) have "refsOfVal y \<subseteq> {lo..<length h2}" by auto
  with h2(3) have r: "(\<Union>x\<in>set (y # ys). refsOfVal x) \<subseteq> {lo..<length h2}" by simp
  from "11.prems"(1) a b have e: "h' = h2" "xs = y # ys" by simp_all
  from h1(1) h2(1) have "h2 = h @ (new1 @ new2)" by simp
  then have "\<exists>new. h2 = h @ new" ..
  with h2(2) r show ?case unfolding e by blast
next
  case (13 h p ps)
  obtain h1 y where a: "allocate h (snd p) = (h1, y)" by (cases "allocate h (snd p)")
  obtain h2 ys' where b: "allocateProps h1 ps = (h2, ys')" by (cases "allocateProps h1 ps")
  from "13.IH"(1) [OF a "13.prems"(2,3)] obtain new1 where
    h1: "h1 = h @ new1" "regionClosed lo (length h1) h1" "refsOfVal y \<subseteq> {lo..<length h1}"
    by blast
  from h1 "13.prems"(2) have lo1: "lo \<le> length h1" by simp
  from "13.IH"(2) [OF a [symmetric] b lo1 h1(2)] obtain new2 where
    h2: "h2 = h1 @ new2" "regionClosed lo (length h2) h2" "refsOfProps ys' \<subseteq> {lo..<length h2}"
    by blast
  from h1(3) h2(1) have "refsOfVal y \<subseteq> {lo..<length h2}" by auto
  with h2(3) have r: "refsOfProps ((fst p, y) # ys') \<subseteq> {lo..<length h2}"
    by (simp add: refsOfProps_def)
  from "13.prems"(1) a b have e: "h' = h2" "ys = (fst p, y) # ys'" by simp_all
  from h1(1) h2(1) have "h2 = h @ (new1 @ new2)" by simp
  then have "\<exists>new. h2 = h @ new" ..
  with h2(2) r show ?case unfolding e by blast
qed (auto simp: refsOfProps_def)

lemma update_set: "set (AList.update k v ps) \<subseteq> insert (k, v) (set ps)"
  by (induction ps) auto

lemma refsOfProps_update:
  "refsOfProps (AList.update k v ps) \<subseteq> refsOfVal v \<union> refsOfProps ps"
  using update_set [of k v ps] by (fastforce simp: refsOfProps_def)

lemma setField_length [simp]: "length (setField h c n v) = length h"
  by (simp add: setField_def)

lemma setField_take: "k \<le> c \<Longrightarrow> take k (setField h c n v) = take k h"
  by (simp add: setField_def)

lemma setField_region:
  assumes "regionClosed lo (length h) h" and "lo \<le> c" and "c < length h"
    and "refsOfVal v \<subseteq> {lo..<length h}"
  shows "regionClosed lo (length h) (setField h c n v)"
  unfolding regionClosed_def
proof (intro conjI allI impI)
  fix b
  assume b: "lo \<le> b \<and> b < length h"
  with assms(1) have old: "refsOf (h ! b) \<subseteq> {lo..<length h}"
    by (simp add: regionClosed_def)
  show "refsOf (setField h c n v ! b) \<subseteq> {lo..<length h}"
  proof (cases "b = c")
    case False
    with old show ?thesis by (simp add: setField_def)
  next
    case True
    show ?thesis
    proof (cases "h ! c")
      case (HObject props)
      with True assms(3) have "setField h c n v ! b = HObject (AList.update (js n) v props)"
        by (simp add: setField_def)
      with old True HObject assms(4) refsOfProps_update [of "js n" v props] show ?thesis
        by auto
    next
      case (HArray elems props)
      with True assms(3) have "setField h c n v ! b = HArray elems (AList.update (js n) v props)"
        by (simp add: setField_def)
      with old True HArray assms(4) refsOfProps_update [of "js n" v props] show ?thesis
        by auto
    qed
  qed
qed simp

lemma regionClosed_empty: "n \<le> length h \<Longrightarrow> regionClosed n n h"
  by (auto simp: regionClosed_def)

lemma jsonValue_noErr: "noErr (jsonValue t)"
  by (induction t) (auto simp: snds.simps)

lemma allocate_grows:
  assumes "allocate h t = (h', x)"
  shows "\<exists>new. h' = h @ new"
  using allocate_region(1) [OF assms le_refl regionClosed_empty [OF le_refl]] by blast

lemma allocate_fresh:
  assumes "allocate h t = (h', x)"
  shows "regionClosed (length h) (length h') h'" and "refsOfVal x \<subseteq> {length h..<length h'}"
  using allocate_region(1) [OF assms le_refl regionClosed_empty [OF le_refl]] by blast+

lemma allocateList_fresh:
  assumes "allocateList h ts = (h', xs)"
  shows "\<exists>new. h' = h @ new" and "regionClosed (length h) (length h') h'"
    and "\<forall>x\<in>set xs. refsOfVal x \<subseteq> {length h..<length h'}"
  using allocate_region(2) [OF assms le_refl regionClosed_empty [OF le_refl]] by blast+

lemma allocateProps_fresh:
  assumes "allocateProps h ps = (h', ys)"
  shows "\<exists>new. h' = h @ new" and "regionClosed (length h) (length h') h'"
    and "\<forall>p\<in>set ys. refsOfVal (snd p) \<subseteq> {length h..<length h'}"
  using allocate_region(3) [OF assms le_refl regionClosed_empty [OF le_refl]]
  by (auto simp: refsOfProps_def)

lemma readValue_extend:
  assumes "regionClosed lo (length h) h" and "refsOfVal v \<subseteq> {lo..<length h}"
  shows "readValue (h @ new) stack v = readValue h stack v"
  using assms(2) by (intro readValue_region [OF assms(1)]) (auto simp: nth_append)

lemma allocate_read:
  "allocate h t = (h', x) \<Longrightarrow> noErr t
     \<Longrightarrow> \<forall>b\<in>set stack. b < length h \<or> length h' \<le> b
     \<Longrightarrow> readValue h' stack x = Some t"
  "allocateList h ts = (h', xs) \<Longrightarrow> \<forall>t\<in>set ts. noErr t
     \<Longrightarrow> \<forall>b\<in>set stack. b < length h \<or> length h' \<le> b
     \<Longrightarrow> those (map (readValue h' stack) xs) = Some ts"
  "allocateProps h ps = (h', ys) \<Longrightarrow> \<forall>p\<in>set ps. noErr (snd p)
     \<Longrightarrow> \<forall>b\<in>set stack. b < length h \<or> length h' \<le> b
     \<Longrightarrow> those (map (\<lambda>p. map_option (Pair (fst p)) (readValue h' stack (snd p))) ys) = Some ps"
proof (induction h t and h ts and h ps arbitrary: h' x stack and h' xs stack and h' ys stack
       rule: allocate_allocateList_allocateProps.induct)
  case (6 h vs)
  obtain h1 elems where l: "allocateList h vs = (h1, elems)"
    by (cases "allocateList h vs")
  with "6.prems"(1) have e: "h' = h1 @ [HArray elems []]" "x = HRef (length h1)" by simp_all
  from allocateList_fresh [OF l] obtain new where
    f: "h1 = h @ new" "regionClosed (length h) (length h1) h1"
       "\<forall>x\<in>set elems. refsOfVal x \<subseteq> {length h..<length h1}"
    by blast
  from "6.prems"(3) e f(1) have s: "length h1 \<notin> set stack"
    "\<forall>b\<in>set (length h1 # stack). b < length h \<or> length h1 \<le> b"
    by auto
  from "6.prems"(2) have "\<forall>t\<in>set vs. noErr t" by simp
  from "6.IH" [OF l this s(2)]
  have "those (map (readValue h1 (length h1 # stack)) elems) = Some vs" .
  moreover have m: "map (readValue (h1 @ [HArray elems []]) (length h1 # stack)) elems
                      = map (readValue h1 (length h1 # stack)) elems"
    using f by (intro map_cong refl readValue_extend) auto
  ultimately show ?case
    using s(1) by (simp add: e m)
next
  case (7 h ob)
  obtain h1 props where l: "allocateProps h ob = (h1, props)"
    by (cases "allocateProps h ob")
  with "7.prems"(1) have e: "h' = h1 @ [HObject props]" "x = HRef (length h1)" by simp_all
  from allocateProps_fresh [OF l] obtain new where
    f: "h1 = h @ new" "regionClosed (length h) (length h1) h1"
       "\<forall>p\<in>set props. refsOfVal (snd p) \<subseteq> {length h..<length h1}"
    by blast
  from "7.prems"(3) e f(1) have s: "length h1 \<notin> set stack"
    "\<forall>b\<in>set (length h1 # stack). b < length h \<or> length h1 \<le> b"
    by auto
  from "7.prems"(2) have "\<forall>p\<in>set ob. noErr (snd p)" by simp
  from "7.IH" [OF l this s(2)]
  have "those (map (\<lambda>p. map_option (Pair (fst p)) (readValue h1 (length h1 # stack) (snd p))) props)
          = Some ob" .
  moreover have m: "map (\<lambda>p. map_option (Pair (fst p))
                              (readValue (h1 @ [HObject props]) (length h1 # stack) (snd p))) props
                   = map (\<lambda>p. map_option (Pair (fst p)) (readValue h1 (length h1 # stack) (snd p))) props"
    using f
    by (intro map_cong refl arg_cong [where f = "map_option (Pair _)"] readValue_extend) auto
  ultimately show ?case
    using s(1) by (simp add: e m)
next
  case (11 h v vs)
  obtain h1 y where a: "allocate h v = (h1, y)" by (cases "allocate h v")
  obtain h2 ys where b: "allocateList h1 vs = (h2, ys)" by (cases "allocateList h1 vs")
  from "11.prems"(1) a b have e: "h' = h2" "xs = y # ys" by simp_all
  from allocate_grows [OF a] obtain new1 where g1: "h1 = h @ new1" by blast
  from allocateList_fresh(1) [OF b] obtain new2 where g2: "h2 = h1 @ new2" by blast
  from "11.prems"(3) e g1 g2 have s1: "\<forall>b\<in>set stack. b < length h \<or> length h1 \<le> b"
    and s2: "\<forall>b\<in>set stack. b < length h1 \<or> length h2 \<le> b"
    by auto
  from "11.IH"(1) [OF a _ s1] "11.prems"(2) have "readValue h1 stack y = Some v" by simp
  with readValue_extend [OF allocate_fresh [OF a], of new2 stack]
  have 1: "readValue h2 stack y = Some v" by (simp add: g2)
  from "11.IH"(2) [OF a [symmetric] b _ s2] "11.prems"(2)
  have 2: "those (map (readValue h2 stack) ys) = Some vs" by simp
  from 1 2 show ?case by (simp add: e)
next
  case (13 h p ps)
  obtain h1 y where a: "allocate h (snd p) = (h1, y)" by (cases "allocate h (snd p)")
  obtain h2 ys' where b: "allocateProps h1 ps = (h2, ys')" by (cases "allocateProps h1 ps")
  from "13.prems"(1) a b have e: "h' = h2" "ys = (fst p, y) # ys'" by simp_all
  from allocate_grows [OF a] obtain new1 where g1: "h1 = h @ new1" by blast
  from allocateProps_fresh(1) [OF b] obtain new2 where g2: "h2 = h1 @ new2" by blast
  from "13.prems"(3) e g1 g2 have s1: "\<forall>b\<in>set stack. b < length h \<or> length h1 \<le> b"
    and s2: "\<forall>b\<in>set stack. b < length h1 \<or> length h2 \<le> b"
    by auto
  from "13.IH"(1) [OF a _ s1] "13.prems"(2) have "readValue h1 stack y = Some (snd p)" by simp
  with readValue_extend [OF allocate_fresh [OF a], of new2 stack]
  have 1: "readValue h2 stack y = Some (snd p)" by (simp add: g2)
  from "13.IH"(2) [OF a [symmetric] b _ s2] "13.prems"(2)
  have 2: "those (map (\<lambda>p. map_option (Pair (fst p)) (readValue h2 stack (snd p))) ys') = Some ps"
    by simp
  from 1 2 show ?case by (simp add: e)
qed simp_all

lemma those_update:
  assumes "those (map (\<lambda>p. map_option (Pair (fst p)) (R (snd p))) ps) = Some ts"
    and "R x = Some t"
  shows "those (map (\<lambda>p. map_option (Pair (fst p)) (R (snd p))) (AList.update k x ps))
           = Some (AList.update k t ts)"
  using assms(1)
proof (induction ps arbitrary: ts)
  case Nil
  with assms(2) show ?case by simp
next
  case (Cons p ps)
  from Cons.prems obtain tp ts' where
    p: "R (snd p) = Some tp" and r: "those (map (\<lambda>p. map_option (Pair (fst p)) (R (snd p))) ps) = Some ts'"
    and ts: "ts = (fst p, tp) # ts'"
    by (auto split: option.splits)
  from Cons.IH [OF r] p r assms(2) show ?case
    by (cases p) (simp add: ts)
qed

lemma reduce_noErr:
  assumes "reduce v st = Some (m', st')" and "noErr v" and "framesNoErr m st"
  shows "framesNoErr m' st'"
proof (cases "(v, st)" rule: reduce.cases)
  case (3 v' ob k st0)
  with assms update_set [of k v ob] show ?thesis
    by (fastforce simp: framesNoErr_def)
qed (use assms in \<open>auto simp: framesNoErr_def\<close>)

lemma framesNoErr_mode: "framesNoErr m st \<Longrightarrow> (\<And>v. m' \<noteq> PDone v) \<Longrightarrow> framesNoErr m' st"
  by (cases m') (auto simp: framesNoErr_def)

lemma framesNoErr_pop:
  "framesNoErr m (f # st) \<Longrightarrow> framesNoErr PNext st"
  "framesNoErr m (ArrF vs # st) \<Longrightarrow> noErr (JArr vs)"
  "framesNoErr m (ObjF ob # st) \<Longrightarrow> noErr (JObj ob)"
  by (auto simp: framesNoErr_def)

lemma pstep_noErr:
  assumes "framesNoErr m st" and "pstep s2n m st t = Some (m', st')"
  shows "framesNoErr m' st'"
proof -
  have close_arr: "framesNoErr m' st'"
    if "st = ArrF vs # st0" "reduce (JArr vs) st0 = Some (m', st')" for vs st0
    using that assms(1) framesNoErr_pop(1,2) [of m _ st0]
    by (intro reduce_noErr [OF that(2)]) auto
  have close_obj: "framesNoErr m' st'"
    if "st = ObjF ob # st0" "reduce (JObj ob) st0 = Some (m', st')" for ob st0
    using that assms(1) framesNoErr_pop(1,3) [of m _ st0]
    by (intro reduce_noErr [OF that(2)]) auto
  have val: "framesNoErr m' st'" if "reduce v st = Some (m', st')" "noErr v" for v
    using that assms(1) by (intro reduce_noErr [OF that(1)]) auto
  have push: "framesNoErr m2 (f # st)"
    if "f = ArrF [] \<or> f = ObjF []" "\<And>v. m2 \<noteq> PDone v" for f m2
    using that assms(1) by (cases m2) (auto simp: framesNoErr_def)
  have key: "framesNoErr PColon (ObjKeyF ob k # st0)" if "st = ObjF ob # st0" for ob k st0
    using that assms(1) by (auto simp: framesNoErr_def)
  have same: "framesNoErr m2 st" if "\<And>v. m2 \<noteq> PDone v" for m2
    using assms(1) that by (rule framesNoErr_mode)
  show ?thesis
  proof (cases m)
    case (PDone v)
    with assms(2) show ?thesis by (simp add: pstep_def)
  next
    case PColon
    with assms(2) same [of PValue] show ?thesis
      by (auto simp: pstep_def split: token.splits)
  next
    case PKey
    with assms(2) key show ?thesis
      by (auto simp: pstep_def split: token.splits list.splits frame.splits)
  next
    case PKeyOrEnd
    with assms(2) key close_obj show ?thesis
      by (auto simp: pstep_def split: token.splits list.splits frame.splits)
  next
    case PNext
    with assms(2) same [of PValue] same [of PKey] close_obj close_arr show ?thesis
      by (auto simp: pstep_def split: token.splits list.splits frame.splits)
  next
    case PValue
    with assms(2) val push [of _ PValueOrEnd] push [of _ PKeyOrEnd] show ?thesis
      by (cases t) (auto simp: pstep_def)
  next
    case PValueOrEnd
    with assms(2) val push [of _ PValueOrEnd] push [of _ PKeyOrEnd] close_arr show ?thesis
      by (cases t) (auto simp: pstep_def split: list.splits frame.splits)
  qed
qed

lemma parseTokens_noErr:
  assumes "framesNoErr m st" and "parseTokens s2n m st ts = Some v"
  shows "noErr v"
  using assms
proof (induction ts arbitrary: m st)
  case Nil
  then show ?case by (auto simp: framesNoErr_def split: pmode.splits)
next
  case (Cons t ts)
  from Cons.prems(2) obtain m' st' where
    s: "pstep s2n m st t = Some (m', st')" and p: "parseTokens s2n m' st' ts = Some v"
    by (auto split: option.splits)
  from Cons.IH [OF pstep_noErr [OF Cons.prems(1) s] p] show ?case .
qed

lemma JSON_parse_noErr: "JSON_parse s2n text = Some v \<Longrightarrow> noErr v"
  by (auto simp: JSON_parse_def framesNoErr_def split: option.splits
        intro: parseTokens_noErr [of PValue "[]"])

lemma those_lookup:
  assumes "those (map (\<lambda>p. map_option (Pair (fst p)) (R (snd p))) ps) = Some ts"
  shows "(case map_of ps k of
            Some x \<Rightarrow> \<exists>t. R x = Some t \<and> map_of ts k = Some t
          | None \<Rightarrow> map_of ts k = None)"
  using assms
proof (induction ps arbitrary: ts)
  case Nil
  then show ?case by simp
next
  case (Cons p ps)
  from Cons.prems obtain tp ts' where
    p: "R (snd p) = Some tp" and r: "those (map (\<lambda>p. map_option (Pair (fst p)) (R (snd p))) ps) = Some ts'"
    and ts: "ts = (fst p, tp) # ts'"
    by (auto split: option.splits)
  from Cons.IH [OF r] p show ?case
    by (cases p) (auto simp: ts split: option.splits)
qed

lemma getField_refs:
  assumes "regionClosed lo (length h) h" and "refsOfVal r \<subseteq> {lo..<length h}"
  shows "refsOfVal (getField h r name) \<subseteq> {lo..<length h}"
proof (cases r)
  case (HRef a)
  with assms have a: "lo \<le> a" "a < length h" and refs: "refsOf (h ! a) \<subseteq> {lo..<length h}"
    by (auto simp: regionClosed_def)
  show ?thesis
  proof (cases "map_of (case h ! a of HObject props \<Rightarrow> props | HArray elems props \<Rightarrow> props) (js name)")
    case None
    with HRef a show ?thesis by (simp add: getField_def)
  next
    case (Some x)
    from map_of_SomeD [OF Some] refs have "refsOfVal x \<subseteq> {lo..<length h}"
      by (cases "h ! a") (force simp: refsOfProps_def)+
    with HRef a Some show ?thesis by (simp add: getField_def)
  qed
qed (simp_all add: getField_def)

lemma allocate_object_field:
  assumes a: "allocate h (JObj ob) = (h1, r)"
    and n: "\<forall>p\<in>set ob. noErr (snd p)"
    and s: "\<forall>b\<in>set stack. length h1 \<le> b"
  shows "readValue h1 stack (getField h1 r name) = Some (getProp ob name)"
proof -
  obtain h0 props where l: "allocateProps h ob = (h0, props)"
    by (cases "allocateProps h ob")
  with a have e: "h1 = h0 @ [HObject props]" "r = HRef (length h0)" by simp_all
  from s e have s0: "\<forall>b\<in>set stack. b < length h \<or> length h0 \<le> b" by auto
  from allocate_read(3) [OF l n s0]
  have t: "those (map (\<lambda>p. map_option (Pair (fst p)) (readValue h0 stack (snd p))) props) = Some ob" .
  from allocateProps_fresh [OF l] have
    f: "regionClosed (length h) (length h0) h0" "\<forall>p\<in>set props. refsOfVal (snd p) \<subseteq> {length h..<length h0}"
    by blast+
  have g: "getField h1 r name = (case map_of props (js name) of Some x \<Rightarrow> x | None \<Rightarrow> HUndefined)"
    by (simp add: getField_def e)
  show ?thesis
  proof (cases "map_of props (js name)")
    case None
    with those_lookup [OF t, of "js name"] g show ?thesis
      by (simp add: getProp_def)
  next
    case (Some x)
    with those_lookup [OF t, of "js name"] obtain v where
      v: "readValue h0 stack x = Some v" "map_of ob (js name) = Some v"
      by auto
    from map_of_SomeD [OF Some] f(2) have "refsOfVal x \<subseteq> {length h..<length h0}"
      by force
    from readValue_extend [OF f(1) this, of "[HObject props]" stack] v(1)
    have "readValue h1 stack x = Some v" by (simp add: e)
    with Some g v(2) show ?thesis by (simp add: getProp_def)
  qed
qed

lemma environmentContent_frame:
  assumes closed: "regionClosed 0 (length h) h"
    and wx: "environmentContent env h = Some w"
    and old: "length h \<le> length h2" "\<forall>b. b < length h \<longrightarrow> h2 ! b = h ! b"
  shows "environmentContent env h2 = Some w"
proof (cases "WXEnvironment env")
  case (HRef a)
  have tv: "truthyValue (HRef a)"
    by (simp add: truthyValue_def)
  with HRef wx have r: "readValue h [] (HRef a) = Some w"
    by (simp add: environmentContent_def del: readValue.simps)
  then have "a < length h"
    by (auto split: if_splits)
  with old have "readValue h2 [] (HRef a) = readValue h [] (HRef a)"
    by (intro readValue_region [OF closed]) auto
  with HRef r tv show ?thesis
    by (simp add: environmentContent_def del: readValue.simps)
qed (use wx in \<open>auto simp: environmentContent_def split: if_splits\<close>)

lemma snapshotConfig_cases:
  assumes "snapshotConfig env h config version = (Inr c, h')"
  obtains content h1 wx h3 e where
    "callerContent h config = Some content"
    "allocate h (jsonValue content) = (h1, HRef c)"
    "environmentContent env (setField h1 c ''bundleVersion'' version) = Some wx"
    "allocate (setField h1 c ''bundleVersion'' version) (jsonValue wx) = (h3, e)"
    "h' = setField h3 c ''env'' e"
  using assms
  by (auto simp: snapshotConfig_def Let_def
        split: option.splits prod.splits hval.splits)

lemma snapshotConfig_region:
  assumes snap: "snapshotConfig env h config version = (Inr c, h')"
    and closed: "regionClosed lo (length h) h" and lo: "lo \<le> length h"
    and vrefs: "refsOfVal version \<subseteq> {lo..<length h}"
  shows "take (length h) h' = h \<and> length h \<le> c \<and> c < length h'
         \<and> regionClosed lo (length h') h'"
proof -
  let ?n = "length h"
  from snap obtain content h1 wx h3 e where
    a1: "allocate h (jsonValue content) = (h1, HRef c)"
    and a3: "allocate (setField h1 c ''bundleVersion'' version) (jsonValue wx) = (h3, e)"
    and h': "h' = setField h3 c ''env'' e"
    by (rule snapshotConfig_cases)
  from allocate_region(1) [OF a1 lo closed] allocate_fresh(2) [OF a1] obtain new1 where
    1: "h1 = h @ new1" "regionClosed lo (length h1) h1" "?n \<le> c" "c < length h1"
    by auto
  from 1 lo have lc: "lo \<le> c" and n1: "lo \<le> length h1" by simp_all
  from vrefs 1(1) have v1: "refsOfVal version \<subseteq> {lo..<length h1}" by auto
  let ?h2 = "setField h1 c ''bundleVersion'' version"
  from setField_region [OF 1(2) lc 1(4) v1]
  have r2: "regionClosed lo (length ?h2) ?h2" by simp
  from n1 have n2: "lo \<le> length ?h2" by simp
  from allocate_region(1) [OF a3 n2 r2] obtain new3 where
    3: "h3 = ?h2 @ new3" "regionClosed lo (length h3) h3" "refsOfVal e \<subseteq> {lo..<length h3}"
    by auto
  from 3 1(4) have c3: "c < length h3" by simp
  from setField_region [OF 3(2) lc c3 3(3)]
  have r3: "regionClosed lo (length h') h'" by (simp add: h')
  have "take ?n h' = take ?n h3"
    unfolding h' by (rule setField_take [OF 1(3)])
  also have "\<dots> = take ?n ?h2"
    using 3(1) 1(1) by simp
  also have "\<dots> = take ?n h1"
    by (rule setField_take [OF 1(3)])
  also have "\<dots> = h"
    using 1(1) by simp
  finally have "take ?n h' = h" .
  with r3 1(3) c3 show ?thesis by (simp add: h')
qed

lemma snapshotConfig_content:
  assumes snap: "snapshotConfig env h config version = (Inr c, h')"
    and content: "callerContent h config = Some (JObj ob)"
    and closed: "regionClosed lo (length h) h"
    and vrefs: "refsOfVal version \<subseteq> {lo..<length h}"
    and vread: "\<forall>stack. (\<forall>b\<in>set stack. length h \<le> b) \<longrightarrow> readValue h stack version = Some v"
    and wx: "\<forall>h2. length h \<le> length h2 \<longrightarrow> (\<forall>b. b < length h \<longrightarrow> h2 ! b = h ! b) \<longrightarrow>
                environmentContent env h2 = Some w"
  shows "readValue h' [] (HRef c) =
           Some (JObj (setProp (setProp (jsonObject ob) ''bundleVersion'' v) ''env'' (jsonValue w)))"
proof -
  let ?wx = "jsonValue w"
  obtain h0 props where a0: "allocateProps h (jsonObject ob) = (h0, props)"
    by (cases "allocateProps h (jsonObject ob)")
  define h1 where "h1 = h0 @ [HObject props]"
  define h2 where "h2 = setField h1 (length h0) ''bundleVersion'' version"
  obtain h3 e where a3: "allocate h2 ?wx = (h3, e)"
    by (cases "allocate h2 ?wx")
  from snap content a0 have c: "c = length h0"
    by (auto simp: snapshotConfig_def Let_def jsonObject_def split: option.splits prod.splits)
  from allocateProps_fresh(1) [OF a0] obtain new0 where g0: "h0 = h @ new0" by blast
  have "length h \<le> length h2" "\<forall>b. b < length h \<longrightarrow> h2 ! b = h ! b"
    by (simp_all add: h2_def h1_def g0 setField_def nth_append)
  with wx have "environmentContent env h2 = Some w"
    by blast
  with snap content a0 a3 have h': "h' = setField h3 c ''env'' e"
    by (auto simp: snapshotConfig_def Let_def jsonObject_def h1_def h2_def)
  from allocate_grows [OF a3] obtain new3 where g3: "h3 = h2 @ new3" by blast
  have len: "length h \<le> length h0" "length h1 = Suc (length h0)" "length h2 = length h1"
    "length h2 \<le> length h3"
    by (simp_all add: h1_def h2_def g0 g3)
  have cell: "h' ! c = HObject (AList.update (js ''env'') e (AList.update (js ''bundleVersion'') version props))"
    using len by (simp add: h' c setField_def g3 h2_def h1_def nth_append)
  have clen: "c < length h'"
    using len by (simp add: h' c)
  \<comment> \<open>the properties copied from the caller's object\<close>
  have "\<forall>p\<in>set (jsonObject ob). noErr (snd p)"
    using jsonValue_noErr [of "JObj ob"] by (simp add: jsonObject_def)
  from allocate_read(3) [OF a0 this, of "[c]"]
  have r0: "those (map (\<lambda>p. map_option (Pair (fst p)) (readValue h0 [c] (snd p))) props)
              = Some (jsonObject ob)"
    by (simp add: c)
  have agree0: "h' ! b = h0 ! b" if "b < length h0" for b
    using that len by (simp add: h' c setField_def g3 h2_def h1_def nth_append)
  have m: "map (\<lambda>p. map_option (Pair (fst p)) (readValue h' [c] (snd p))) props
          = map (\<lambda>p. map_option (Pair (fst p)) (readValue h0 [c] (snd p))) props"
    using allocateProps_fresh [OF a0] agree0 clen c
    by (intro map_cong refl arg_cong [where f = "map_option (Pair _)"]
          readValue_region [of "length h" "length h0" h0])
       auto
  from r0 have p: "those (map (\<lambda>p. map_option (Pair (fst p)) (readValue h' [c] (snd p))) props)
              = Some (jsonObject ob)"
    by (simp only: m)
  \<comment> \<open>the version\<close>
  from vread len have rv0: "readValue h [c] version = Some v"
    by (simp add: c)
  have "h' ! b = h ! b" if "b < length h" for b
    using that len by (simp add: h' c setField_def g3 h2_def h1_def g0 nth_append)
  moreover have "length h \<le> length h'"
    using len by (simp add: h')
  ultimately have "readValue h' [c] version = readValue h [c] version"
    using closed vrefs
    by (intro readValue_region [of lo "length h" h]) auto
  with rv0 have rv: "readValue h' [c] version = Some v" by simp
  \<comment> \<open>the environment\<close>
  from allocate_read(1) [OF a3 jsonValue_noErr, of "[c]"] len
  have "readValue h3 [c] e = Some ?wx"
    by (simp add: c)
  moreover have "h' ! b = h3 ! b" if "length h2 \<le> b" "b < length h3" for b
    using that len by (simp add: h' c setField_def)
  then have "readValue h' [c] e = readValue h3 [c] e"
    using allocate_fresh [OF a3]
    by (intro readValue_region [of "length h2" "length h3" h3]) (auto simp: h')
  ultimately have re: "readValue h' [c] e = Some ?wx" by simp
  from those_update [of "readValue h' [c]", OF those_update [of "readValue h' [c]", OF p rv] re]
  show ?thesis
    using clen by (simp add: cell setProp_def)
qed

lemma snapshotConfig_succeeds:
  assumes content: "callerContent h config = Some (JObj ob)"
    and wx: "\<forall>h2. length h \<le> length h2 \<longrightarrow> (\<forall>b. b < length h \<longrightarrow> h2 ! b = h ! b) \<longrightarrow>
                environmentContent env h2 = Some w"
  shows "\<exists>c h'. snapshotConfig env h config version = (Inr c, h')"
proof -
  obtain h0 props where a0: "allocateProps h (jsonObject ob) = (h0, props)"
    by (cases "allocateProps h (jsonObject ob)")
  from allocateProps_fresh(1) [OF a0] obtain new0 where g0: "h0 = h @ new0" by blast
  let ?h2 = "setField (h0 @ [HObject props]) (length h0) ''bundleVersion'' version"
  have "length h \<le> length ?h2" "\<forall>b. b < length h \<longrightarrow> ?h2 ! b = h ! b"
    by (simp_all add: g0 setField_def nth_append)
  with wx have "environmentContent env ?h2 = Some w"
    by blast
  with content a0 show ?thesis
    by (auto simp: snapshotConfig_def Let_def jsonObject_def split: prod.splits)
qed

section \<open>Instance creation\<close>

lemma getProp_setProp:
  "getProp (setProp ob n v) n' = (if js n = js n' then v else getProp ob n')"
  by (simp add: getProp_def setProp_def update_conv')

lemma getProp_Nil [simp]: "getProp [] n = JUndefined"
  by (simp add: getProp_def)

lemma js_names [simp]:
  "js ''created'' \<noteq> js ''version''" "js ''framework'' \<noteq> js ''version''"
  "js ''created'' \<noteq> js ''framework''" "js ''env'' \<noteq> js ''bundleVersion''"
  by (simp_all add: js_def)

lemma newInfo_version:
  "getProp (newInfo env s code) ''version'' =
     (case checkVersion env code of None \<Rightarrow> JUndefined | Some ob \<Rightarrow> getProp ob ''version'')"
  by (simp add: newInfo_def Let_def getProp_setProp split: option.splits)

lemma newInfo_framework:
  "getProp (newInfo env s code) ''framework'' =
     (let declared = (case checkVersion env code of None \<Rightarrow> JUndefined | Some ob \<Rightarrow> getProp ob ''framework'')
      in case lookupFramework env s declared of None \<Rightarrow> JStr (js ''Weex'') | Some _ \<Rightarrow> declared)"
  by (simp add: newInfo_def Let_def getProp_setProp split: option.splits)

text \<open>
  The record for a header whose declared backend \<^verbatim>\<open>frameworks[info.framework]\<close> does not
  find: the backend is \<^verbatim>\<open>Weex\<close> and the declared version stays.
\<close>

lemma newInfo_fallback:
  assumes "checkVersion env code = Some descriptor"
    and "lookupFramework env s (getProp descriptor ''framework'') = None"
  shows "getProp (newInfo env s code) ''framework'' = JStr (js ''Weex'')"
    and "getProp (newInfo env s code) ''version'' = getProp descriptor ''version''"
  using assms by (simp_all add: newInfo_framework newInfo_version)

lemma createServices_calls:
  "\<exists>evs. calls (snd (createServices args i svcs so s)) = calls s @ evs
         \<and> (\<forall>ev\<in>set evs. \<exists>j. ev = ServiceCall j ''create'' args)"
proof (induction args i svcs so s rule: createServices.induct)
  case (1 args i so s)
  then show ?case by simp
next
  case (2 args i svc svcs so s)
  show ?case
  proof (cases "create svc")
    case None
    with 2 show ?thesis by simp
  next
    case (Some f)
    show ?thesis
    proof (cases "f args")
      case (Inl e)
      with Some show ?thesis by simp
    next
      case (Inr r)
      from "2.IH"(2) [OF Some Inr] obtain evs where
        "calls (snd (createServices args (Suc i) svcs (Object_assign so r)
                       (logCall (ServiceCall i ''create'' args) s)))
           = calls (logCall (ServiceCall i ''create'' args) s) @ evs"
        and "\<forall>ev\<in>set evs. \<exists>j. ev = ServiceCall j ''create'' args"
        by blast
      with Some Inr show ?thesis
        by (intro exI [of _ "ServiceCall i ''create'' args # evs"]) simp
    qed
  qed
qed

lemma createServices_returns:
  assumes "\<forall>svc\<in>set svcs. \<forall>f. create svc = Some f \<longrightarrow> (\<exists>r. f args = Inr r)"
  shows "\<exists>so'. createServices args i svcs so s =
           (Inr so', s\<lparr>calls := calls s @ map (\<lambda>k. ServiceCall (i + k) ''create'' args)
                                             (hookIndices create svcs)\<rparr>)"
  using assms
proof (induction svcs arbitrary: i so s)
  case Nil
  then show ?case by simp
next
  case (Cons svc svcs)
  show ?case
  proof (cases "create svc")
    case None
    with Cons.IH [of "Suc i" so s] Cons.prems show ?thesis
      by (simp add: hookIndices_Cons comp_def)
  next
    case (Some f)
    with Cons.prems obtain r where r: "f args = Inr r" by auto
    from Cons.IH [of "Suc i" "Object_assign so r" "logCall (ServiceCall i ''create'' args) s"] Cons.prems
    obtain so' where
      "createServices args (Suc i) svcs (Object_assign so r) (logCall (ServiceCall i ''create'' args) s) =
         (Inr so', (logCall (ServiceCall i ''create'' args) s)
            \<lparr>calls := calls (logCall (ServiceCall i ''create'' args) s)
               @ map (\<lambda>k. ServiceCall (Suc i + k) ''create'' args) (hookIndices create svcs)\<rparr>)"
      by auto
    with Some r show ?thesis
      by (simp add: hookIndices_Cons comp_def logCall_def)
  qed
qed

lemma newInfo_noErr: "\<forall>p\<in>set (newInfo env s code). noErr (snd p)"
proof -
  let ?info = "case checkVersion env code of Some ob \<Rightarrow> ob | None \<Rightarrow> []"
  have 0: "\<forall>p\<in>set ?info. noErr (snd p)"
  proof (cases "checkVersion env code")
    case None
    then show ?thesis by simp
  next
    case (Some ob)
    then obtain g where "JSON_parse (parseNumber env) g = Some (JObj ob)"
      by (auto simp: checkVersion_def split: option.splits jsval.splits)
    from JSON_parse_noErr [OF this] Some show ?thesis by simp
  qed
  have u: "\<forall>p\<in>set (setProp ob n v). noErr (snd p)"
    if "\<forall>p\<in>set ob. noErr (snd p)" "noErr v" for ob n v
    using that update_set [of "js n" v ob] by (auto simp: setProp_def)
  let ?info1 = "case lookupFramework env s (getProp ?info ''framework'') of
                  None \<Rightarrow> setProp ?info ''framework'' (JStr (js ''Weex''))
                | Some _ \<Rightarrow> ?info"
  have 1: "\<forall>p\<in>set ?info1. noErr (snd p)"
  proof (cases "lookupFramework env s (getProp ?info ''framework'')")
    case None
    with u [OF 0, of "JStr (js ''Weex'')" "''framework''"] show ?thesis by simp
  next
    case (Some fw)
    with 0 show ?thesis by simp
  qed
  have "newInfo env s code = setProp ?info1 ''created'' (JNum (now env))"
    by (simp add: newInfo_def Let_def)
  with u [OF 1, of "JNum (now env)" "''created''"] show ?thesis by simp
qed

lemma initConfig_content:
  "initConfig w (Some ob) info =
     setProp (setProp (jsonObject ob) ''bundleVersion'' (getProp info ''version'')) ''env'' (jsonValue w)"
  "initConfig w None info = initConfig w (Some []) info"
  by (simp_all add: initConfig_def Let_def)

text \<open>
  \<open>createInstance\<close> on an id that \<^verbatim>\<open>instanceMap[id]\<close> does not find, with a well-formed
  store, a configuration and a \<^verbatim>\<open>WXEnvironment\<close> that can be read:
  the store after the call, the address of the new configuration, its content, and
  what happens next.
\<close>

lemma createInstance_fresh:
  assumes fresh: "lookupInstance s id' = None"
    and closed: "regionClosed 0 (length (heap s)) (heap s)"
    and content: "callerContent (heap s) config = Some (JObj ob)"
    and wx: "environmentContent env (heap s) = Some w"
  shows "\<exists>c h'. take (length (heap s)) h' = heap s \<and> length (heap s) \<le> c \<and> c < length h'
           \<and> regionClosed (length (heap s)) (length h') h'
           \<and> readValue h' [] (HRef c) = Some (JObj (initConfig w (Some ob) (newInfo env s code)))
           \<and> createInstance env id' code config data s =
               (case createServices
                       [JStr id', instanceContext env (JObj (newInfo env s code)),
                        JObj (initConfig w (Some ob) (newInfo env s code))] 0
                       (services env) []
                       (s\<lparr>instanceMap := (instanceMap s)(id' \<mapsto> newInfo env s code), heap := h'\<rparr>) of
                  (Inl e, s2) \<Rightarrow> (Inl e, s2)
                | (Inr serviceObjects, s2) \<Rightarrow>
                    callFramework env (getProp (newInfo env s code) ''framework'') ''createInstance''
                      [JStr id', JStr code, JObj (initConfig w (Some ob) (newInfo env s code)), data,
                       JObj serviceObjects] s2)"
proof -
  let ?h = "heap s" and ?info = "newInfo env s code"
  obtain h1 infoRef where a: "allocate ?h (JObj ?info) = (h1, infoRef)"
    by (cases "allocate ?h (JObj ?info)")
  let ?v = "getField h1 infoRef ''version''"
  from allocate_grows [OF a] obtain new1 where g1: "h1 = ?h @ new1" by blast
  from allocate_fresh [OF a] have
    f1: "regionClosed (length ?h) (length h1) h1" "refsOfVal infoRef \<subseteq> {length ?h..<length h1}"
    by blast+
  from g1 have n1: "length ?h \<le> length h1" by simp
  from getField_refs [OF f1] have vrefs: "refsOfVal ?v \<subseteq> {length ?h..<length h1}" .
  have vread: "\<forall>stack. (\<forall>b\<in>set stack. length h1 \<le> b) \<longrightarrow>
                 readValue h1 stack ?v = Some (getProp ?info ''version'')"
    using allocate_object_field [OF a newInfo_noErr] by blast
  have content1: "callerContent h1 config = Some (JObj ob)"
  proof (cases config)
    case None
    with content show ?thesis by (simp add: callerContent_def)
  next
    case (Some a0)
    with content have "a0 < length ?h"
      by (auto simp: callerContent_def split: if_splits)
    then have "readValue (?h @ new1) [] (HRef a0) = readValue ?h [] (HRef a0)"
      by (intro readValue_extend [OF closed]) simp
    with Some content show ?thesis by (simp add: callerContent_def g1)
  qed
  have wx1: "\<forall>h2. length h1 \<le> length h2 \<longrightarrow> (\<forall>b. b < length h1 \<longrightarrow> h2 ! b = h1 ! b) \<longrightarrow>
                environmentContent env h2 = Some w"
  proof (intro allI impI)
    fix h2
    assume l: "length h1 \<le> length h2" and o: "\<forall>b. b < length h1 \<longrightarrow> h2 ! b = h1 ! b"
    from l n1 have "length ?h \<le> length h2" by simp
    moreover from o g1 have "\<forall>b. b < length ?h \<longrightarrow> h2 ! b = ?h ! b"
      by (auto simp: nth_append)
    ultimately show "environmentContent env h2 = Some w"
      by (rule environmentContent_frame [OF closed wx])
  qed
  from snapshotConfig_succeeds [OF content1 wx1] obtain c h' where
    snap: "snapshotConfig env h1 config ?v = (Inr c, h')"
    by blast
  from snapshotConfig_region [OF snap f1(1) n1 vrefs] have
    r: "take (length h1) h' = h1" "length h1 \<le> c" "c < length h'"
       "regionClosed (length ?h) (length h') h'"
    by simp_all
  have "take (length ?h) (take (length h1) h') = take (length ?h) h'"
    using n1 by (simp add: min_def)
  with r(1) g1 have t: "take (length ?h) h' = ?h"
    by simp
  from snapshotConfig_content [OF snap content1 f1(1) vrefs vread wx1]
  have rd: "readValue h' [] (HRef c) = Some (JObj (initConfig w (Some ob) ?info))"
    by (simp add: initConfig_content)
  then have ca: "contentAt h' c = JObj (initConfig w (Some ob) ?info)"
    by (simp add: contentAt_def)
  from createInstance_unfold [OF fresh a snap, of data]
  have "createInstance env id' code config data s =
               (case createServices
                       [JStr id', instanceContext env (JObj ?info), JObj (initConfig w (Some ob) ?info)] 0
                       (services env) []
                       (s\<lparr>instanceMap := (instanceMap s)(id' \<mapsto> ?info), heap := h'\<rparr>) of
                  (Inl e, s2) \<Rightarrow> (Inl e, s2)
                | (Inr serviceObjects, s2) \<Rightarrow>
                    callFramework env (getProp ?info ''framework'') ''createInstance''
                      [JStr id', JStr code, JObj (initConfig w (Some ob) ?info), data,
                       JObj serviceObjects] s2)"
    by (simp add: ca cong: prod.case_cong sum.case_cong)
  with t r(2-4) n1 rd show ?thesis
    by (intro exI [of _ c] exI [of _ h']) simp
qed

text \<open>
  C6 on the code, at an id that is the name of a property of \<^verbatim>\<open>Object.prototype\<close>. Both
  backends are registered and no instance has been created. For the id
  \<^verbatim>\<open>"constructor"\<close>, \<^verbatim>\<open>instanceMap[id]\<close> finds the function \<^verbatim>\<open>Object\<close>, and
  \<^verbatim>\<open>createInstance\<close> on the Rax bundle takes the id for one that has a record: it returns
  the error value, stores no record and calls nothing. For the id \<^verbatim>\<open>"1"\<close> the same call
  binds the instance to \<^verbatim>\<open>Rax\<close> and hands the configuration with \<^verbatim>\<open>bundleVersion\<close>
  \<^verbatim>\<open>"1.0"\<close> to the two create hooks and to \<^verbatim>\<open>Rax\<close>. A second slip of the same kind:
  for a bundle without header \<^verbatim>\<open>frameworks[info.framework]\<close> reads
  \<^verbatim>\<open>frameworks["undefined"]\<close>, so that where a backend is registered under the name
  \<^verbatim>\<open>undefined\<close> the record gets no \<^verbatim>\<open>framework\<close> and that backend creates the instance,
  not \<^verbatim>\<open>Weex\<close>.
\<close>

theorem createInstance_refuses_inherited_id:
  "map fst (frameworks (startState twoBackends)) = [js ''Weex'', js ''Rax'']
   \<and> instanceMap (startState twoBackends) (js ''constructor'') = None
   \<and> fst (createInstance exampleEnv (js ''constructor'') (raxHeader @ plainBundle) None JNull
             (startState twoBackends))
       = Inr (invalidInstanceId (js ''constructor''))
   \<and> instanceMap (snd (createInstance exampleEnv (js ''constructor'') (raxHeader @ plainBundle) None JNull
                          (startState twoBackends))) (js ''constructor'')
       = None
   \<and> calls (snd (createInstance exampleEnv (js ''constructor'') (raxHeader @ plainBundle) None JNull
                    (startState twoBackends)))
       = calls (startState twoBackends)
   \<and> instanceMap (snd (createInstance exampleEnv (js ''1'') (raxHeader @ plainBundle) None JNull
                          (startState twoBackends))) (js ''1'')
       = Some [(js ''framework'', JStr (js ''Rax'')), (js ''version'', JStr (js ''1.0'')), (js ''created'', JNum 0)]
   \<and> drop (length (calls (startState twoBackends)))
        (calls (snd (createInstance exampleEnv (js ''1'') (raxHeader @ plainBundle) None JNull
                       (startState twoBackends))))
       = [ServiceCall 0 ''create'' [JStr (js ''1''), JObj [(js ''info'', JObj [(js ''framework'', JStr (js ''Rax'')), (js ''version'', JStr (js ''1.0'')), (js ''created'', JNum 0)]), (js ''runtime'', JObj [])], JObj [(js ''bundleVersion'', JStr (js ''1.0'')), (js ''env'', JObj [])]],
          ServiceCall 2 ''create'' [JStr (js ''1''), JObj [(js ''info'', JObj [(js ''framework'', JStr (js ''Rax'')), (js ''version'', JStr (js ''1.0'')), (js ''created'', JNum 0)]), (js ''runtime'', JObj [])], JObj [(js ''bundleVersion'', JStr (js ''1.0'')), (js ''env'', JObj [])]],
          FrameworkCall (js ''Rax'') ''createInstance''
            [JStr (js ''1''), JStr (raxHeader @ plainBundle), JObj [(js ''bundleVersion'', JStr (js ''1.0'')), (js ''env'', JObj [])], JNull, JObj [(js ''a'', JBool True)]]]
   \<and> map fst (frameworks (startState undefinedNamed)) = [js ''undefined'', js ''Weex'']
   \<and> checkVersion exampleEnv plainBundle = None
   \<and> instanceMap (snd (createInstance exampleEnv (js ''1'') plainBundle None JNull
                          (startState undefinedNamed))) (js ''1'')
       = Some [(js ''created'', JNum 0)]
   \<and> drop (length (calls (startState undefinedNamed)))
        (calls (snd (createInstance exampleEnv (js ''1'') plainBundle None JNull
                       (startState undefinedNamed))))
       = [ServiceCall 0 ''create'' [JStr (js ''1''), JObj [(js ''info'', JObj [(js ''created'', JNum 0)]), (js ''runtime'', JObj [])], JObj [(js ''bundleVersion'', JUndefined), (js ''env'', JObj [])]],
          ServiceCall 2 ''create'' [JStr (js ''1''), JObj [(js ''info'', JObj [(js ''created'', JNum 0)]), (js ''runtime'', JObj [])], JObj [(js ''bundleVersion'', JUndefined), (js ''env'', JObj [])]],
          FrameworkCall (js ''undefined'') ''createInstance''
            [JStr (js ''1''), JStr (plainBundle), JObj [(js ''bundleVersion'', JUndefined), (js ''env'', JObj [])], JNull, JObj [(js ''a'', JBool True)]]]"
  by code_simp

text \<open>
  C10 on the code, at a declared backend that is the name of a property of
  \<^verbatim>\<open>Object.prototype\<close>. The header declares the backend \<^verbatim>\<open>constructor\<close> and the version
  \<^verbatim>\<open>"1.0"\<close>, and only \<^verbatim>\<open>Weex\<close> is registered. \<^verbatim>\<open>frameworks["constructor"]\<close> finds the
  function \<^verbatim>\<open>Object\<close>, so the fallback is not taken: the record keeps the backend
  \<^verbatim>\<open>constructor\<close>, the two create hooks run, and the call of the
  \<^verbatim>\<open>createInstance\<close> that the function does not have ends in a \<^verbatim>\<open>TypeError\<close>; no backend is
  called. For the header that declares \<^verbatim>\<open>Rax\<close>, which is neither registered nor
  inherited, the instance falls back to \<^verbatim>\<open>Weex\<close> and the hooks and \<^verbatim>\<open>Weex\<close> receive the
  \<^verbatim>\<open>bundleVersion\<close> \<^verbatim>\<open>"1.0"\<close>.
\<close>

theorem inherited_backend_no_fallback:
  "checkVersion exampleEnv (constructorHeader @ plainBundle)
     = Some [(js ''framework'', JStr (js ''constructor'')), (js ''version'', JStr (js ''1.0''))]
   \<and> map fst (frameworks (startState weexOnly)) = [js ''Weex'']
   \<and> instanceMap (startState weexOnly) (js ''1'') = None
   \<and> fst (createInstance exampleEnv (js ''1'') (constructorHeader @ plainBundle) None JNull
             (startState weexOnly))
       = Inl TypeError
   \<and> instanceMap (snd (createInstance exampleEnv (js ''1'') (constructorHeader @ plainBundle) None JNull
                          (startState weexOnly))) (js ''1'')
       = Some [(js ''framework'', JStr (js ''constructor'')), (js ''version'', JStr (js ''1.0'')), (js ''created'', JNum 0)]
   \<and> drop (length (calls (startState weexOnly)))
        (calls (snd (createInstance exampleEnv (js ''1'') (constructorHeader @ plainBundle) None JNull
                       (startState weexOnly))))
       = [ServiceCall 0 ''create'' [JStr (js ''1''), JObj [(js ''info'', JObj [(js ''framework'', JStr (js ''constructor'')), (js ''version'', JStr (js ''1.0'')), (js ''created'', JNum 0)]), (js ''runtime'', JObj [])], JObj [(js ''bundleVersion'', JStr (js ''1.0'')), (js ''env'', JObj [])]],
          ServiceCall 2 ''create'' [JStr (js ''1''), JObj [(js ''info'', JObj [(js ''framework'', JStr (js ''constructor'')), (js ''version'', JStr (js ''1.0'')), (js ''created'', JNum 0)]), (js ''runtime'', JObj [])], JObj [(js ''bundleVersion'', JStr (js ''1.0'')), (js ''env'', JObj [])]]]
   \<and> checkVersion exampleEnv (raxHeader @ plainBundle)
     = Some [(js ''framework'', JStr (js ''Rax'')), (js ''version'', JStr (js ''1.0''))]
   \<and> fst (createInstance exampleEnv (js ''1'') (raxHeader @ plainBundle) None JNull (startState weexOnly))
       = Inr (JStr (js ''createInstance''))
   \<and> instanceMap (snd (createInstance exampleEnv (js ''1'') (raxHeader @ plainBundle) None JNull
                          (startState weexOnly))) (js ''1'')
       = Some [(js ''framework'', JStr (js ''Weex'')), (js ''version'', JStr (js ''1.0'')), (js ''created'', JNum 0)]
   \<and> drop (length (calls (startState weexOnly)))
        (calls (snd (createInstance exampleEnv (js ''1'') (raxHeader @ plainBundle) None JNull
                       (startState weexOnly))))
       = [ServiceCall 0 ''create'' [JStr (js ''1''), JObj [(js ''info'', JObj [(js ''framework'', JStr (js ''Weex'')), (js ''version'', JStr (js ''1.0'')), (js ''created'', JNum 0)]), (js ''runtime'', JObj [])], JObj [(js ''bundleVersion'', JStr (js ''1.0'')), (js ''env'', JObj [])]],
          ServiceCall 2 ''create'' [JStr (js ''1''), JObj [(js ''info'', JObj [(js ''framework'', JStr (js ''Weex'')), (js ''version'', JStr (js ''1.0'')), (js ''created'', JNum 0)]), (js ''runtime'', JObj [])], JObj [(js ''bundleVersion'', JStr (js ''1.0'')), (js ''env'', JObj [])]],
          FrameworkCall (js ''Weex'') ''createInstance''
            [JStr (js ''1''), JStr (raxHeader @ plainBundle), JObj [(js ''bundleVersion'', JStr (js ''1.0'')), (js ''env'', JObj [])], JNull, JObj [(js ''a'', JBool True)]]]"
  by code_simp

section \<open>The configuration shares nothing with the caller\<close>

text \<open>
  C7. Let the store be well formed (every reference in it points to a cell of it), let
  the caller's \<^verbatim>\<open>config\<close> be missing or an object whose content \<open>ob\<close> can be read (it is
  not cyclic), let \<^verbatim>\<open>instanceMap[id]\<close> find nothing and let the content \<open>w\<close> of
  \<^verbatim>\<open>WXEnvironment || {}\<close> be readable, so that \<^verbatim>\<open>createInstance\<close> builds a
  configuration. Then \<^verbatim>\<open>createInstance\<close>
  leaves every cell that existed before the call as it was and makes the configuration at
  a new address \<open>c\<close>. The content of the object at \<open>c\<close> is
  \<open>initConfig w (Some ob) info\<close>: the JSON copy of \<open>ob\<close> with \<^verbatim>\<open>bundleVersion\<close> and
  \<^verbatim>\<open>env\<close>. Every call that \<^verbatim>\<open>createInstance\<close> makes carries that configuration; when the
  create hooks return and the backend of the record has \<^verbatim>\<open>createInstance\<close>, the calls
  are the create hooks in registration order and then \<^verbatim>\<open>createInstance\<close> of the backend.
  Replacing any cell that existed before the call, so any mutation of the caller's object,
  leaves the content of the configuration unchanged; and replacing any cell made by the
  call, so any mutation of the configuration, leaves the content of the caller's object
  unchanged.
\<close>

theorem snapshot_is_separate:
  assumes closed: "regionClosed 0 (length (heap s)) (heap s)"
    and content: "callerContent (heap s) config = Some (JObj ob)"
    and fresh: "lookupInstance s id' = None"
    and wx: "environmentContent env (heap s) = Some w"
  shows "\<exists>c. let s' = snd (createInstance env id' code config data s);
                 info = newInfo env s code;
                 cfg = JObj (initConfig w (Some ob) info);
                 ctx = instanceContext env (JObj info)
             in take (length (heap s)) (heap s') = heap s
                \<and> length (heap s) \<le> c
                \<and> readValue (heap s') [] (HRef c) = Some cfg
                \<and> (\<forall>ev\<in>set (drop (length (calls s)) (calls s')). configOf ev = Some cfg)
                \<and> ((\<forall>svc\<in>set (services env). \<forall>f. create svc = Some f \<longrightarrow>
                        (\<exists>r. f [JStr id', ctx, cfg] = Inr r)) \<longrightarrow>
                    (\<forall>fw f. lookupFramework env s (getProp info ''framework'') = Some fw \<longrightarrow>
                        fw ''createInstance'' = Some f \<longrightarrow>
                        (\<exists>so. drop (length (calls s)) (calls s') =
                           map (\<lambda>i. ServiceCall i ''create'' [JStr id', ctx, cfg])
                             (hookIndices create (services env))
                           @ [FrameworkCall (frameworkKey env (getProp info ''framework''))
                                ''createInstance'' [JStr id', JStr code, cfg, data, JObj so]])))
                \<and> (\<forall>b cell. b < length (heap s) \<longrightarrow>
                      readValue ((heap s')[b := cell]) [] (HRef c) = readValue (heap s') [] (HRef c))
                \<and> (\<forall>a b cell. config = Some a \<longrightarrow> length (heap s) \<le> b \<longrightarrow>
                      readValue ((heap s')[b := cell]) [] (HRef a) = readValue (heap s) [] (HRef a))"
proof -
  let ?s' = "snd (createInstance env id' code config data s)"
  let ?info = "newInfo env s code"
  let ?cfg = "JObj (initConfig w (Some ob) ?info)"
  let ?ctx = "instanceContext env (JObj ?info)"
  let ?args = "[JStr id', ?ctx, ?cfg]"
  let ?h = "heap s"
  from createInstance_fresh [OF fresh closed content wx, of code data] obtain c h' where
    t: "take (length ?h) h' = ?h" and c: "length ?h \<le> c" "c < length h'"
    and r: "regionClosed (length ?h) (length h') h'"
    and rd: "readValue h' [] (HRef c) = Some ?cfg"
    and ci: "createInstance env id' code config data s =
               (case createServices ?args 0 (services env) []
                       (s\<lparr>instanceMap := (instanceMap s)(id' \<mapsto> ?info), heap := h'\<rparr>) of
                  (Inl e, s2) \<Rightarrow> (Inl e, s2)
                | (Inr serviceObjects, s2) \<Rightarrow>
                    callFramework env (getProp ?info ''framework'') ''createInstance''
                      [JStr id', JStr code, ?cfg, data, JObj serviceObjects] s2)"
    by blast
  let ?s1 = "s\<lparr>instanceMap := (instanceMap s)(id' \<mapsto> ?info), heap := h'\<rparr>"
  obtain res s2 where cs: "createServices ?args 0 (services env) [] ?s1 = (res, s2)"
    by (cases "createServices ?args 0 (services env) [] ?s1")
  from createServices_frame [of ?args 0 "services env" "[]" ?s1] cs
  have h2: "heap s2 = h'" by simp
  from createServices_calls [of ?args 0 "services env" "[]" ?s1] cs obtain evs where
    evs: "calls s2 = calls s @ evs" "\<forall>ev\<in>set evs. \<exists>j. ev = ServiceCall j ''create'' ?args"
    by auto
  have hp: "heap ?s' = h'"
    using cs h2 by (cases res) (simp_all add: ci callFramework_frame)
  have cl: "\<forall>ev\<in>set (drop (length (calls s)) (calls ?s')). configOf ev = Some ?cfg"
    using cs evs
    by (cases res) (auto simp: ci callFramework_def split: option.splits)
  have ex: "\<exists>so. drop (length (calls s)) (calls ?s') =
               map (\<lambda>i. ServiceCall i ''create'' ?args) (hookIndices create (services env))
               @ [FrameworkCall (frameworkKey env (getProp ?info ''framework''))
                    ''createInstance'' [JStr id', JStr code, ?cfg, data, JObj so]]"
    if hooks: "\<forall>svc\<in>set (services env). \<forall>f. create svc = Some f \<longrightarrow> (\<exists>r. f ?args = Inr r)"
      and fw: "lookupFramework env s (getProp ?info ''framework'') = Some fw"
              "fw ''createInstance'' = Some f"
    for fw f
  proof -
    from createServices_returns [OF hooks, of 0 "[]" ?s1] obtain so where
      "createServices ?args 0 (services env) [] ?s1 =
         (Inr so, ?s1\<lparr>calls := calls ?s1 @ map (\<lambda>k. ServiceCall (0 + k) ''create'' ?args)
                                            (hookIndices create (services env))\<rparr>)"
      by blast
    with fw show ?thesis
      by (intro exI [of _ so]) (simp add: ci callFramework_def)
  qed
  from t have old: "h' ! b = ?h ! b" if "b < length ?h" for b
    using that by (metis nth_take)
  from c have len: "length ?h \<le> length h'" by simp
  have 1: "readValue (h'[b := cell]) [] (HRef c) = readValue h' [] (HRef c)"
    if "b < length ?h" for b cell
    using that c by (intro readValue_region [OF r]) auto
  have valid: "a < length ?h" if "config = Some a" for a
    using that content by (auto simp: callerContent_def split: if_splits)
  have 2: "readValue (h'[b := cell]) [] (HRef a) = readValue ?h [] (HRef a)"
    if "config = Some a" "length ?h \<le> b" for a b cell
    using that valid len old by (intro readValue_region [OF closed]) auto
  from t c rd cl ex 1 2 show ?thesis
    unfolding Let_def hp by (intro exI [of _ c]) blast
qed

lemma callerState_heap: "heap callerState = exampleHeap"
  by (simp add: callerState_def)

lemma exampleHeap_closed: "regionClosed 0 (length exampleHeap) exampleHeap"
  by (auto simp: regionClosed_def exampleHeap_def refsOfProps_def less_Suc_eq numeral_2_eq_2)

text \<open>
  \<^verbatim>\<open>createInstance\<close> on the Rax bundle with the configuration at address 1. The new
  configuration is at address 4 and its array at address 3; the property with value
  \<^verbatim>\<open>undefined\<close> is dropped. The two create hooks and the backend receive it. Emptying the
  caller's object or its array leaves the new configuration as it is, and emptying the
  new configuration or its array leaves the caller's object as it is.
\<close>

theorem snapshot_is_separate_witness:
  "regionClosed 0 (length (heap callerState)) (heap callerState)
   \<and> callerContent (heap callerState) (Some 1)
       = Some (JObj [(js ''list'', JArr [JNum 1, JStr (js ''x'')]), (js ''debug'', JBool True),
                     (js ''skip'', JUndefined)])
   \<and> lookupInstance callerState (js ''1'') = None
   \<and> environmentContent exampleEnv (heap callerState) = Some (JObj [])
   \<and> (\<exists>c. let s' = snd (createInstance exampleEnv (js ''1'') (raxHeader @ plainBundle) (Some 1) JNull
                           callerState);
                info = newInfo exampleEnv callerState (raxHeader @ plainBundle);
                cfg = JObj (initConfig (JObj [])
                        (Some [(js ''list'', JArr [JNum 1, JStr (js ''x'')]), (js ''debug'', JBool True),
                               (js ''skip'', JUndefined)]) info);
                ctx = instanceContext exampleEnv (JObj info)
            in take (length (heap callerState)) (heap s') = heap callerState
               \<and> length (heap callerState) \<le> c
               \<and> readValue (heap s') [] (HRef c) = Some cfg
               \<and> (\<forall>ev\<in>set (drop (length (calls callerState)) (calls s')). configOf ev = Some cfg)
               \<and> ((\<forall>svc\<in>set (services exampleEnv). \<forall>f. create svc = Some f \<longrightarrow>
                       (\<exists>r. f [JStr (js ''1''), ctx, cfg] = Inr r)) \<longrightarrow>
                   (\<forall>fw f. lookupFramework exampleEnv callerState (getProp info ''framework'') = Some fw \<longrightarrow>
                       fw ''createInstance'' = Some f \<longrightarrow>
                       (\<exists>so. drop (length (calls callerState)) (calls s') =
                          map (\<lambda>i. ServiceCall i ''create'' [JStr (js ''1''), ctx, cfg])
                            (hookIndices create (services exampleEnv))
                          @ [FrameworkCall (frameworkKey exampleEnv (getProp info ''framework''))
                               ''createInstance''
                               [JStr (js ''1''), JStr (raxHeader @ plainBundle), cfg, JNull, JObj so]])))
               \<and> (\<forall>b cell. b < length (heap callerState) \<longrightarrow>
                     readValue ((heap s')[b := cell]) [] (HRef c) = readValue (heap s') [] (HRef c))
               \<and> (\<forall>a b cell. Some 1 = Some a \<longrightarrow> length (heap callerState) \<le> b \<longrightarrow>
                     readValue ((heap s')[b := cell]) [] (HRef a) = readValue (heap callerState) [] (HRef a)))
   \<and> heap (snd (createInstance exampleEnv (js ''1'') (raxHeader @ plainBundle) (Some 1) JNull callerState))
       = exampleSnapshot
   \<and> readValue exampleSnapshot [] (HRef 4) = Some (JObj [(js ''list'', JArr [JNum 1, JStr (js ''x'')]), (js ''debug'', JBool True),
                  (js ''bundleVersion'', JStr (js ''1.0'')), (js ''env'', JObj [])])
   \<and> map configOf
        (drop (length (calls callerState))
           (calls (snd (createInstance exampleEnv (js ''1'') (raxHeader @ plainBundle) (Some 1) JNull
                          callerState))))
       = replicate 3 (Some (JObj [(js ''list'', JArr [JNum 1, JStr (js ''x'')]), (js ''debug'', JBool True),
                  (js ''bundleVersion'', JStr (js ''1.0'')), (js ''env'', JObj [])]))
   \<and> readValue (exampleSnapshot[1 := HObject []]) [] (HRef 4) = readValue exampleSnapshot [] (HRef 4)
   \<and> readValue (exampleSnapshot[0 := HArray [] []]) [] (HRef 4) = readValue exampleSnapshot [] (HRef 4)
   \<and> readValue (exampleSnapshot[4 := HObject []]) [] (HRef 1) = readValue exampleHeap [] (HRef 1)
   \<and> readValue (exampleSnapshot[3 := HArray [] []]) [] (HRef 1) = readValue exampleHeap [] (HRef 1)"
proof -
  have closed: "regionClosed 0 (length (heap callerState)) (heap callerState)"
    by (simp add: callerState_heap exampleHeap_closed)
  have content: "callerContent (heap callerState) (Some 1)
       = Some (JObj [(js ''list'', JArr [JNum 1, JStr (js ''x'')]), (js ''debug'', JBool True),
                     (js ''skip'', JUndefined)])"
    by code_simp
  have fresh: "lookupInstance callerState (js ''1'') = None"
    by code_simp
  have wx: "environmentContent exampleEnv (heap callerState) = Some (JObj [])"
    by code_simp
  have e: "heap (snd (createInstance exampleEnv (js ''1'') (raxHeader @ plainBundle) (Some 1) JNull callerState))
       = exampleSnapshot"
    by code_simp
  have r: "readValue exampleSnapshot [] (HRef 4) = Some (JObj [(js ''list'', JArr [JNum 1, JStr (js ''x'')]), (js ''debug'', JBool True),
                  (js ''bundleVersion'', JStr (js ''1.0'')), (js ''env'', JObj [])])"
    by code_simp
  have k: "map configOf
        (drop (length (calls callerState))
           (calls (snd (createInstance exampleEnv (js ''1'') (raxHeader @ plainBundle) (Some 1) JNull
                          callerState))))
       = replicate 3 (Some (JObj [(js ''list'', JArr [JNum 1, JStr (js ''x'')]), (js ''debug'', JBool True),
                  (js ''bundleVersion'', JStr (js ''1.0'')), (js ''env'', JObj [])]))"
    by code_simp
  have m: "readValue (exampleSnapshot[1 := HObject []]) [] (HRef 4) = readValue exampleSnapshot [] (HRef 4)"
    "readValue (exampleSnapshot[0 := HArray [] []]) [] (HRef 4) = readValue exampleSnapshot [] (HRef 4)"
    "readValue (exampleSnapshot[4 := HObject []]) [] (HRef 1) = readValue exampleHeap [] (HRef 1)"
    "readValue (exampleSnapshot[3 := HArray [] []]) [] (HRef 1) = readValue exampleHeap [] (HRef 1)"
    by code_simp+
  note w = snapshot_is_separate [OF closed content fresh wx, of "raxHeader @ plainBundle" JNull]
  from closed content fresh wx w e r k m show ?thesis
    by blast
qed

end
